(* ===== verification/Prelude.thy ===== *)
theory Prelude
  imports Main "HOL-Library.Word"
begin

text \<open>
  Shared vocabulary of the development: the machine types of the Go sources, the
  outcome of a Go call (a value, an error value, or a run-time panic), errors with
  their text, big-endian encoding and decoding, checked slice access, and the number
  formatting the services use. Everything a component theory needs from the Go
  language or its standard library and that is not a network connection, a float or a
  date is here.
\<close>

unbundle bit_operations_syntax

named_theorems go_simps \<open>unfolding of the Go outcome and slice combinators\<close>
named_theorems wire_simps \<open>sizes and values of encoded fields\<close>

section \<open>Machine types\<close>

type_synonym byte = "8 word"
type_synonym bytes = "byte list"
type_synonym u16 = "16 word"
type_synonym u32 = "32 word"
type_synonym u64 = "64 word"

section \<open>Generic list lemmas\<close>

lemma find_append: "find P (xs @ ys) = (case find P xs of None \<Rightarrow> find P ys | Some x \<Rightarrow> Some x)"
  by (induction xs) auto

section \<open>Exclusive or on words\<close>

lemma xor_eq_0_iff: "x XOR y = 0 \<longleftrightarrow> x = (y :: 'a :: len word)"
  by (simp add: bit_eq_iff bit_xor_iff)

lemma xor_swap_sides: "x XOR p = y XOR q \<longleftrightarrow> x XOR y = p XOR (q :: 'a :: len word)"
  by (simp add: bit_eq_iff bit_xor_iff) blast

lemma xor_cancel_common: "(s XOR x) XOR (s XOR y) = x XOR (y :: 'a :: len word)"
  by (simp add: bit_eq_iff bit_xor_iff) blast

lemma xor_left_cancel: "s XOR x = s XOR y \<longleftrightarrow> x = (y :: 'a :: len word)"
  by (simp add: bit_eq_iff bit_xor_iff) blast

lemma xor_right_cancel: "x XOR s = y XOR s \<longleftrightarrow> x = (y :: 'a :: len word)"
  by (simp add: bit_eq_iff bit_xor_iff) blast

section \<open>Errors\<close>

text \<open>
  A Go error is its text and, for the sentinel values, its identity. \<open>Errorf\<close> is
  \<open>fmt.Errorf\<close> without a wrapped cause: its argument is the fixed text of the format
  string (numeric operands are printed only in logs and are dropped). \<open>ErrorfQ\<close>
  has one \<open>%q\<close> operand, kept because it is text the peer controls. \<open>Wrapf\<close> is
  \<open>fmt.Errorf("...: %w", err)\<close>. \<open>NetErr\<close> is an error of the network stack.
\<close>

datatype goerr =
    EOF
  | UnexpectedEOF
  | NetErr string
  | Errorf string
  | ErrorfQ string string
  | Wrapf string goerr

fun Error :: "goerr \<Rightarrow> string" where
  "Error EOF = ''EOF''"
| "Error UnexpectedEOF = ''unexpected EOF''"
| "Error (NetErr s) = s"
| "Error (Errorf s) = s"
| "Error (ErrorfQ s q) = s @ '': '' @ q"
| "Error (Wrapf s e) = s @ '': '' @ Error e"

fun cause :: "goerr \<Rightarrow> goerr" where
  "cause (Wrapf s e) = cause e"
| "cause e = e"

section \<open>Outcome of a Go call\<close>

datatype ('e, 'a) outcome = Ok 'a | Err 'e | Panic

fun bind_o :: "('e, 'a) outcome \<Rightarrow> ('a \<Rightarrow> ('e, 'b) outcome) \<Rightarrow> ('e, 'b) outcome" where
  "bind_o (Ok x) f = f x"
| "bind_o (Err e) f = Err e"
| "bind_o Panic f = Panic"

fun map_err :: "('e \<Rightarrow> 'f) \<Rightarrow> ('e, 'a) outcome \<Rightarrow> ('f, 'a) outcome" where
  "map_err g (Ok x) = Ok x"
| "map_err g (Err e) = Err (g e)"
| "map_err g Panic = Panic"

fun is_Ok :: "('e, 'a) outcome \<Rightarrow> bool" where
  "is_Ok (Ok x) = True"
| "is_Ok (Err e) = False"
| "is_Ok Panic = False"

fun_cases map_err_OkE [elim!]: "map_err g x = Ok y"

lemma bind_o_OkE [elim!]:
  assumes "bind_o x f = Ok y"
  obtains v where "x = Ok v" "f v = Ok y"
  using assms by (cases x) auto

lemma bind_o_Panic_iff: "bind_o x f = Panic \<longleftrightarrow> x = Panic \<or> (\<exists>v. x = Ok v \<and> f v = Panic)"
  by (cases x) auto

lemma bind_o_not_PanicI [intro]:
  "x \<noteq> Panic \<Longrightarrow> (\<And>v. x = Ok v \<Longrightarrow> f v \<noteq> Panic) \<Longrightarrow> bind_o x f \<noteq> Panic"
  by (cases x) auto

lemma map_err_Panic_iff [simp]: "map_err g x = Panic \<longleftrightarrow> x = Panic"
  by (cases x) auto

lemma map_err_Ok_iff [simp]: "map_err g x = Ok y \<longleftrightarrow> x = Ok y"
  by (cases x) auto

section \<open>Byte slices with the run-time bounds check\<close>

text \<open>
  \<open>idx b i\<close> is \<open>b[i]\<close> and \<open>slice b lo hi\<close> is \<open>b[lo:hi]\<close>. \<open>uint_at k b i\<close> is
  \<open>binary.BigEndian.UintN(b[i:])\<close> for a width of \<open>k\<close> bytes: re-slicing panics when
  \<open>i\<close> is past the end and the decoder panics when fewer than \<open>k\<close> bytes are left.
\<close>

definition be_nat :: "bytes \<Rightarrow> nat" where
  "be_nat bs = foldl (\<lambda>a b. a * 256 + unat b) 0 bs"

definition idx :: "'a list \<Rightarrow> nat \<Rightarrow> ('e, 'a) outcome" where
  "idx b i = (if i < length b then Ok (b ! i) else Panic)"

definition slice :: "'a list \<Rightarrow> nat \<Rightarrow> nat \<Rightarrow> ('e, 'a list) outcome" where
  "slice b lo hi = (if lo \<le> hi \<and> hi \<le> length b then Ok (take (hi - lo) (drop lo b)) else Panic)"

definition uint_at :: "nat \<Rightarrow> bytes \<Rightarrow> nat \<Rightarrow> ('e, nat) outcome" where
  "uint_at k b i = (if i + k \<le> length b then Ok (be_nat (take k (drop i b))) else Panic)"

lemmas slice_defs [go_simps] = idx_def slice_def uint_at_def

lemma uint_at_not_Panic [simp]: "uint_at k b i = Panic \<longleftrightarrow> length b < i + k"
  by (auto simp: uint_at_def)

lemma idx_Panic_iff [simp]: "idx b i = Panic \<longleftrightarrow> length b \<le> i"
  by (auto simp: idx_def)

lemma slice_Panic_iff: "slice b lo hi = Panic \<longleftrightarrow> \<not> (lo \<le> hi \<and> hi \<le> length b)"
  by (auto simp: slice_def)

section \<open>Big-endian encoding\<close>

text \<open>\<open>put_be k v\<close> is what \<open>binary.BigEndian.PutUintN\<close> stores, for \<open>k\<close> bytes.\<close>

fun put_be :: "nat \<Rightarrow> nat \<Rightarrow> bytes" where
  "put_be 0 v = []"
| "put_be (Suc k) v = word_of_nat (v div 256 ^ k) # put_be k v"

lemma length_put_be [simp, wire_simps]: "length (put_be k v) = k"
  by (induction k) auto

lemma be_nat_acc: "foldl (\<lambda>a b. a * 256 + unat b) a bs = a * 256 ^ length bs + be_nat (bs :: bytes)"
proof (induction bs arbitrary: a)
  case Nil
  then show ?case by (simp add: be_nat_def)
next
  case (Cons b bs)
  from Cons [of "a * 256 + unat b"] Cons [of "unat b"] show ?case
    by (simp add: be_nat_def algebra_simps)
qed

lemma be_nat_Nil [simp]: "be_nat [] = 0"
  by (simp add: be_nat_def)

lemma be_nat_Cons [simp]: "be_nat (b # bs) = unat b * 256 ^ length bs + be_nat bs"
proof -
  have "be_nat (b # bs) = foldl (\<lambda>a b. a * 256 + unat b) (unat b) bs"
    by (simp add: be_nat_def)
  then show ?thesis by (simp only: be_nat_acc)
qed

lemma unat_byte [simp]: "unat (b :: byte) < 256"
  using unsigned_less [of b] by simp

lemma be_nat_bound: "be_nat bs < 256 ^ length bs"
proof (induction bs)
  case Nil
  then show ?case by simp
next
  case (Cons b bs)
  have "unat b * 256 ^ length bs + be_nat bs < (unat b + 1) * 256 ^ length bs"
    using Cons by simp
  also have "\<dots> \<le> 256 * 256 ^ length bs"
  proof (rule mult_le_mono1)
    show "unat b + 1 \<le> 256" using unat_byte [of b] by linarith
  qed
  finally show ?case by simp
qed

lemma unat_byte_of_nat [simp]: "unat (word_of_nat n :: byte) = n mod 256"
  by (simp add: unat_of_nat)

lemma be_nat_put_be [simp, wire_simps]: "be_nat (put_be k v) = v mod 256 ^ k"
proof (induction k)
  case 0
  then show ?case by simp
next
  case (Suc k)
  have "v mod 256 ^ Suc k = 256 ^ k * (v div 256 ^ k mod 256) + v mod 256 ^ k"
    by (metis mod_mult2_eq mult.commute power_Suc)
  then show ?case by (simp add: Suc mult.commute)
qed

lemma put_be_be_nat: "put_be (length bs) (be_nat bs) = bs"
proof -
  have "put_be (length bs) (m * 256 ^ length bs + be_nat bs) = bs" for m
  proof (induction bs arbitrary: m)
    case Nil
    then show ?case by simp
  next
    case (Cons b bs)
    let ?n = "length bs"
    have eq: "m * 256 ^ Suc ?n + be_nat (b # bs) = (m * 256 + unat b) * 256 ^ ?n + be_nat bs"
      by (simp add: algebra_simps)
    have d: "((m * 256 + unat b) * 256 ^ ?n + be_nat bs) div 256 ^ ?n = m * 256 + unat b"
      using be_nat_bound [of bs] by simp
    have w: "(word_of_nat (m * 256 + unat b) :: byte) = b"
    proof (rule word_unat_eq_iff [THEN iffD2])
      show "unat (word_of_nat (m * 256 + unat b) :: byte) = unat b"
        by (simp only: unat_byte_of_nat mod_mult_self3) simp
    qed
    show ?case
      by (simp only: length_Cons eq put_be.simps d w Cons.IH)
  qed
  from this [of 0] show ?thesis by simp
qed

lemma uint_at_bound: "uint_at k b i = Ok v \<Longrightarrow> v < 256 ^ k"
  using be_nat_bound [of "take k (drop i b)"] by (auto simp: uint_at_def split: if_splits)

text \<open>
  Reading at an offset only depends on what follows it. These rules move an offset over
  an encoded field: the premise says what the data holds from there on.
\<close>

lemma drop_append_advance:
  "drop i b = xs @ rest \<Longrightarrow> drop (i + length xs) b = rest"
  by (metis add.commute append_eq_conv_conj drop_drop)

lemma length_from_drop:
  "drop i b = xs @ rest \<Longrightarrow> i \<le> length b \<Longrightarrow> length b = i + length xs + length rest"
  by (metis add.assoc le_add_diff_inverse length_append length_drop)

lemma uint_at_put_be:
  assumes "drop i b = put_be k v @ rest" "i \<le> length b"
  shows "uint_at k b i = Ok (v mod 256 ^ k)"
  using length_from_drop [OF assms] assms(1) by (simp add: uint_at_def)

lemma uint_at_u16:
  assumes "drop i b = put_be 2 (unat (w :: u16)) @ rest" "i \<le> length b"
  shows "uint_at 2 b i = Ok (unat w)"
  using unsigned_less [where 'a = nat, of w] by (simp add: uint_at_put_be [OF assms])

lemma uint_at_u32:
  assumes "drop i b = put_be 4 (unat (w :: u32)) @ rest" "i \<le> length b"
  shows "uint_at 4 b i = Ok (unat w)"
  using unsigned_less [where 'a = nat, of w] by (simp add: uint_at_put_be [OF assms])

lemma uint_at_u64:
  assumes "drop i b = put_be 8 (unat (w :: u64)) @ rest" "i \<le> length b"
  shows "uint_at 8 b i = Ok (unat w)"
  using unsigned_less [where 'a = nat, of w] by (simp add: uint_at_put_be [OF assms])

lemma idx_from_drop:
  assumes "drop i b = x # rest"
  shows "idx b i = Ok x"
proof -
  have "i < length b" using assms by (metis drop_eq_Nil list.distinct(1) not_le_imp_less)
  with assms show ?thesis by (simp add: idx_def) (metis Cons_nth_drop_Suc list.inject)
qed

section \<open>Nibbles and single bits\<close>

lemma nibbles:
  assumes "s < 16" "f < 16"
  shows "drop_bit 4 (word_of_nat (s * 16 + f) :: byte) AND 0x0F = word_of_nat s"
    "(word_of_nat (s * 16 + f) :: byte) AND 0x0F = word_of_nat f"
    "drop_bit 4 (word_of_nat (s * 16 + f) :: byte) = word_of_nat s"
proof -
  have m: "(w :: byte) AND 0x0F = word_of_nat (unat w mod 16)" for w
  proof -
    have "w AND 0x0F = take_bit 4 w" by (simp add: take_bit_eq_mask mask_eq_exp_minus_1)
    then have "unat (w AND 0x0F) = unat w mod 16"
      by (simp add: take_bit_eq_mod unat_mod_distrib)
    then show ?thesis by (simp only: word_unat_eq_iff unat_byte_of_nat) simp
  qed
  have b: "(s * 16 + f) mod 256 = s * 16 + f" using assms by simp
  have d: "unat (drop_bit 4 (word_of_nat (s * 16 + f) :: byte)) = s"
    unfolding unat_drop_bit_eq unat_byte_of_nat b using assms by (simp add: drop_bit_eq_div)
  from d show "drop_bit 4 (word_of_nat (s * 16 + f) :: byte) AND 0x0F = word_of_nat s"
    unfolding m using assms by simp
  show "drop_bit 4 (word_of_nat (s * 16 + f) :: byte) = word_of_nat s"
    using d assms by (simp only: word_unat_eq_iff unat_byte_of_nat) simp
  show "(word_of_nat (s * 16 + f) :: byte) AND 0x0F = word_of_nat f"
    unfolding m unat_byte_of_nat b using assms by simp
qed

lemma drop_and_1: "drop_bit n w AND 1 = (of_bool (bit w n) :: 'a :: len word)"
proof (rule bit_word_eqI)
  fix m
  show "bit (drop_bit n w AND 1) m \<longleftrightarrow> bit (of_bool (bit w n) :: 'a word) m"
    by (cases "m = 0") (auto simp: bit_and_iff bit_drop_bit_eq bit_1_iff)
qed

lemma and_single_bit: "n < LENGTH('a) \<Longrightarrow> w AND push_bit n 1 \<noteq> 0 \<longleftrightarrow> bit (w :: 'a :: len word) n"
  by (simp add: push_bit_of_1 and_exp_eq_0_iff_not_bit)

section \<open>Strings and number formatting\<close>

text \<open>
  A Go string is a byte sequence and a HOL \<open>char\<close> is a byte, so \<open>string(b)\<close> is a
  bytewise conversion.
\<close>

definition string_of :: "bytes \<Rightarrow> string" where
  "string_of bs = map (\<lambda>b. char_of (unat b)) bs"

definition bytes_of :: "string \<Rightarrow> bytes" where
  "bytes_of s = map (\<lambda>c. word_of_nat (of_char c)) s"

lemma length_string_of [simp]: "length (string_of bs) = length bs"
  by (simp add: string_of_def)

lemma length_bytes_of [simp]: "length (bytes_of s) = length s"
  by (simp add: bytes_of_def)

lemma bytes_of_string_of [simp]: "bytes_of (string_of bs) = bs"
proof -
  have "(word_of_nat (of_char (char_of (unat b) :: char)) :: byte) = b" for b :: byte
    by (rule word_unat_eq_iff [THEN iffD2]) simp
  then show ?thesis by (simp add: bytes_of_def string_of_def comp_def)
qed

lemma string_of_bytes_of [simp]: "string_of (bytes_of s) = s"
proof -
  have "char_of (unat (word_of_nat (of_char c :: nat) :: byte)) = c" for c :: char
    by simp
  then show ?thesis by (simp add: bytes_of_def string_of_def comp_def)
qed

text \<open>\<open>%d\<close> of a natural number and of a signed integer.\<close>

fun fmt_nat :: "nat \<Rightarrow> string" where
  "fmt_nat n = (if n < 10 then [char_of (48 + n)] else fmt_nat (n div 10) @ [char_of (48 + n mod 10)])"

declare fmt_nat.simps [simp del]

definition fmt_int :: "int \<Rightarrow> string" where
  "fmt_int i = (if i < 0 then ''-'' @ fmt_nat (nat (- i)) else fmt_nat (nat i))"

end
