(* ===== verification/Conn.thy ===== *)
theory Conn
  imports Prelude
begin

text \<open>
  The network connection a protocol handler works on (\<open>net.Conn\<close>) and the Go calls
  the handlers make on it: \<open>io.ReadFull\<close>, \<open>binary.Read\<close>, \<open>conn.Write\<close> and a
  \<open>bufio.Reader\<close>'s \<open>ReadString\<close>. A connection is explicit state: the segments the
  peer's bytes arrive in (one per \<open>Read\<close>), the error \<open>Read\<close> returns after the last
  one, the results of the writes to come, and what was written.
\<close>

record conn =
  inp :: "bytes list"
  ending :: goerr
  wres :: "goerr option list"
  outp :: bytes

type_synonym ('e, 'a) io = "conn \<Rightarrow> ('e, 'a) outcome \<times> conn"

text \<open>The bytes still to be read, whatever the segmentation.\<close>

definition pending :: "conn \<Rightarrow> bytes" where
  "pending c = concat (inp c)"

section \<open>Sequencing\<close>

definition ret_io :: "'a \<Rightarrow> ('e, 'a) io" where
  "ret_io x c = (Ok x, c)"

definition lift_io :: "('e, 'a) outcome \<Rightarrow> ('e, 'a) io" where
  "lift_io r c = (r, c)"

definition bind_io :: "('e, 'a) io \<Rightarrow> ('a \<Rightarrow> ('e, 'b) io) \<Rightarrow> ('e, 'b) io" where
  "bind_io m f c = (case m c of (Ok x, c') \<Rightarrow> f x c' | (Err e, c') \<Rightarrow> (Err e, c') | (Panic, c') \<Rightarrow> (Panic, c'))"

definition wrap_io :: "('e \<Rightarrow> 'f) \<Rightarrow> ('e, 'a) io \<Rightarrow> ('f, 'a) io" where
  "wrap_io g m c = (case m c of (r, c') \<Rightarrow> (map_err g r, c'))"

lemmas io_defs [go_simps] = ret_io_def lift_io_def bind_io_def wrap_io_def

lemma bind_io_OkE:
  assumes "bind_io m f c = (Ok y, c'')"
  obtains x c' where "m c = (Ok x, c')" "f x c' = (Ok y, c'')"
  using assms by (auto simp: bind_io_def split: prod.splits outcome.splits)

lemma bind_io_Ok: "m c = (Ok x, c') \<Longrightarrow> bind_io m f c = f x c'"
  by (simp add: bind_io_def)

lemma bind_io_Err: "m c = (Err e, c') \<Longrightarrow> bind_io m f c = (Err e, c')"
  by (simp add: bind_io_def)

lemma fst_bind_io_Panic:
  "fst (bind_io m f c) = Panic \<longleftrightarrow>
   fst (m c) = Panic \<or> (\<exists>x c'. m c = (Ok x, c') \<and> fst (f x c') = Panic)"
  by (auto simp: bind_io_def split: prod.splits outcome.splits)

lemma fst_wrap_io_Panic [simp]: "fst (wrap_io g m c) = Panic \<longleftrightarrow> fst (m c) = Panic"
  by (simp add: wrap_io_def split: prod.splits)

lemma wrap_io_Ok_iff [simp]: "wrap_io g m c = (Ok x, c') \<longleftrightarrow> m c = (Ok x, c')"
  by (simp add: wrap_io_def split: prod.splits)

lemma wrap_io_Ok: "m c = (Ok x, c') \<Longrightarrow> wrap_io g m c = (Ok x, c')"
  by simp

lemma bind_wrap_Ok: "m c = (Ok x, c') \<Longrightarrow> bind_io (wrap_io g m) f c = f x c'"
  by (simp add: bind_io_def wrap_io_def)

lemma bind_wrap_Err: "m c = (Err e, c') \<Longrightarrow> bind_io (wrap_io g m) f c = (Err (g e), c')"
  by (simp add: bind_io_def wrap_io_def)

text \<open>A result other than an error was produced by the continuation.\<close>

lemma bind_wrap_reachesE:
  assumes "bind_io (wrap_io g m) f c = (r, c')" "\<not> (\<exists>e. r = Err e)" "fst (m c) \<noteq> Panic"
  obtains x c1 where "m c = (Ok x, c1)" "f x c1 = (r, c')"
  using assms by (auto simp: bind_io_def wrap_io_def split: prod.splits outcome.splits)

section \<open>Reading\<close>

text \<open>
  \<open>read_full n segs\<close> is the loop of \<open>io.ReadFull\<close>: it takes up to \<open>n\<close> bytes, one
  segment after the other, and leaves the rest.
\<close>

fun read_full :: "nat \<Rightarrow> bytes list \<Rightarrow> bytes \<times> bytes list" where
  "read_full n [] = ([], [])"
| "read_full n (s # ss) =
     (if n = 0 then ([], s # ss)
      else if n < length s then (take n s, drop n s # ss)
      else (case read_full (n - length s) ss of (got, rest) \<Rightarrow> (s @ got, rest)))"

definition ReadFull :: "nat \<Rightarrow> (goerr, bytes) io" where
  "ReadFull n c =
     (case read_full n (inp c) of (got, rest) \<Rightarrow>
        ((if length got = n then Ok got
          else if ending c = EOF then Err (if got = [] then EOF else UnexpectedEOF)
          else Err (ending c)),
         c\<lparr>inp := rest\<rparr>))"

text \<open>\<open>binary.Read(conn, binary.BigEndian, &v)\<close> for an unsigned \<open>v\<close> of \<open>k\<close> bytes.\<close>

definition read_uint :: "nat \<Rightarrow> (goerr, nat) io" where
  "read_uint k = bind_io (ReadFull k) (\<lambda>b. ret_io (be_nat b))"

lemma read_full_take: "fst (read_full n ss) = take n (concat ss)"
  by (induction n ss rule: read_full.induct) (auto split: prod.splits)

lemma read_full_drop: "concat (snd (read_full n ss)) = drop n (concat ss)"
  by (induction n ss rule: read_full.induct) (auto split: prod.splits)

lemma ReadFull_ok:
  assumes "n \<le> length (pending c)"
  shows "\<exists>c'. ReadFull n c = (Ok (take n (pending c)), c') \<and> pending c' = drop n (pending c)
           \<and> ending c' = ending c \<and> wres c' = wres c \<and> outp c' = outp c"
proof -
  obtain got rest where r: "read_full n (inp c) = (got, rest)" by fastforce
  have "got = take n (pending c)" "concat rest = drop n (pending c)"
    using read_full_take [of n "inp c"] read_full_drop [of n "inp c"] r
    by (simp_all add: pending_def)
  with assms r show ?thesis by (simp add: ReadFull_def pending_def)
qed

lemma ReadFull_short:
  assumes "length (pending c) < n"
  shows "\<exists>e c'. ReadFull n c = (Err e, c') \<and> pending c' = [] \<and> outp c' = outp c
           \<and> (ending c = EOF \<longrightarrow> e = EOF \<or> e = UnexpectedEOF) \<and> (ending c \<noteq> EOF \<longrightarrow> e = ending c)"
proof -
  obtain got rest where r: "read_full n (inp c) = (got, rest)" by fastforce
  have "got = take n (pending c)" "concat rest = drop n (pending c)"
    using read_full_take [of n "inp c"] read_full_drop [of n "inp c"] r
    by (simp_all add: pending_def)
  with assms r show ?thesis by (simp add: ReadFull_def pending_def)
qed

lemma ReadFull_not_Panic [simp]: "fst (ReadFull n c) \<noteq> Panic"
  by (simp add: ReadFull_def split: prod.splits)

lemma read_uint_not_Panic [simp]: "fst (read_uint k c) \<noteq> Panic"
  using ReadFull_not_Panic [of k c]
  by (auto simp: read_uint_def bind_io_def ret_io_def simp del: ReadFull_not_Panic
      split: prod.splits outcome.splits)

lemma ReadFull_Panic [simp]: "ReadFull n c \<noteq> (Panic, c')"
  using ReadFull_not_Panic [of n c] by (metis fst_conv)

lemma ReadFull_OkD:
  assumes "ReadFull n c = (Ok b, c')"
  shows "b = take n (pending c) \<and> length b = n \<and> pending c' = drop n (pending c)
         \<and> ending c' = ending c \<and> wres c' = wres c \<and> outp c' = outp c"
proof (cases "n \<le> length (pending c)")
  case True
  from ReadFull_ok [OF this] assms True show ?thesis by auto
next
  case False
  then have "length (pending c) < n" by simp
  from ReadFull_short [OF this] assms show ?thesis by auto
qed

lemma ReadFull_append:
  assumes "pending c = x @ rest"
  shows "\<exists>c'. ReadFull (length x) c = (Ok x, c') \<and> pending c' = rest
           \<and> ending c' = ending c \<and> wres c' = wres c \<and> outp c' = outp c"
  using ReadFull_ok [of "length x" c] assms by simp

lemma ReadFull_outp: "ReadFull n c = (r, c') \<Longrightarrow> outp c' = outp c \<and> wres c' = wres c"
  by (auto simp: ReadFull_def split: prod.splits)

lemma read_uint_OkD:
  assumes "read_uint k c = (Ok v, c')"
  shows "v = be_nat (take k (pending c)) \<and> k \<le> length (pending c) \<and> pending c' = drop k (pending c)
         \<and> ending c' = ending c \<and> wres c' = wres c \<and> outp c' = outp c"
proof -
  from assms obtain b where b: "ReadFull k c = (Ok b, c')" and v: "v = be_nat b"
    by (auto simp: read_uint_def ret_io_def elim!: bind_io_OkE)
  from ReadFull_OkD [OF b] v show ?thesis by auto
qed

lemma read_uint_append:
  assumes "pending c = put_be k v @ rest"
  shows "\<exists>c'. read_uint k c = (Ok (v mod 256 ^ k), c') \<and> pending c' = rest
           \<and> ending c' = ending c \<and> wres c' = wres c \<and> outp c' = outp c"
proof -
  from ReadFull_append [OF assms] obtain c' where
    "ReadFull k c = (Ok (put_be k v), c')" "pending c' = rest"
    "ending c' = ending c" "wres c' = wres c" "outp c' = outp c" by auto
  then show ?thesis
    by (simp add: read_uint_def bind_io_def ret_io_def)
qed

lemma read_uint_outp: "read_uint k c = (r, c') \<Longrightarrow> outp c' = outp c \<and> wres c' = wres c"
  by (auto simp: read_uint_def bind_io_def ret_io_def dest: ReadFull_outp
      split: prod.splits outcome.splits)

section \<open>Operations that write nothing\<close>

definition quiet :: "('e, 'a) io \<Rightarrow> bool" where
  "quiet m \<longleftrightarrow> (\<forall>c. outp (snd (m c)) = outp c \<and> wres (snd (m c)) = wres c)"

lemma quietD: "quiet m \<Longrightarrow> m c = (r, c') \<Longrightarrow> outp c' = outp c \<and> wres c' = wres c"
  by (metis quiet_def snd_conv)

lemma quiet_snd: "quiet m \<Longrightarrow> outp (snd (m c)) = outp c" "quiet m \<Longrightarrow> wres (snd (m c)) = wres c"
  by (simp_all add: quiet_def)

lemma quiet_ret: "quiet (ret_io x)"
  by (simp add: quiet_def ret_io_def)

lemma quiet_lift: "quiet (lift_io r)"
  by (simp add: quiet_def lift_io_def)

lemma quiet_ReadFull: "quiet (ReadFull n)"
  by (auto simp: quiet_def ReadFull_def split: prod.splits)

lemma quiet_wrap: "quiet m \<Longrightarrow> quiet (wrap_io g m)"
  by (auto simp: quiet_def wrap_io_def split: prod.splits) (metis snd_conv)+

lemma quiet_bind: "quiet m \<Longrightarrow> (\<And>x. quiet (f x)) \<Longrightarrow> quiet (bind_io m f)"
  unfolding quiet_def bind_io_def
  by (auto split: prod.splits outcome.splits) (metis snd_conv)+

lemma quiet_read_uint: "quiet (read_uint k)"
  unfolding read_uint_def by (intro quiet_bind quiet_ReadFull quiet_ret)

lemma quiet_if: "quiet m \<Longrightarrow> quiet n \<Longrightarrow> quiet (if b then m else n)"
  by simp

lemmas quiet_intros = quiet_ret quiet_lift quiet_ReadFull quiet_read_uint quiet_wrap quiet_bind quiet_if

section \<open>Writing\<close>

text \<open>
  \<open>conn.Write\<close>: the next entry of \<open>wres\<close> says whether the call fails (an exhausted
  list means success). A failed write leaves nothing on the wire.
\<close>

definition Write :: "bytes \<Rightarrow> (goerr, unit) io" where
  "Write b c =
     (case wres c of
        [] \<Rightarrow> (Ok (), c\<lparr>outp := outp c @ b\<rparr>)
      | None # ws \<Rightarrow> (Ok (), c\<lparr>outp := outp c @ b, wres := ws\<rparr>)
      | Some e # ws \<Rightarrow> (Err e, c\<lparr>wres := ws\<rparr>))"

text \<open>A write whose error the code discards.\<close>

definition write_discard :: "bytes \<Rightarrow> ('e, unit) io" where
  "write_discard b c = (Ok (), snd (Write b c))"

lemma Write_not_Panic [simp]: "fst (Write b c) \<noteq> Panic"
  by (simp add: Write_def split: list.splits option.splits)

lemma Write_pending [simp]: "pending (snd (Write b c)) = pending c"
  by (simp add: Write_def pending_def split: list.splits option.splits)

lemma Write_ok: "wres c = [] \<Longrightarrow> Write b c = (Ok (), c\<lparr>outp := outp c @ b\<rparr>)"
  by (simp add: Write_def)

lemma outp_update: "outp (c\<lparr>outp := b\<rparr>) = b"
  by simp

lemma pending_outp [simp]: "pending (c\<lparr>outp := o'\<rparr>) = pending c"
  by (simp add: pending_def)

section \<open>A buffered reader created for one call\<close>

text \<open>
  \<open>bufio.NewReader(conn).ReadString(delim)\<close>: segments are pulled into the reader's
  buffer until it holds the delimiter; the text up to and including the delimiter is
  returned. The reader is dropped afterwards, and with it whatever else it had
  buffered: only the segments it did not pull remain on the connection.
\<close>

fun split_at :: "byte \<Rightarrow> bytes \<Rightarrow> (bytes \<times> bytes) option" where
  "split_at d [] = None"
| "split_at d (b # bs) =
     (if b = d then Some ([b], bs)
      else (case split_at d bs of None \<Rightarrow> None | Some (pre, post) \<Rightarrow> Some (b # pre, post)))"

text \<open>
  The reader's buffer. A call of \<open>Read\<close> fetches at most the free space \<open>free\<close> of it;
  when the buffer is full it is emptied into the result and filled again.
\<close>

definition bufSize :: nat where
  "bufSize = 4096"

text \<open>The result: the text read, whether the delimiter was found, the segments left.\<close>

function read_string :: "byte \<Rightarrow> nat \<Rightarrow> bytes list \<Rightarrow> bytes \<times> bool \<times> bytes list" where
  "read_string d free [] = ([], False, [])"
| "read_string d free (s # ss) =
     (let room = (if free = 0 then bufSize else free);
          got = take room s; rest = drop room s;
          ss' = (if rest = [] then ss else rest # ss)
      in case split_at d got of
           Some (pre, post) \<Rightarrow> (pre, True, ss')
         | None \<Rightarrow> (case read_string d (room - length got) ss' of
                     (txt, found, left) \<Rightarrow> (got @ txt, found, left)))"
  by pat_completeness auto
termination
  by (relation "measure (\<lambda>(d, free, ss). length ss + length (concat ss))") (auto simp: bufSize_def)

declare read_string.simps(2) [simp del]

definition ReadString :: "byte \<Rightarrow> conn \<Rightarrow> bytes \<times> goerr option \<times> conn" where
  "ReadString d c =
     (case read_string d bufSize (inp c) of (txt, found, left) \<Rightarrow>
        (txt, (if found then None else Some (ending c)), c\<lparr>inp := left\<rparr>))"

lemma split_at_Some: "split_at d bs = Some (pre, post) \<Longrightarrow> bs = pre @ post \<and> pre \<noteq> [] \<and> last pre = d"
  by (induction bs arbitrary: pre) (auto split: if_splits option.splits)

lemma split_at_None: "split_at d bs = None \<longleftrightarrow> d \<notin> set bs"
  by (induction bs) (auto split: option.splits)

lemma split_at_first: "d \<notin> set pre \<Longrightarrow> split_at d (pre @ d # post) = Some (pre @ [d], post)"
  by (induction pre) auto

lemma split_at_first_delim: "split_at d bs = Some (pre, post) \<Longrightarrow> d \<notin> set (butlast pre)"
  by (induction bs arbitrary: pre) (auto split: if_splits option.splits dest: split_at_Some)

text \<open>
  The text is a prefix of what was pending and ends at the first delimiter; what was buffered
  beyond it is lost, but nothing is lost when the stream ends first.
\<close>

lemma read_string_shape:
  assumes "read_string d free ss = (txt, found, left)"
  shows "\<exists>lost. concat ss = txt @ lost @ concat left \<and>
    (if found then txt \<noteq> [] \<and> last txt = d \<and> d \<notin> set (butlast txt) else d \<notin> set txt \<and> lost = [] \<and> left = [])"
  using assms
proof (induction d free ss arbitrary: "txt" rule: read_string.induct)
  case (1 d free)
  then show ?case by auto
next
  case (2 d free s ss)
  define room where "room = (if free = 0 then bufSize else free)"
  define got where "got = take room s"
  define ss' where "ss' = (if drop room s = [] then ss else drop room s # ss)"
  have step: "read_string d free (s # ss) = (case split_at d got of
       Some (pre, post) \<Rightarrow> (pre, True, ss')
     | None \<Rightarrow> (case read_string d (room - length got) ss' of (txt, found, left) \<Rightarrow> (got @ txt, found, left)))"
    by (simp only: read_string.simps(2) Let_def room_def got_def ss'_def)
  have cat: "concat (s # ss) = got @ concat ss'"
    using append_take_drop_id [of room s] by (auto simp: got_def ss'_def)
  show ?case
  proof (cases "split_at d got")
    case None
    obtain txt' found' left' where rec: "read_string d (room - length got) ss' = (txt', found', left')"
      by (metis prod_cases3)
    have eq: "txt = got @ txt'" "found = found'" "left = left'"
      using "2.prems" None rec by (simp_all add: step)
    from None have ng: "d \<notin> set got" by (simp add: split_at_None)
    from "2.IH" [OF room_def got_def refl ss'_def None, of txt'] rec eq(2,3)
    obtain lost where "concat ss' = txt' @ lost @ concat left"
      "if found then txt' \<noteq> [] \<and> last txt' = d \<and> d \<notin> set (butlast txt') else d \<notin> set txt' \<and> lost = [] \<and> left = []"
      by auto
    with ng show ?thesis unfolding cat eq(1)
      by (intro exI [of _ lost]) (auto simp: butlast_append split: if_splits)
  next
    case (Some pp)
    obtain pre post where pp: "pp = (pre, post)" by fastforce
    have eq: "txt = pre" "found = True" "left = ss'"
      using "2.prems" Some pp by (simp_all add: step)
    from split_at_Some [OF Some [unfolded pp]] split_at_first_delim [OF Some [unfolded pp]] show ?thesis
      unfolding cat eq by (intro exI [of _ post]) simp
  qed
qed

lemma ReadString_consumes:
  assumes "ReadString d c = (txt, err, c')"
  shows "length txt + length (pending c') \<le> length (pending c)"
proof -
  obtain txt' found left where r: "read_string d bufSize (inp c) = (txt', found, left)" by (metis prod_cases3)
  with assms have "txt = txt'" "inp c' = left" by (auto simp: ReadString_def)
  with read_string_shape [OF r] show ?thesis by (auto simp: pending_def)
qed

text \<open>A first segment that fits into the buffer is taken whole.\<close>

lemma ReadString_segment:
  assumes "inp c = (pre @ d # lost) # segs" "d \<notin> set pre" "length (pre @ d # lost) \<le> bufSize"
  shows "ReadString d c = (pre @ [d], None, c\<lparr>inp := segs\<rparr>)"
proof -
  have "bufSize \<noteq> 0" by (simp add: bufSize_def)
  then have "read_string d bufSize (inp c) = (pre @ [d], True, segs)"
    using assms(3) unfolding assms(1)
    by (simp add: read_string.simps(2) Let_def split_at_first [OF assms(2)])
  then show ?thesis by (simp add: ReadString_def)
qed

lemma ReadString_empty: "inp c = [] \<Longrightarrow> ReadString d c = ([], Some (ending c), c)"
  by (simp add: ReadString_def)

section \<open>A connection to try things on\<close>

text \<open>One segment, then the end of the stream; every write succeeds.\<close>

definition sample_conn :: "bytes \<Rightarrow> conn" where
  "sample_conn b = \<lparr>inp = [b], ending = EOF, wres = [], outp = []\<rparr>"

lemma pending_sample [simp]: "pending (sample_conn b) = b"
  by (simp add: sample_conn_def pending_def)

lemma wres_sample [simp]: "wres (sample_conn b) = []"
  by (simp add: sample_conn_def)

lemma outp_sample [simp]: "outp (sample_conn b) = []"
  by (simp add: sample_conn_def)

end
