(* ===== verification/Go_Float.thy ===== *)
theory Go_Float
  imports Prelude "HOL-Library.Log_Nat" Complex_Main
begin

text \<open>
  Go's \<open>float64\<close>: IEEE 754 binary64 with round-to-nearest, ties to even. A finite value
  is the rational it denotes (the sign of a zero is not kept), so every operation is the
  exact one followed by \<open>round64\<close>. The lemmas give what the parsers rely on: the
  rounding error, exactness on integers up to \<open>2 ^ 53\<close>, preservation of sign and zero.
\<close>

section \<open>Rounding\<close>

definition round_half_even :: "rat \<Rightarrow> int" where
  "round_half_even x =
     (let f = \<lfloor>x\<rfloor>; r = x - of_int f
      in if r < 1 / 2 then f else if 1 / 2 < r then f + 1 else if even f then f else f + 1)"

text \<open>The exponent of the leading bit of a positive rational.\<close>

definition ilog2 :: "rat \<Rightarrow> int" where
  "ilog2 q = (case quotient_of q of (n, d) \<Rightarrow>
     (let k = bitlen n - bitlen d in if 2 powi k \<le> q then k else k - 1))"

definition ulp_exp :: "rat \<Rightarrow> int" where
  "ulp_exp q = max (- 1074) (ilog2 \<bar>q\<bar> - 52)"

definition round64 :: "rat \<Rightarrow> rat" where
  "round64 q = (if q = 0 then 0
                else of_int (round_half_even (q / 2 powi ulp_exp q)) * 2 powi ulp_exp q)"

lemma round_half_even_error: "\<bar>of_int (round_half_even x) - x\<bar> \<le> 1 / 2"
proof -
  have "of_int \<lfloor>x\<rfloor> \<le> x" "x < of_int \<lfloor>x\<rfloor> + 1" by linarith+
  then show ?thesis by (simp add: round_half_even_def Let_def abs_if) linarith
qed

lemma round_half_even_of_int [simp]: "round_half_even (of_int i) = i"
  by (simp add: round_half_even_def Let_def)

lemma bitlen_rat_bounds:
  assumes "0 < (x :: int)"
  obtains a where "bitlen x = int a + 1" "(2 :: rat) ^ a \<le> of_int x" "of_int x < (2 :: rat) ^ Suc a"
proof -
  have "0 < bitlen x" using assms bitlen_eq_zero_iff [of x] bitlen_nonneg [of x] by linarith
  then obtain a where a: "bitlen x = int a + 1"
    by (metis add.commute int_ops(4) zero_less_imp_eq_int gr0_implies_Suc)
  from bitlen_bounds [OF assms] have "2 ^ a \<le> x" "x < 2 ^ Suc a"
    by (simp_all add: a nat_add_distrib)
  then have "(2 :: rat) ^ a \<le> of_int x" "of_int x < (2 :: rat) ^ Suc a"
    by (metis of_int_le_iff of_int_numeral of_int_power,
        metis of_int_less_iff of_int_numeral of_int_power)
  with a show ?thesis by (rule that)
qed

text \<open>The numerator and the denominator of a positive rational, with their bit lengths.\<close>

lemma quotient_bits:
  assumes "0 < q"
  obtains n d a b where "quotient_of q = (n, d)" "q = of_int n / of_int d"
    "bitlen n - bitlen d = int a - int b"
    "2 ^ a \<le> (of_int n :: rat)" "of_int n < (2 :: rat) ^ Suc a"
    "2 ^ b \<le> (of_int d :: rat)" "of_int d < (2 :: rat) ^ Suc b"
proof -
  obtain n d where nd: "quotient_of q = (n, d)" by fastforce
  have q: "q = of_int n / of_int d" using quotient_of_div [OF nd] .
  have d: "0 < d" using quotient_of_denom_pos [OF nd] .
  have n: "0 < n" using assms q d by (simp add: zero_less_divide_iff)
  obtain a where a: "bitlen n = int a + 1" "(2 :: rat) ^ a \<le> of_int n" "of_int n < (2 :: rat) ^ Suc a"
    using bitlen_rat_bounds [OF n] .
  obtain b where b: "bitlen d = int b + 1" "(2 :: rat) ^ b \<le> of_int d" "of_int d < (2 :: rat) ^ Suc b"
    using bitlen_rat_bounds [OF d] .
  from a(1) b(1) have "bitlen n - bitlen d = int a - int b" by simp
  from that [OF nd q this a(2,3) b(2,3)] show ?thesis .
qed

lemma ilog2_lower:
  assumes "0 < q"
  shows "2 powi ilog2 q \<le> q"
proof -
  obtain n d a b where nd: "quotient_of q = (n, d)" and q: "q = of_int n / of_int d"
    and k: "bitlen n - bitlen d = int a - int b"
    and n: "2 ^ a \<le> (of_int n :: rat)" and d: "2 ^ b \<le> (of_int d :: rat)" "of_int d < (2 :: rat) ^ Suc b"
    using quotient_bits [OF assms] by metis
  have pos: "(0 :: rat) < 2 ^ b" by simp
  have "(2 :: rat) powi (int a - int b - 1) = 2 ^ a / 2 ^ Suc b"
    by (simp add: power_int_diff)
  also have "\<dots> \<le> of_int n / of_int d"
  proof (rule frac_le)
    show "0 \<le> (of_int n :: rat)" using n by (meson order_trans zero_le_numeral zero_le_power)
    show "0 < (of_int d :: rat)" using d(1) pos by linarith
  qed (use n d in auto)
  finally have "2 powi (int a - int b - 1) \<le> q" by (simp only: q)
  then show ?thesis by (simp add: ilog2_def nd k Let_def)
qed

lemma round64_0 [simp]: "round64 0 = 0"
  by (simp add: round64_def)

text \<open>In the normal range the error is at most half a unit in the 53rd bit.\<close>

lemma round64_error_ulp: "\<bar>round64 q - q\<bar> \<le> 2 powi ulp_exp q / 2"
proof (cases "q = 0")
  case False
  let ?u = "2 powi ulp_exp q :: rat"
  have u: "0 < ?u" by simp
  have "round64 q - q = (of_int (round_half_even (q / ?u)) - q / ?u) * ?u"
    using False by (simp add: round64_def algebra_simps)
  then have "\<bar>round64 q - q\<bar> = \<bar>of_int (round_half_even (q / ?u)) - q / ?u\<bar> * ?u"
    by (simp add: abs_mult)
  also have "\<dots> \<le> 1 / 2 * ?u"
    by (rule mult_right_mono [OF round_half_even_error]) simp
  finally show ?thesis by simp
qed simp

lemma round64_error:
  assumes "- 1022 \<le> ilog2 \<bar>q\<bar>"
  shows "\<bar>round64 q - q\<bar> \<le> \<bar>q\<bar> / 2 ^ 53"
proof (cases "q = 0")
  case False
  have e: "ulp_exp q = ilog2 \<bar>q\<bar> - 52" using assms by (simp add: ulp_exp_def)
  have "(2 :: rat) powi ulp_exp q = 2 powi ilog2 \<bar>q\<bar> / 2 ^ 52"
    by (simp add: e power_int_diff)
  also have "\<dots> \<le> \<bar>q\<bar> / 2 ^ 52"
    by (rule divide_right_mono) (use ilog2_lower [of "\<bar>q\<bar>"] False in auto)
  finally show ?thesis using round64_error_ulp [of q] by simp
qed simp

text \<open>For magnitudes up to a bound of at least one, whatever the exponent.\<close>

lemma round64_near:
  assumes "\<bar>q\<bar> \<le> B" "1 \<le> B"
  shows "\<bar>round64 q - q\<bar> \<le> B / 2 ^ 53"
proof (cases "- 1022 \<le> ilog2 \<bar>q\<bar>")
  case True
  have "\<bar>q\<bar> / 2 ^ 53 \<le> B / 2 ^ 53" using assms(1) by (intro divide_right_mono) auto
  with round64_error [OF True] show ?thesis by linarith
next
  case False
  then have "ulp_exp q = - 1074" by (simp add: ulp_exp_def)
  then have "\<bar>round64 q - q\<bar> \<le> 2 powi (- 1074) / 2" using round64_error_ulp [of q] by simp
  also have "\<dots> \<le> (2 :: rat) powi (- 52) / 2"
    by (intro divide_right_mono power_int_increasing) auto
  also have "\<dots> = 1 / 2 ^ 53" by (simp add: power_int_minus)
  also have "\<dots> \<le> B / 2 ^ 53" using assms(2) by (intro divide_right_mono) auto
  finally show ?thesis .
qed

text \<open>The same with a decimal bound, in a form for linear arithmetic.\<close>

lemma round64_near_decimal:
  assumes "\<bar>q\<bar> \<le> B" "1 \<le> B"
  shows "\<bar>round64 q - q\<bar> \<le> B / 1000000000000000"
proof -
  have "B / 2 ^ 53 \<le> B / 1000000000000000" using assms(2) by (intro divide_left_mono) auto
  with round64_near [OF assms] show ?thesis by linarith
qed

text \<open>The values the parsers produce are quotients of integers by small integers.\<close>

lemma ilog2_ge:
  assumes "0 < q" "1 \<le> q * 2 ^ k"
  shows "- int k - 1 \<le> ilog2 q"
proof (rule ccontr)
  assume neg: "\<not> ?thesis"
  obtain n d a b where nd: "quotient_of q = (n, d)" and q: "q = of_int n / of_int d"
    and ab: "bitlen n - bitlen d = int a - int b"
    and n: "2 ^ a \<le> (of_int n :: rat)" "of_int n < (2 :: rat) ^ Suc a"
    and d: "2 ^ b \<le> (of_int d :: rat)"
    using quotient_bits [OF assms(1)] by metis
  have "int a - int b \<le> ilog2 q + 1" by (simp add: ilog2_def nd ab Let_def)
  with neg have le: "int a - int b + 1 \<le> - int k" by simp
  have "(of_int n :: rat) / of_int d < 2 ^ Suc a / 2 ^ b"
  proof (rule frac_less)
    show "0 \<le> (of_int n :: rat)" using n(1) by (meson order_trans zero_le_numeral zero_le_power)
  qed (use n d in auto)
  also have "\<dots> = (2 :: rat) powi (int a - int b + 1)"
    by (simp add: power_int_diff power_int_add)
  also have "\<dots> \<le> 2 powi (- int k)"
    using le by (intro power_int_increasing) auto
  finally have "q * 2 ^ k < 1" by (simp add: q power_int_minus field_simps)
  with assms(2) show False by simp
qed

lemma round64_quotient_error:
  fixes z :: int and d :: int
  assumes "0 < d" "d \<le> 2 ^ 64"
  shows "\<bar>round64 (of_int z / of_int d) - of_int z / of_int d\<bar> \<le> \<bar>of_int z / of_int d\<bar> / 2 ^ 53"
proof (cases "z = 0")
  case False
  let ?q = "of_int z / of_int d :: rat"
  have "1 \<le> \<bar>z\<bar>" using False by linarith
  then have z: "(1 :: rat) \<le> \<bar>of_int z\<bar>" by (metis of_int_abs of_int_1_le_iff)
  have d: "(of_int d :: rat) \<le> 2 ^ 64"
    using assms(2) by (metis of_int_le_iff of_int_numeral of_int_power)
  have "1 * of_int d \<le> \<bar>of_int z\<bar> * (2 ^ 64 :: rat)"
    by (rule mult_mono) (use z d assms(1) in auto)
  then have "1 \<le> \<bar>?q\<bar> * 2 ^ 64"
    using assms(1) by (simp add: field_simps)
  moreover have "0 < \<bar>?q\<bar>" using False assms(1) by simp
  ultimately have "- int 64 - 1 \<le> ilog2 \<bar>?q\<bar>" by (intro ilog2_ge)
  then show ?thesis by (intro round64_error) simp
qed simp

lemma round64_of_int:
  assumes "\<bar>z\<bar> < 2 ^ 53"
  shows "round64 (of_int z) = of_int z"
proof (cases "z = 0")
  case False
  have z: "(1 :: rat) \<le> \<bar>of_int z\<bar>"
  proof -
    have "1 \<le> \<bar>z\<bar>" using False by linarith
    then show ?thesis by (metis of_int_abs of_int_1_le_iff)
  qed
  have "\<bar>of_int z :: rat\<bar> < 2 ^ 53"
    using assms by (metis of_int_abs of_int_less_iff of_int_numeral of_int_power)
  moreover have "(2 :: rat) powi ilog2 \<bar>of_int z\<bar> \<le> \<bar>of_int z\<bar>"
    using ilog2_lower [of "\<bar>of_int z\<bar>"] False by simp
  ultimately have "(2 :: rat) powi ilog2 \<bar>of_int z :: rat\<bar> < 2 powi 53" by simp
  then have "ilog2 \<bar>of_int z :: rat\<bar> < 53"
    by (metis not_le one_le_numeral power_int_increasing)
  then have "ulp_exp (of_int z :: rat) \<le> 0" by (simp add: ulp_exp_def)
  then obtain m where m: "ulp_exp (of_int z :: rat) = - int m"
    by (metis int_cases2 neg_le_0_iff_le nat_int zle_iff_zadd zero_le_imp_eq_int minus_minus)
  have "of_int z / 2 powi ulp_exp (of_int z :: rat) = (of_int (z * 2 ^ m) :: rat)"
    by (simp add: m power_int_minus field_simps)
  then have "round64 (of_int z) = of_int (z * 2 ^ m) * 2 powi ulp_exp (of_int z :: rat)"
    using False by (simp only: round64_def round_half_even_of_int) simp
  then show ?thesis by (simp add: m power_int_minus)
qed simp

text \<open>Rounding a quotient of integers keeps its sign and does not reach zero.\<close>

lemma round64_quotient_pos:
  fixes z :: int and d :: int
  assumes "0 < z" "0 < d" "d \<le> 2 ^ 64"
  shows "0 < round64 (of_int z / of_int d)"
proof -
  let ?q = "of_int z / of_int d :: rat"
  have q: "0 < ?q" using assms by simp
  have "\<bar>round64 ?q - ?q\<bar> \<le> \<bar>?q\<bar> / 2 ^ 53"
    using assms(2,3) by (rule round64_quotient_error)
  moreover have "\<bar>?q\<bar> / 2 ^ 53 < ?q" using q by (simp add: field_simps)
  ultimately show ?thesis by linarith
qed

lemma round_half_even_minus: "round_half_even (- x) = - round_half_even x"
proof (cases "x \<in> \<int>")
  case True
  then obtain i where "x = of_int i" by (auto elim: Ints_cases)
  then show ?thesis using round_half_even_of_int [of "- i"] by simp
next
  case False
  have f: "\<lfloor>- x\<rfloor> = - \<lfloor>x\<rfloor> - 1"
    using False by (simp add: floor_minus ceiling_altdef) (metis Ints_of_int)
  show ?thesis by (auto simp: round_half_even_def Let_def f algebra_simps)
qed

lemma round64_minus: "round64 (- q) = - round64 q"
  by (simp add: round64_def ulp_exp_def round_half_even_minus)

lemma round64_quotient_eq_0_iff:
  fixes z :: int and d :: int
  assumes "0 < d" "d \<le> 2 ^ 64"
  shows "round64 (of_int z / of_int d) = 0 \<longleftrightarrow> z = 0"
proof -
  have "round64 (of_int z / of_int d) \<noteq> 0" if "z \<noteq> 0"
  proof (cases "0 < z")
    case True
    then show ?thesis using round64_quotient_pos [OF _ assms, of z] by simp
  next
    case False
    then have "0 < - z" using that by simp
    then have "0 < round64 (- (of_int z / of_int d))"
      using round64_quotient_pos [OF _ assms, of "- z"] by simp
    then show ?thesis by (simp only: round64_minus)
  qed
  then show ?thesis by auto
qed

section \<open>The type\<close>

datatype f64 = Fin rat | PInf | NInf | NaN

definition mk_f64 :: "rat \<Rightarrow> f64" where
  "mk_f64 q = (let r = round64 q in
     if 2 ^ 1024 \<le> r then PInf else if r \<le> - (2 ^ 1024) then NInf else Fin r)"

text \<open>\<open>float64(z)\<close>, \<open>x / c\<close> for a positive finite constant, and \<open>-x\<close>.\<close>

definition f64_of_int :: "int \<Rightarrow> f64" where
  "f64_of_int z = mk_f64 (of_int z)"

fun f64_div_const :: "f64 \<Rightarrow> rat \<Rightarrow> f64" where
  "f64_div_const (Fin q) c = mk_f64 (q / c)"
| "f64_div_const x c = x"

fun f64_neg :: "f64 \<Rightarrow> f64" where
  "f64_neg (Fin q) = Fin (- q)"
| "f64_neg PInf = NInf"
| "f64_neg NInf = PInf"
| "f64_neg NaN = NaN"

definition f64_is_zero :: "f64 \<Rightarrow> bool" where
  "f64_is_zero x \<longleftrightarrow> x = Fin 0"

lemma mk_f64_quotient:
  fixes z :: int and d :: int
  assumes "0 < d" "d \<le> 2 ^ 64" "\<bar>z\<bar> \<le> 2 ^ 64"
  shows "mk_f64 (of_int z / of_int d) = Fin (round64 (of_int z / of_int d))"
proof -
  let ?q = "of_int z / of_int d :: rat"
  have d: "(1 :: rat) \<le> of_int d" using assms(1) by simp
  have "\<bar>of_int z :: rat\<bar> \<le> 2 ^ 64"
    using assms(3) by (metis of_int_abs of_int_le_iff of_int_numeral of_int_power)
  then have q: "\<bar>?q\<bar> \<le> 2 ^ 64"
    using d by (simp add: abs_divide divide_le_eq)
  have "\<bar>round64 ?q - ?q\<bar> \<le> \<bar>?q\<bar> / 2 ^ 53"
    using assms(1,2) by (rule round64_quotient_error)
  moreover have "\<bar>?q\<bar> / 2 ^ 53 \<le> \<bar>?q\<bar>"
  proof -
    have "x / 2 ^ 53 \<le> x" if "0 \<le> x" for x :: rat using that by (simp add: field_simps)
    from this [OF abs_ge_zero] show ?thesis .
  qed
  ultimately have "\<bar>round64 ?q\<bar> \<le> 2 * \<bar>?q\<bar>" by linarith
  with q have "\<bar>round64 ?q\<bar> \<le> 2 * 2 ^ 64" by linarith
  moreover have "(2 * 2 ^ 64 :: rat) < 2 ^ 1024" by simp
  ultimately have "\<bar>round64 ?q\<bar> < 2 ^ 1024" by (rule le_less_trans)
  then show ?thesis by (simp add: mk_f64_def Let_def abs_less_iff)
qed

text \<open>No overflow far below the largest finite value.\<close>

lemma mk_f64_finite:
  assumes "\<bar>q\<bar> \<le> 2 ^ 64"
  shows "mk_f64 q = Fin (round64 q)"
proof -
  have "\<bar>round64 q - q\<bar> \<le> 2 ^ 64 / 2 ^ 53" by (rule round64_near [OF assms]) simp
  then have "\<bar>round64 q\<bar> \<le> 2 ^ 65" using assms by simp
  moreover have "(2 ^ 65 :: rat) < 2 ^ 1024" by simp
  ultimately have "\<bar>round64 q\<bar> < 2 ^ 1024" by (rule le_less_trans)
  then show ?thesis by (simp add: mk_f64_def Let_def abs_less_iff)
qed

lemma f64_of_int_small:
  assumes "\<bar>z\<bar> < 2 ^ 53"
  shows "f64_of_int z = Fin (of_int z)"
proof -
  have "mk_f64 (of_int z / of_int 1) = Fin (round64 (of_int z / of_int 1))"
    by (rule mk_f64_quotient) (use assms in auto)
  then show ?thesis using round64_of_int [OF assms] by (simp add: f64_of_int_def)
qed

text \<open>\<open>float64(z) / d\<close>, the shape of every coordinate conversion.\<close>

lemma f64_quotient:
  assumes "\<bar>z\<bar> < 2 ^ 53" "0 < d" "d \<le> 2 ^ 64"
  shows "f64_div_const (f64_of_int z) (of_int d) = Fin (round64 (of_int z / of_int d))"
proof -
  have "\<bar>z\<bar> \<le> 2 ^ 64" using assms(1) by simp
  then show ?thesis using assms by (simp add: f64_of_int_small mk_f64_quotient)
qed

end
