(* ===== verification/Protocol.thy ===== *)
theory Protocol
  imports Conn Go_Float
begin

text \<open>
  Package \<open>pkg/protocol\<close>: the record every parser produces, the interface every
  protocol handler satisfies, and the registry that detects a handler from the first
  bytes of a connection. The registry is also given as a locale: what a client of it
  relies on, independent of the slice and the map it is built from.
\<close>

section \<open>Parsed records and handlers\<close>

type_synonym iodata = "int \<rightharpoonup> int"

record ParsedRecord =
  DeviceID :: string
  Timestamp :: int
  Lat :: f64
  Lng :: f64
  Altitude :: int
  Speed :: u16
  Heading :: u16
  Satellites :: byte
  Valid :: bool
  Priority :: byte
  IOData :: iodata
  RawCodec :: byte

text \<open>
  The zero value of the struct with an empty IO map. A nil map is read like an empty
  one, and every parser makes its own.
\<close>

definition zero_record :: ParsedRecord where
  "zero_record = \<lparr>DeviceID = [], Timestamp = 0, Lat = Fin 0, Lng = Fin 0, Altitude = 0,
     Speed = 0, Heading = 0, Satellites = 0, Valid = False, Priority = 0,
     IOData = Map.empty, RawCodec = 0\<rparr>"

text \<open>
  \<open>ParsePacket\<close> returns records and the raw packet, or an error with the raw bytes kept
  for the dead-letter queue (a nil slice is the empty list).
\<close>

type_synonym parse_io = "(goerr \<times> bytes, ParsedRecord list \<times> bytes) io"

record handler =
  Name :: string
  Detect :: "bytes \<Rightarrow> bool"
  Authenticate :: "(goerr, string) io"
  ParsePacket :: parse_io
  BuildACK :: "bytes \<Rightarrow> (goerr, bytes) outcome"

section \<open>The registry\<close>

record registry =
  handlers :: "handler list"
  byName :: "string \<rightharpoonup> handler"

definition NewRegistry :: registry where
  "NewRegistry = \<lparr>handlers = [], byName = Map.empty\<rparr>"

definition Registry_Register :: "handler \<Rightarrow> registry \<Rightarrow> (goerr, unit) outcome \<times> registry" where
  "Registry_Register h r =
     (if byName r (Name h) \<noteq> None then (Err (Errorf ''protocol already registered''), r)
      else (Ok (), r\<lparr>handlers := handlers r @ [h], byName := (byName r)(Name h \<mapsto> h)\<rparr>))"

fun detect_loop :: "handler list \<Rightarrow> bytes \<Rightarrow> handler option" where
  "detect_loop [] header = None"
| "detect_loop (h # hs) header = (if Detect h header then Some h else detect_loop hs header)"

definition Registry_Detect :: "registry \<Rightarrow> bytes \<Rightarrow> handler option" where
  "Registry_Detect r header = detect_loop (handlers r) header"

definition Registry_Get :: "registry \<Rightarrow> string \<Rightarrow> handler option" where
  "Registry_Get r name = byName r name"

text \<open>The slice and the map agree: one handler per name, indexed by its own name.\<close>

definition registry_inv :: "registry \<Rightarrow> bool" where
  "registry_inv r \<longleftrightarrow> distinct (map Name (handlers r)) \<and>
     byName r = map_of (map (\<lambda>h. (Name h, h)) (handlers r))"

lemma detect_loop_find: "detect_loop hs header = find (\<lambda>h. Detect h header) hs"
  by (induction hs) auto

lemma registry_inv_new [simp]: "registry_inv NewRegistry"
  by (simp add: registry_inv_def NewRegistry_def)

lemma map_of_names_None: "map_of (map (\<lambda>h. (Name h, h)) hs) n = None \<longleftrightarrow> n \<notin> Name ` set hs"
  by (simp add: map_of_eq_None_iff image_image)

lemma map_of_names_append:
  "Name h \<notin> Name ` set hs \<Longrightarrow>
   map_of (map (\<lambda>h. (Name h, h)) (hs @ [h])) = (map_of (map (\<lambda>h. (Name h, h)) hs))(Name h \<mapsto> h)"
  by (induction hs) (auto simp: fun_upd_twist)

lemma registry_inv_register:
  assumes "registry_inv r"
  shows "registry_inv (snd (Registry_Register h r))"
proof (cases "byName r (Name h) = None")
  case True
  with assms have "Name h \<notin> Name ` set (handlers r)"
    by (simp add: registry_inv_def map_of_names_None)
  then show ?thesis
    using assms True map_of_names_append [of h "handlers r"]
    by (auto simp: registry_inv_def Registry_Register_def)
next
  case False
  with assms show ?thesis by (simp add: Registry_Register_def)
qed

text \<open>
  What a client of the registry relies on: handlers are kept in registration order
  under distinct names, detection returns the first that matches, lookup finds every
  registered handler.
\<close>

locale handler_registry =
  fixes reg_inv :: "'r \<Rightarrow> bool"
    and entries :: "'r \<Rightarrow> handler list"
    and add :: "handler \<Rightarrow> 'r \<Rightarrow> (goerr, unit) outcome \<times> 'r"
    and detect :: "'r \<Rightarrow> bytes \<Rightarrow> handler option"
    and get :: "'r \<Rightarrow> string \<Rightarrow> handler option"
  assumes inv_add: "reg_inv r \<Longrightarrow> reg_inv (snd (add h r))"
    and distinct_names: "reg_inv r \<Longrightarrow> distinct (map Name (entries r))"
    and add_entries: "reg_inv r \<Longrightarrow> entries (snd (add h r)) =
           (if Name h \<in> Name ` set (entries r) then entries r else entries r @ [h])"
    and add_ok: "reg_inv r \<Longrightarrow> fst (add h r) = Ok () \<longleftrightarrow> Name h \<notin> Name ` set (entries r)"
    and detect_first: "reg_inv r \<Longrightarrow> detect r header = find (\<lambda>h. Detect h header) (entries r)"
    and get_entry: "reg_inv r \<Longrightarrow> get r name = Some h \<longleftrightarrow> h \<in> set (entries r) \<and> Name h = name"
begin

text \<open>Adding a handler never changes what is detected for a header already claimed.\<close>

lemma detect_stable:
  assumes "reg_inv r" "detect r header = Some h"
  shows "detect (snd (add g r)) header = Some h"
  using assms by (simp add: inv_add detect_first add_entries find_append)

lemma get_after_add:
  assumes "reg_inv r" "fst (add h r) = Ok ()"
  shows "get (snd (add h r)) (Name h) = Some h"
  using assms by (simp add: inv_add get_entry add_entries add_ok)

lemma get_other:
  assumes "reg_inv r" "n \<noteq> Name h"
  shows "get (snd (add h r)) n = get r n"
proof (cases "get r n")
  case None
  then have "\<And>g. \<not> (g \<in> set (entries r) \<and> Name g = n)"
    using assms(1) by (metis get_entry option.distinct(1))
  moreover have "\<And>g. get (snd (add h r)) n = Some g \<longleftrightarrow>
      g \<in> set (entries (snd (add h r))) \<and> Name g = n"
    using assms(1) by (simp add: inv_add get_entry)
  ultimately have "get (snd (add h r)) n \<noteq> Some g" for g
    using assms by (auto simp: add_entries split: if_splits)
  then show ?thesis using None by (metis not_None_eq)
next
  case (Some g)
  then have "g \<in> set (entries r)" "Name g = n" using assms(1) by (simp_all add: get_entry)
  then have "get (snd (add h r)) n = Some g"
    using assms(1) by (simp add: inv_add get_entry add_entries)
  then show ?thesis using Some by simp
qed

text \<open>A detected handler is registered, matches, and nothing before it does.\<close>

lemma detect_registered:
  assumes "reg_inv r" "detect r header = Some h"
  shows "Detect h header \<and> get r (Name h) = Some h"
  using assms by (auto simp: detect_first get_entry find_Some_iff)

end

interpretation reg: handler_registry registry_inv handlers Registry_Register Registry_Detect Registry_Get
proof unfold_locales
  fix r h header name
  assume inv: "registry_inv r"
  then show "registry_inv (snd (Registry_Register h r))" by (rule registry_inv_register)
  from inv show "distinct (map Name (handlers r))" by (simp add: registry_inv_def)
  have known: "byName r (Name h) \<noteq> None \<longleftrightarrow> Name h \<in> Name ` set (handlers r)" for h
    using inv by (simp add: registry_inv_def map_of_names_None)
  show "handlers (snd (Registry_Register h r)) =
      (if Name h \<in> Name ` set (handlers r) then handlers r else handlers r @ [h])"
    using known [of h] by (auto simp: Registry_Register_def)
  show "fst (Registry_Register h r) = Ok () \<longleftrightarrow> Name h \<notin> Name ` set (handlers r)"
    using known [of h] by (auto simp: Registry_Register_def)
  show "Registry_Detect r header = find (\<lambda>h. Detect h header) (handlers r)"
    by (simp add: Registry_Detect_def detect_loop_find)
  show "Registry_Get r name = Some h \<longleftrightarrow> h \<in> set (handlers r) \<and> Name h = name"
  proof -
    have "distinct (map fst (map (\<lambda>h. (Name h, h)) (handlers r)))"
      using inv by (simp add: registry_inv_def comp_def)
    then have "map_of (map (\<lambda>h. (Name h, h)) (handlers r)) name = Some h \<longleftrightarrow>
        (name, h) \<in> set (map (\<lambda>h. (Name h, h)) (handlers r))"
      by (rule map_of_eq_Some_iff)
    then show ?thesis using inv by (auto simp: Registry_Get_def registry_inv_def)
  qed
qed

end
