(* ===== verification/Crc.thy ===== *)
theory Crc
  imports Prelude
begin

text \<open>
  What a 16-bit cyclic checksum promises to the protocol that uses it. Both checksums of
  the program (CRC-16/IBM of Teltonika, CRC-16/CCITT of GT06) fold a per-byte step over
  the data: the byte is loaded into the register and eight bit steps follow. The locale
  assumes only that the bit step and the load are linear and injective and that eight bit
  steps move a loaded byte out of the load position; the error-detection lemmas are
  proved once from that and hold for each checksum by interpretation.
\<close>

locale crc16 =
  fixes bit_step :: "u16 \<Rightarrow> u16"
    and load :: "byte \<Rightarrow> u16"
  assumes bit_step_xor: "bit_step (x XOR y) = bit_step x XOR bit_step y"
    and bit_step_0_imp: "bit_step x = 0 \<Longrightarrow> x = 0"
    and load_xor: "load (a XOR b) = load a XOR load b"
    and load_0_imp: "load a = 0 \<Longrightarrow> a = 0"
    and load_moves: "(bit_step ^^ 8) (load a) = load b \<Longrightarrow> a = 0"
begin

definition step :: "u16 \<Rightarrow> byte \<Rightarrow> u16" where
  "step crc b = (bit_step ^^ 8) (crc XOR load b)"

definition run :: "u16 \<Rightarrow> bytes \<Rightarrow> u16" where
  "run crc data = foldl step crc data"

lemma bits_xor: "(bit_step ^^ n) (x XOR y) = (bit_step ^^ n) x XOR (bit_step ^^ n) y"
  by (induction n) (auto simp: bit_step_xor)

lemma bits_0_imp: "(bit_step ^^ n) x = 0 \<Longrightarrow> x = 0"
  by (induction n) (auto dest: bit_step_0_imp)

lemma bits_inj: "(bit_step ^^ n) x = (bit_step ^^ n) y \<Longrightarrow> x = y"
proof -
  assume "(bit_step ^^ n) x = (bit_step ^^ n) y"
  then have "(bit_step ^^ n) (x XOR y) = 0" by (simp add: bits_xor)
  then have "x XOR y = 0" by (rule bits_0_imp)
  then show ?thesis by (simp add: xor_eq_0_iff)
qed

lemma step_inj_state: "step x b = step y b \<Longrightarrow> x = y"
  unfolding step_def by (drule bits_inj) (simp add: xor_right_cancel)

lemma run_append: "run crc (xs @ ys) = run (run crc xs) ys"
  by (simp add: run_def)

lemma run_inj_state: "run x ds = run y ds \<Longrightarrow> x = y"
  by (induction ds arbitrary: x y) (auto simp: run_def dest: step_inj_state)

text \<open>The checksum is linear: the difference of two checksums only depends on the difference.\<close>

lemma run_xor:
  "length xs = length ys \<Longrightarrow>
   run (x XOR y) (map2 (XOR) xs ys) = run x xs XOR run y ys"
proof (induction xs ys arbitrary: x y rule: list_induct2)
  case Nil
  then show ?case by (simp add: run_def)
next
  case (Cons a xs b ys)
  have "step (x XOR y) (a XOR b) = step x a XOR step y b"
  proof -
    have "(x XOR y) XOR (load a XOR load b) = (x XOR load a) XOR (y XOR load b)"
      by (simp add: ac_simps)
    then show ?thesis by (simp add: step_def load_xor bits_xor)
  qed
  then show ?case using Cons.IH [of "step x a" "step y b"] by (simp add: run_def)
qed

text \<open>Replacing two adjacent bytes always changes the checksum.\<close>

lemma detects_two_bytes:
  assumes "run crc (xs @ [a, b] @ ys) = run crc (xs @ [c, d] @ ys)"
  shows "a = c \<and> b = d"
proof -
  let ?s = "run crc xs"
  have "step (step ?s a) b = step (step ?s c) d"
    using run_inj_state [of "step (step ?s a) b" ys "step (step ?s c) d"] assms
    by (simp add: run_append run_def)
  then have "step ?s a XOR load b = step ?s c XOR load d"
    unfolding step_def [of "step ?s a"] step_def [of "step ?s c"] by (rule bits_inj)
  then have "step ?s a XOR step ?s c = load b XOR load d"
    by (simp add: xor_swap_sides)
  moreover have "step ?s a XOR step ?s c = (bit_step ^^ 8) (load (a XOR c))"
  proof -
    have "(?s XOR load a) XOR (?s XOR load c) = load (a XOR c)"
      by (simp add: load_xor xor_cancel_common)
    then show ?thesis by (simp add: step_def flip: bits_xor)
  qed
  ultimately have eq: "(bit_step ^^ 8) (load (a XOR c)) = load (b XOR d)"
    by (simp add: load_xor)
  then have ac: "a XOR c = 0" by (rule load_moves)
  have "load 0 = 0" using load_xor [of 0 0] by simp
  then have "(bit_step ^^ 8) (load (a XOR c)) = 0"
    using bits_xor [of 8 0 0] ac by simp
  with eq have "b XOR d = 0" by (metis load_0_imp)
  with ac show ?thesis by (simp add: xor_eq_0_iff)
qed

text \<open>A single substituted byte is a special case.\<close>

lemma detects_one_byte:
  assumes "run crc (xs @ [a] @ ys) = run crc (xs @ [c] @ ys)"
  shows "a = c"
proof (cases ys)
  case Nil
  then have "step (run crc xs) a = step (run crc xs) c"
    using assms by (simp add: run_append run_def)
  then have "(bit_step ^^ 8) (run crc xs XOR load a) = (bit_step ^^ 8) (run crc xs XOR load c)"
    by (simp add: step_def)
  then have "run crc xs XOR load a = run crc xs XOR load c" by (rule bits_inj)
  then have "load (a XOR c) = 0"
    by (simp add: load_xor xor_left_cancel)
  then have "a XOR c = 0" by (rule load_0_imp)
  then show ?thesis by (simp add: xor_eq_0_iff)
next
  case (Cons b zs)
  then show ?thesis using assms detects_two_bytes [of crc xs a b zs c b] by simp
qed

end

text \<open>
  Both bit steps are a shift with a conditional XOR of the polynomial. What they have in
  common on the bit level is collected here for the two interpretations.
\<close>

lemma and_1_iff_bit: "(x :: u16) AND 1 \<noteq> 0 \<longleftrightarrow> bit x 0"
  by (simp add: and_one_eq bit_0 odd_iff_mod_2_eq_one)

lemma u16_zeroI: "(\<And>n. n < 16 \<Longrightarrow> \<not> bit (x :: u16) n) \<Longrightarrow> x = 0"
  by (rule bit_word_eqI) simp

lemma bit_byte_iff: "bit (a :: byte) n \<longleftrightarrow> n < 8 \<and> bit (ucast a :: u16) n"
  by (auto simp: bit_ucast_iff dest: bit_imp_le_length)

lemma ucast_byte_0: "(ucast (a :: byte) :: u16) = 0 \<Longrightarrow> a = 0"
  by (rule bit_word_eqI) (simp add: bit_byte_iff [of a])

end
