(* ===== verification/Teltonika.thy ===== *)
theory Teltonika
  imports Protocol Crc
begin

text \<open>
  The Teltonika AVL handler (\<open>protocols/teltonika\<close>): the CRC-16/IBM checksum, the IMEI
  handshake, the record parser of Codec 8, 8E and 16, the packet reader and the
  acknowledgement. Offsets are natural numbers and every read goes through the checked
  accessors, so a read past the end of the payload is a \<open>Panic\<close> of the model.
\<close>

section \<open>CRC-16/IBM\<close>

definition ibm_bit :: "u16 \<Rightarrow> u16" where
  "ibm_bit crc = (if crc AND 0x0001 \<noteq> 0 then drop_bit 1 crc XOR 0xA001 else drop_bit 1 crc)"

definition CRC16IBM :: "bytes \<Rightarrow> u16" where
  "CRC16IBM data = foldl (\<lambda>crc b. (ibm_bit ^^ 8) (crc XOR ucast b)) 0x0000 data"

section \<open>Detection and handshake\<close>

definition Codec8 :: byte where "Codec8 = 0x08"
definition Codec8E :: byte where "Codec8E = 0x8E"
definition Codec16 :: byte where "Codec16 = 0x10"

text \<open>Both header bytes are present when the length test passes, so no read can fail.\<close>

definition teltonika_Detect :: "bytes \<Rightarrow> bool" where
  "teltonika_Detect header =
     (if length header < 2 then False
      else let imeiLen = be_nat (take 2 header) in 15 \<le> imeiLen \<and> imeiLen \<le> 17)"

definition is_digit :: "char \<Rightarrow> bool" where
  "is_digit ch \<longleftrightarrow> 48 \<le> (of_char ch :: nat) \<and> (of_char ch :: nat) \<le> 57"

text \<open>
  The Go loop ranges over runes: a byte below 0x80 is its own rune and any other byte
  yields a rune of at least 0x80, so the digit test agrees with the bytewise one.
\<close>

definition teltonika_Authenticate :: "(goerr, string) io" where
  "teltonika_Authenticate =
     bind_io (wrap_io (Wrapf ''teltonika: read imei length'') (read_uint 2)) (\<lambda>imeiLen.
       if imeiLen < 15 \<or> 17 < imeiLen then lift_io (Err (Errorf ''teltonika: invalid imei length''))
       else bind_io (wrap_io (Wrapf ''teltonika: read imei'') (ReadFull imeiLen)) (\<lambda>imeiBytes.
         let imei = string_of imeiBytes in
         if \<not> list_all is_digit imei then lift_io (Err (ErrorfQ ''teltonika: invalid imei chars'' imei))
         else bind_io (wrap_io (Wrapf ''teltonika: send ack'') (Write [0x01])) (\<lambda>_. ret_io imei)))"

section \<open>AVL records\<close>

text \<open>The closure \<open>need\<close> of \<open>parseAVLRecord8\<close>, with the context its caller wraps around it.\<close>

definition need :: "string \<Rightarrow> bytes \<Rightarrow> nat \<Rightarrow> nat \<Rightarrow> (goerr, unit) outcome" where
  "need what data offset n =
     (if length data < offset + n then Err (Wrapf what (Errorf ''need bytes'')) else Ok ())"

text \<open>An IO id or count: two bytes when extended, one otherwise. Returns the new offset.\<close>

definition read_num :: "string \<Rightarrow> bytes \<Rightarrow> nat \<Rightarrow> bool \<Rightarrow> (goerr, nat \<times> nat) outcome" where
  "read_num what data offset extended =
     (let w = (if extended then 2 else 1) in
      bind_o (need what data offset w) (\<lambda>_.
      bind_o (uint_at w data offset) (\<lambda>v. Ok (v, offset + w))))"

definition io_value :: "nat \<Rightarrow> nat \<Rightarrow> int" where
  "io_value valueBytes v = (if valueBytes = 8 then sint (word_of_nat v :: u64) else int v)"

fun io_elems :: "bytes \<Rightarrow> bool \<Rightarrow> nat \<Rightarrow> nat \<Rightarrow> nat \<Rightarrow> iodata \<Rightarrow> (goerr, nat \<times> iodata) outcome" where
  "io_elems data extended valueBytes 0 offset io = Ok (offset, io)"
| "io_elems data extended valueBytes (Suc n) offset io =
     bind_o (read_num ''io id'' data offset extended) (\<lambda>(ioID, offset).
     bind_o (need ''io value'' data offset valueBytes) (\<lambda>_.
     bind_o (uint_at valueBytes data offset) (\<lambda>v.
       io_elems data extended valueBytes n (offset + valueBytes) (io(int ioID \<mapsto> io_value valueBytes v)))))"

fun io_groups :: "bytes \<Rightarrow> bool \<Rightarrow> nat list \<Rightarrow> nat \<Rightarrow> iodata \<Rightarrow> (goerr, nat \<times> iodata) outcome" where
  "io_groups data extended [] offset io = Ok (offset, io)"
| "io_groups data extended (valueBytes # vbs) offset io =
     bind_o (read_num ''io count'' data offset extended) (\<lambda>(count, offset).
     bind_o (io_elems data extended valueBytes count offset io) (\<lambda>(offset, io).
       io_groups data extended vbs offset io))"

text \<open>The first eight bytes of a variable-width value, shifted into an \<open>int64\<close>.\<close>

definition x_value :: "bytes \<Rightarrow> int" where
  "x_value bs = sint (foldl (\<lambda>val b. push_bit 8 val OR ucast b) (0 :: u64) (take 8 bs))"

fun x_elems :: "bytes \<Rightarrow> nat \<Rightarrow> nat \<Rightarrow> iodata \<Rightarrow> (goerr, nat \<times> iodata) outcome" where
  "x_elems data 0 offset io = Ok (offset, io)"
| "x_elems data (Suc n) offset io =
     bind_o (need ''8E xbyte element header'' data offset 4) (\<lambda>_.
     bind_o (uint_at 2 data offset) (\<lambda>ioID.
     bind_o (uint_at 2 data (offset + 2)) (\<lambda>xLen.
     bind_o (need ''8E xbyte value'' data (offset + 4) xLen) (\<lambda>_.
     bind_o (slice data (offset + 4) (offset + 4 + xLen)) (\<lambda>bs.
       x_elems data n (offset + 4 + xLen) (io(int ioID \<mapsto> x_value bs)))))))"

definition coord :: "nat \<Rightarrow> f64" where
  "coord raw = f64_div_const (f64_of_int (sint (word_of_nat raw :: u32))) 10000000"

text \<open>The GPS element: 15 bytes, after its length test.\<close>

definition gps_element :: "bytes \<Rightarrow> nat \<Rightarrow> ParsedRecord \<Rightarrow> (goerr, ParsedRecord) outcome" where
  "gps_element data offset rec =
     bind_o (need ''gps element'' data offset 15) (\<lambda>_.
     bind_o (uint_at 4 data offset) (\<lambda>lngRaw.
     bind_o (uint_at 4 data (offset + 4)) (\<lambda>latRaw.
     bind_o (uint_at 2 data (offset + 8)) (\<lambda>altitude.
     bind_o (uint_at 2 data (offset + 10)) (\<lambda>heading.
     bind_o (idx data (offset + 12)) (\<lambda>satellites.
     bind_o (uint_at 2 data (offset + 13)) (\<lambda>speed.
       Ok (rec\<lparr>Lng := coord lngRaw, Lat := coord latRaw, Altitude := int altitude,
              Heading := word_of_nat heading, Satellites := satellites,
              Speed := word_of_nat speed,
              Valid := 0 < satellites \<and> (\<not> f64_is_zero (coord latRaw) \<or> \<not> f64_is_zero (coord lngRaw))\<rparr>))))))))"

text \<open>The IO header is skipped; the groups of 1, 2, 4 and 8 byte values follow, then for
  Codec 8E the variable-width group.\<close>

definition io_element :: "bytes \<Rightarrow> nat \<Rightarrow> bool \<Rightarrow> (goerr, nat \<times> iodata) outcome" where
  "io_element data offset extended =
     (let hdr = (if extended then 4 else 2) in
      bind_o (need ''io header'' data offset hdr) (\<lambda>_.
      bind_o (io_groups data extended [1, 2, 4, 8] (offset + hdr) Map.empty) (\<lambda>(offset, io).
      if extended then
        bind_o (read_num ''8E xbyte count'' data offset True) (\<lambda>(xCount, offset).
          x_elems data xCount offset io)
      else Ok (offset, io))))"

definition parseAVLRecord8 :: "bytes \<Rightarrow> nat \<Rightarrow> bool \<Rightarrow> (goerr, ParsedRecord \<times> nat) outcome" where
  "parseAVLRecord8 data start extended =
     bind_o (need ''timestamp'' data start 8) (\<lambda>_.
     bind_o (uint_at 8 data start) (\<lambda>ts.
     bind_o (need ''priority'' data (start + 8) 1) (\<lambda>_.
     bind_o (idx data (start + 8)) (\<lambda>priority.
     bind_o (gps_element data (start + 9)
              (zero_record\<lparr>Timestamp := sint (word_of_nat ts :: u64), Priority := priority\<rparr>)) (\<lambda>rec.
     bind_o (io_element data (start + 24) extended) (\<lambda>(offset, io).
       Ok (rec\<lparr>IOData := io\<rparr>, offset - start)))))))"

section \<open>Packets\<close>

text \<open>
  The record loop of \<open>parseCodec8\<close>, \<open>parseCodec8E\<close> and \<open>parseCodec16\<close>: \<open>numRecords\<close>
  iterations from an offset. With \<open>gentime\<close> (Codec 16) each record follows a two-byte
  generation time, which is checked for and skipped.
\<close>

fun codec_loop :: "bytes \<Rightarrow> bool \<Rightarrow> bool \<Rightarrow> nat \<Rightarrow> nat \<Rightarrow> (goerr, ParsedRecord list) outcome" where
  "codec_loop data extended gentime 0 offset = Ok []"
| "codec_loop data extended gentime (Suc n) offset =
     (if gentime \<and> length data < offset + 2
      then Err (Errorf ''codec16 record: truncated generation time'')
      else let offset = (if gentime then offset + 2 else offset) in
           bind_o (map_err (Wrapf (if gentime then ''codec16 record'' else ''record''))
                     (parseAVLRecord8 data offset extended)) (\<lambda>(rec, used).
           bind_o (codec_loop data extended gentime n (offset + used)) (\<lambda>recs.
             Ok (rec # recs))))"

definition parseCodec8 :: "bytes \<Rightarrow> nat \<Rightarrow> (goerr, ParsedRecord list) outcome" where
  "parseCodec8 data numRecords = codec_loop data False False numRecords 0"

definition parseCodec8E :: "bytes \<Rightarrow> nat \<Rightarrow> (goerr, ParsedRecord list) outcome" where
  "parseCodec8E data numRecords = codec_loop data True False numRecords 0"

definition parseCodec16 :: "bytes \<Rightarrow> nat \<Rightarrow> (goerr, ParsedRecord list) outcome" where
  "parseCodec16 data numRecords = codec_loop data False True numRecords 0"

text \<open>The codec switch of \<open>ParsePacket\<close> on a payload whose checksum was accepted.\<close>

definition decode_payload :: "bytes \<Rightarrow> (goerr, ParsedRecord list) outcome" where
  "decode_payload payload =
     (if length payload < 2 then Err (Errorf ''teltonika: payload too short'')
      else bind_o (idx payload 0) (\<lambda>codecID.
           bind_o (idx payload 1) (\<lambda>n.
           bind_o (if codecID = Codec8 then map_err (Wrapf ''teltonika codec parse'') (parseCodec8 (drop 2 payload) (unat n))
                   else if codecID = Codec8E then map_err (Wrapf ''teltonika codec parse'') (parseCodec8E (drop 2 payload) (unat n))
                   else if codecID = Codec16 then map_err (Wrapf ''teltonika codec parse'') (parseCodec16 (drop 2 payload) (unat n))
                   else Err (Errorf ''teltonika: unsupported codec'')) (\<lambda>records.
             Ok (map (\<lambda>r. r\<lparr>RawCodec := codecID\<rparr>) records)))))"

definition teltonika_ParsePacket :: parse_io where
  "teltonika_ParsePacket =
     bind_io (wrap_io (\<lambda>e. (Wrapf ''teltonika: read preamble'' e, [])) (read_uint 4)) (\<lambda>pre.
     if pre \<noteq> 0 then lift_io (Err (Errorf ''teltonika: bad preamble'', []))
     else bind_io (wrap_io (\<lambda>e. (Wrapf ''teltonika: read data length'' e, [])) (read_uint 4)) (\<lambda>dataLen.
     if 65536 < dataLen then lift_io (Err (Errorf ''teltonika: suspicious data length'', []))
     else bind_io (wrap_io (\<lambda>e. (Wrapf ''teltonika: read payload'' e, [])) (ReadFull dataLen)) (\<lambda>payload.
     bind_io (wrap_io (\<lambda>e. (Wrapf ''teltonika: read crc'' e, [])) (read_uint 4)) (\<lambda>crcRaw.
     let expectedCRC = (ucast ((word_of_nat crcRaw :: u32) AND 0xFFFF) :: u16) in
     if expectedCRC \<noteq> CRC16IBM payload then lift_io (Err (Errorf ''teltonika: CRC mismatch'', payload))
     else let rawPacket = put_be 4 0 @ put_be 4 dataLen @ payload @ put_be 4 crcRaw in
       bind_io (lift_io (map_err (\<lambda>e. (e, rawPacket)) (decode_payload payload))) (\<lambda>records.
         ret_io (records, rawPacket))))))"

text \<open>The count is taken from \<open>packet[9]\<close> under the test \<open>len(packet) >= 9\<close>.\<close>

definition teltonika_BuildACK :: "bytes \<Rightarrow> (goerr, bytes) outcome" where
  "teltonika_BuildACK packet =
     bind_o (if 9 \<le> length packet then bind_o (idx packet 9) (\<lambda>b. Ok (unat b)) else Ok 0) (\<lambda>count.
       Ok (put_be 4 count))"

definition teltonika_handler :: handler where
  "teltonika_handler = \<lparr>Name = ''teltonika'', Detect = teltonika_Detect,
     Authenticate = teltonika_Authenticate, ParsePacket = teltonika_ParsePacket,
     BuildACK = teltonika_BuildACK\<rparr>"

section \<open>The checksum\<close>

lemma bit_A001: "bit (0xA001 :: u16) n \<longleftrightarrow> n \<in> {0, 13, 15}"
proof (cases "n < 16")
  case True
  have "list_all (\<lambda>n. bit (0xA001 :: u16) n \<longleftrightarrow> n \<in> {0, 13, 15}) [0..<16]" by code_simp
  with True show ?thesis by (simp add: list_all_iff)
next
  case False
  then show ?thesis by auto
qed

lemma bit_ibm_bit:
  "bit (ibm_bit x) n \<longleftrightarrow> n < 16 \<and> (bit x (Suc n) \<noteq> (bit x 0 \<and> n \<in> {0, 13, 15}))"
proof -
  have "bit x (Suc n) \<Longrightarrow> n < 16" using bit_imp_le_length [of x "Suc n"] by simp
  moreover have "n \<in> {0, 13, 15} \<Longrightarrow> n < 16" by auto
  ultimately show ?thesis
    by (auto simp only: ibm_bit_def and_1_iff_bit bit_xor_iff bit_A001 bit_drop_bit_eq comp_def
        plus_1_eq_Suc split: if_splits)
qed

lemma ibm_bit_xor: "ibm_bit (x XOR y) = ibm_bit x XOR ibm_bit y"
  by (rule bit_word_eqI) (auto simp: bit_ibm_bit bit_xor_iff)

text \<open>A step whose result has a clear top bit was a plain shift.\<close>

lemma ibm_bit_shift:
  assumes "\<not> bit (ibm_bit z) 15"
  shows "bit z n \<longleftrightarrow> 1 \<le> n \<and> bit (ibm_bit z) (n - 1)"
proof -
  have z0: "\<not> bit z 0"
    using assms bit_imp_le_length [of z 16] by (auto simp: bit_ibm_bit)
  show ?thesis
  proof (cases n)
    case (Suc m)
    then show ?thesis using z0 bit_imp_le_length [of z n] by (auto simp: bit_ibm_bit)
  qed (use z0 in simp)
qed

lemma ibm_bits_shift:
  "k \<le> 8 \<Longrightarrow> (\<And>n. 16 - k \<le> n \<Longrightarrow> \<not> bit ((ibm_bit ^^ k) z) n) \<Longrightarrow>
   bit z n \<longleftrightarrow> k \<le> n \<and> bit ((ibm_bit ^^ k) z) (n - k)"
proof (induction k arbitrary: n)
  case 0
  then show ?case by simp
next
  case (Suc k)
  let ?w = "(ibm_bit ^^ k) z"
  have "\<not> bit (ibm_bit ?w) 15" using Suc.prems(2) [of 15] by simp
  note w = ibm_bit_shift [OF this]
  have "\<not> bit ?w m" if "16 - k \<le> m" for m
    using w [of m] Suc.prems(2) [of "m - 1"] that by auto
  then have "bit z n \<longleftrightarrow> k \<le> n \<and> bit ?w (n - k)"
    using Suc.prems(1) by (intro Suc.IH) auto
  then show ?case using w [of "n - k"] by (auto simp: Suc_diff_le)
qed

lemma ibm_load_moves:
  assumes "(ibm_bit ^^ 8) (ucast (a :: byte)) = ucast (b :: byte)"
  shows "a = 0"
proof -
  have "\<not> bit (ucast b :: u16) n" if "8 \<le> n" for n
    using that by (auto simp: bit_ucast_iff dest: bit_imp_le_length)
  then have eq: "bit (ucast a :: u16) n \<longleftrightarrow> 8 \<le> n \<and> bit (ucast b :: u16) (n - 8)" for n
    using ibm_bits_shift [of 8 "ucast a" n] assms by simp
  show ?thesis
    by (rule bit_word_eqI) (simp add: bit_byte_iff [of a] eq)
qed

interpretation ibm: crc16 ibm_bit "ucast :: byte \<Rightarrow> u16"
proof unfold_locales
  fix x y :: u16 and a b :: byte
  show "ibm_bit (x XOR y) = ibm_bit x XOR ibm_bit y" by (rule ibm_bit_xor)
  show "x = 0" if "ibm_bit x = 0"
    using ibm_bit_shift [of x] that by (intro u16_zeroI) simp
  show "(ucast (a XOR b) :: u16) = ucast a XOR ucast b"
    by (rule bit_word_eqI) (simp add: bit_ucast_iff bit_xor_iff)
  show "a = 0" if "(ucast a :: u16) = 0"
    using that by (rule ucast_byte_0)
  show "a = 0" if "(ibm_bit ^^ 8) (ucast a) = ucast b"
    using that by (rule ibm_load_moves)
qed

lemma CRC16IBM_run: "CRC16IBM data = ibm.run 0 data"
  unfolding CRC16IBM_def ibm.run_def by (rule arg_cong [where f = "\<lambda>f. foldl f 0 data"]) (simp add: ibm.step_def fun_eq_iff)

section \<open>No read past the payload\<close>

lemma need_Ok_iff [simp]: "need what data offset n = Ok u \<longleftrightarrow> offset + n \<le> length data"
  by (auto simp: need_def)

lemma need_not_Panic [simp]: "need what data offset n \<noteq> Panic"
  by (simp add: need_def)

lemma read_num_not_Panic [simp]: "read_num what data offset e \<noteq> Panic"
  by (auto simp: read_num_def Let_def bind_o_Panic_iff)

lemma read_num_Ok:
  assumes "read_num what data offset e = Ok (v, offset')"
  shows "offset' = offset + (if e then 2 else 1) \<and> offset' \<le> length data"
  using assms by (auto simp: read_num_def Let_def split: if_splits)

lemma io_elems_not_Panic [simp]: "io_elems data e vb n offset io \<noteq> Panic"
  by (induction n arbitrary: offset io) (auto simp: bind_o_Panic_iff)

lemma io_elems_Ok:
  assumes "io_elems data e vb n offset io = Ok (offset', io')" "offset \<le> length data"
  shows "offset' = offset + n * ((if e then 2 else 1) + vb) \<and> offset' \<le> length data"
  using assms
proof (induction n arbitrary: offset io)
  case 0
  then show ?case by simp
next
  case (Suc n)
  from Suc.prems(1) obtain i o1 v where
    r: "read_num ''io id'' data offset e = Ok (i, o1)" and
    fits: "o1 + vb \<le> length data" and
    rest: "io_elems data e vb n (o1 + vb) (io(int i \<mapsto> io_value vb v)) = Ok (offset', io')"
    by auto
  from read_num_Ok [OF r] Suc.IH [OF rest fits] show ?case by (auto simp: algebra_simps)
qed

lemma io_groups_not_Panic [simp]: "io_groups data e vbs offset io \<noteq> Panic"
  by (induction vbs arbitrary: offset io) (auto simp: bind_o_Panic_iff)

lemma io_groups_Ok:
  assumes "io_groups data e vbs offset io = Ok (offset', io')" "offset \<le> length data"
  shows "offset + length vbs * (if e then 2 else 1) \<le> offset' \<and> offset' \<le> length data"
  using assms
proof (induction vbs arbitrary: offset io)
  case Nil
  then show ?case by simp
next
  case (Cons vb vbs)
  from Cons.prems(1) obtain n o1 o2 io2 where
    r: "read_num ''io count'' data offset e = Ok (n, o1)" and
    el: "io_elems data e vb n o1 io = Ok (o2, io2)" and
    rest: "io_groups data e vbs o2 io2 = Ok (offset', io')"
    by auto
  from read_num_Ok [OF r] have o1: "o1 = offset + (if e then 2 else 1)" "o1 \<le> length data" by auto
  from io_elems_Ok [OF el o1(2)] have "o1 \<le> o2" "o2 \<le> length data" by auto
  with Cons.IH [OF rest] o1(1) show ?case by auto
qed

lemma x_elems_not_Panic [simp]: "x_elems data n offset io \<noteq> Panic"
  by (induction n arbitrary: offset io) (auto simp: bind_o_Panic_iff slice_Panic_iff)

lemma x_elems_Ok:
  "x_elems data n offset io = Ok (offset', io') \<Longrightarrow> offset \<le> length data \<Longrightarrow>
   offset \<le> offset' \<and> offset' \<le> length data"
proof (induction n arbitrary: offset io)
  case 0
  then show ?case by simp
next
  case (Suc n)
  from Suc.prems(1) obtain i l v where
    fits: "offset + 4 + l \<le> length data" and
    rest: "x_elems data n (offset + 4 + l) (io(int i \<mapsto> v)) = Ok (offset', io')"
    by auto
  from Suc.IH [OF rest fits] show ?case by simp
qed

lemma gps_element_not_Panic [simp]: "gps_element data offset rec \<noteq> Panic"
  by (auto simp: gps_element_def bind_o_Panic_iff)

lemma io_element_not_Panic [simp]: "io_element data offset e \<noteq> Panic"
  by (auto simp: io_element_def Let_def bind_o_Panic_iff)

lemma io_element_Ok:
  assumes "io_element data offset e = Ok (offset', io)"
  shows "offset + (if e then 14 else 6) \<le> offset' \<and> offset' \<le> length data"
proof -
  let ?hdr = "if e then 4 else 2 :: nat"
  from assms obtain o1 io1 where
    hdr: "offset + ?hdr \<le> length data" and
    g: "io_groups data e [1, 2, 4, 8] (offset + ?hdr) Map.empty = Ok (o1, io1)" and
    x: "(if e then bind_o (read_num ''8E xbyte count'' data o1 True) (\<lambda>(n, o2). x_elems data n o2 io1)
         else Ok (o1, io1)) = Ok (offset', io)"
    by (auto simp: io_element_def Let_def)
  from io_groups_Ok [OF g hdr] have o1: "offset + ?hdr + 4 * (if e then 2 else 1) \<le> o1" "o1 \<le> length data"
    by auto
  show ?thesis
  proof (cases e)
    case True
    with x obtain n o2 where r: "read_num ''8E xbyte count'' data o1 True = Ok (n, o2)"
      and xe: "x_elems data n o2 io1 = Ok (offset', io)" by auto
    from read_num_Ok [OF r] have "o2 = o1 + 2" "o2 \<le> length data" by auto
    with x_elems_Ok [OF xe] o1 True show ?thesis by auto
  next
    case False
    with x o1 show ?thesis by auto
  qed
qed

lemma parseAVLRecord8_not_Panic [simp]: "parseAVLRecord8 data start e \<noteq> Panic"
  by (auto simp: parseAVLRecord8_def bind_o_Panic_iff)

lemma parseAVLRecord8_size:
  assumes "parseAVLRecord8 data start e = Ok (rec, n)"
  shows "(if e then 38 else 30) \<le> n \<and> start + n \<le> length data"
proof -
  from assms obtain offset io where
    "io_element data (start + 24) e = Ok (offset, io)" "n = offset - start"
    by (auto simp: parseAVLRecord8_def)
  with io_element_Ok [of data "start + 24" e offset io] show ?thesis by auto
qed

lemma codec_loop_not_Panic [simp]: "codec_loop data e g n offset \<noteq> Panic"
  by (induction n arbitrary: offset) (auto simp: bind_o_Panic_iff Let_def)

lemma codec_loop_length: "codec_loop data e g n offset = Ok recs \<Longrightarrow> length recs = n"
  by (induction n arbitrary: offset recs) (auto simp: Let_def split: if_splits)

text \<open>A packet cannot claim more records than its payload has room for.\<close>

lemma codec_loop_size:
  "codec_loop data e g n offset = Ok recs \<Longrightarrow> offset \<le> length data \<Longrightarrow>
   offset + n * ((if e then 38 else 30) + (if g then 2 else 0)) \<le> length data"
proof (induction n arbitrary: offset recs)
  case 0
  then show ?case by simp
next
  case (Suc n)
  let ?o = "if g then offset + 2 else offset"
  from Suc.prems(1) obtain rec used recs' where
    p: "parseAVLRecord8 data ?o e = Ok (rec, used)" and
    rest: "codec_loop data e g n (?o + used) = Ok recs'"
    by (auto simp: Let_def split: if_splits)
  from parseAVLRecord8_size [OF p] have u: "(if e then 38 else 30) \<le> used" "?o + used \<le> length data" by auto
  from Suc.IH [OF rest u(2)] u(1) show ?case by (auto simp: algebra_simps split: if_splits)
qed

lemma decode_payload_not_Panic [simp]: "decode_payload payload \<noteq> Panic"
  by (auto simp: decode_payload_def bind_o_Panic_iff parseCodec8_def parseCodec8E_def parseCodec16_def)

end
