(* ===== verification/Teltonika_Wire.thy ===== *)
theory Teltonika_Wire
  imports Teltonika
begin

text \<open>
  The Teltonika wire format as an encoder, written from the layout the handler's comments
  document, and the proof that the parser inverts it: for single records of Codec 8 and
  8E, for whole packets of the three codecs, and for the framing with its checksum.
\<close>

section \<open>Wire-level records\<close>

record avl =
  a_ts :: u64
  a_prio :: byte
  a_lng :: u32
  a_lat :: u32
  a_alt :: u16
  a_angle :: u16
  a_sats :: byte
  a_speed :: u16
  a_event :: nat
  a_total :: nat
  a_io1 :: "(nat \<times> nat) list"
  a_io2 :: "(nat \<times> nat) list"
  a_io4 :: "(nat \<times> nat) list"
  a_io8 :: "(nat \<times> nat) list"
  a_x :: "(nat \<times> bytes) list"

definition num_width :: "bool \<Rightarrow> nat" where
  "num_width e = (if e then 2 else 1)"

definition enc_elem :: "bool \<Rightarrow> nat \<Rightarrow> nat \<times> nat \<Rightarrow> bytes" where
  "enc_elem e vb p = put_be (num_width e) (fst p) @ put_be vb (snd p)"

definition enc_group :: "bool \<Rightarrow> nat \<Rightarrow> (nat \<times> nat) list \<Rightarrow> bytes" where
  "enc_group e vb xs = put_be (num_width e) (length xs) @ concat (map (enc_elem e vb) xs)"

definition enc_x :: "nat \<times> bytes \<Rightarrow> bytes" where
  "enc_x p = put_be 2 (fst p) @ put_be 2 (length (snd p)) @ snd p"

definition enc_gps :: "avl \<Rightarrow> bytes" where
  "enc_gps a = put_be 4 (unat (a_lng a)) @ put_be 4 (unat (a_lat a)) @ put_be 2 (unat (a_alt a)) @
     put_be 2 (unat (a_angle a)) @ [a_sats a] @ put_be 2 (unat (a_speed a))"

definition enc_io :: "bool \<Rightarrow> avl \<Rightarrow> bytes" where
  "enc_io e a = (put_be (num_width e) (a_event a) @ put_be (num_width e) (a_total a)) @
     enc_group e 1 (a_io1 a) @ enc_group e 2 (a_io2 a) @ enc_group e 4 (a_io4 a) @ enc_group e 8 (a_io8 a) @
     (if e then put_be 2 (length (a_x a)) @ concat (map enc_x (a_x a)) else [])"

definition enc_record :: "bool \<Rightarrow> avl \<Rightarrow> bytes" where
  "enc_record e a = put_be 8 (unat (a_ts a)) @ [a_prio a] @ enc_gps a @ enc_io e a"

text \<open>Field values that fit their width; the header's event id and total are not read.\<close>

definition wf_group :: "bool \<Rightarrow> nat \<Rightarrow> (nat \<times> nat) list \<Rightarrow> bool" where
  "wf_group e vb xs \<longleftrightarrow> length xs < 256 ^ num_width e \<and>
     list_all (\<lambda>p. fst p < 256 ^ num_width e \<and> snd p < 256 ^ vb) xs"

definition wf_avl :: "bool \<Rightarrow> avl \<Rightarrow> bool" where
  "wf_avl e a \<longleftrightarrow> wf_group e 1 (a_io1 a) \<and> wf_group e 2 (a_io2 a) \<and> wf_group e 4 (a_io4 a) \<and>
     wf_group e 8 (a_io8 a) \<and> length (a_x a) < 65536 \<and>
     list_all (\<lambda>p. fst p < 65536 \<and> length (snd p) < 65536) (a_x a)"

text \<open>The IO elements a record carries, in wire order, with the value each stands for.\<close>

definition group_pairs :: "nat \<Rightarrow> (nat \<times> nat) list \<Rightarrow> (int \<times> int) list" where
  "group_pairs vb xs = map (\<lambda>p. (int (fst p), io_value vb (snd p))) xs"

definition x_pairs :: "(nat \<times> bytes) list \<Rightarrow> (int \<times> int) list" where
  "x_pairs xs = map (\<lambda>p. (int (fst p), sint (word_of_nat (be_nat (take 8 (snd p))) :: u64))) xs"

definition avl_pairs :: "bool \<Rightarrow> avl \<Rightarrow> (int \<times> int) list" where
  "avl_pairs e a = group_pairs 1 (a_io1 a) @ group_pairs 2 (a_io2 a) @ group_pairs 4 (a_io4 a) @
     group_pairs 8 (a_io8 a) @ (if e then x_pairs (a_x a) else [])"

text \<open>What the handler should report for a wire record. A repeated IO id keeps its last value.\<close>

definition degrees7 :: "u32 \<Rightarrow> f64" where
  "degrees7 raw = Fin (round64 (of_int (sint raw) / 10000000))"

definition avl_record :: "bool \<Rightarrow> avl \<Rightarrow> ParsedRecord" where
  "avl_record e a = zero_record\<lparr>Timestamp := sint (a_ts a), Priority := a_prio a,
     Lng := degrees7 (a_lng a), Lat := degrees7 (a_lat a), Altitude := int (unat (a_alt a)),
     Heading := a_angle a, Satellites := a_sats a, Speed := a_speed a,
     Valid := a_sats a \<noteq> 0 \<and> (a_lat a \<noteq> 0 \<or> a_lng a \<noteq> 0),
     IOData := map_of (rev (avl_pairs e a))\<rparr>"

section \<open>Coordinates\<close>

lemma sint_u32_bounds: "\<bar>sint (w :: u32)\<bar> < 2 ^ 53"
  using sint_greater_eq [of w] sint_lt [of w] by simp

lemma coord_unat [simp]: "coord (unat w) = degrees7 w"
proof -
  have "f64_div_const (f64_of_int (sint w)) (of_int 10000000) = Fin (round64 (of_int (sint w) / of_int 10000000))"
    by (rule f64_quotient [OF sint_u32_bounds]) simp_all
  then show ?thesis by (simp add: coord_def degrees7_def)
qed

lemma degrees7_zero_iff [simp]: "f64_is_zero (degrees7 w) \<longleftrightarrow> w = 0"
  using round64_quotient_eq_0_iff [of 10000000 "sint w"] signed_word_eqI [of w 0]
  by (auto simp: f64_is_zero_def degrees7_def)

section \<open>Variable-width values\<close>

lemma shift_or_byte: "push_bit 8 v OR ucast (b :: byte) = v * 256 + (ucast b :: u64)"
proof -
  have "push_bit 8 v + (ucast b :: u64) = push_bit 8 v OR ucast b"
    by (rule disjunctive_add) (auto simp: bit_push_bit_iff bit_ucast_iff dest: bit_imp_le_length)
  then show ?thesis by (simp add: push_bit_eq_mult)
qed

lemma x_fold:
  "foldl (\<lambda>val b. push_bit 8 val OR ucast b) (word_of_nat a :: u64) bs =
   word_of_nat (foldl (\<lambda>a b. a * 256 + unat (b :: byte)) a bs)"
proof (induction bs arbitrary: a)
  case Nil
  then show ?case by simp
next
  case (Cons b bs)
  have "(word_of_nat a :: u64) * 256 + ucast b = word_of_nat (a * 256 + unat b)"
    by (simp add: unsigned_ucast_eq)
  then show ?case
    using Cons.IH [of "a * 256 + unat b"] by (simp only: foldl.simps shift_or_byte)
qed

lemma x_value_be: "x_value bs = sint (word_of_nat (be_nat (take 8 bs)) :: u64)"
  using x_fold [of 0 "take 8 bs"] by (simp add: x_value_def be_nat_def)

section \<open>Reading one field after the other\<close>

definition upd_pairs :: "iodata \<Rightarrow> (int \<times> int) list \<Rightarrow> iodata" where
  "upd_pairs io ps = foldl (\<lambda>m p. m(fst p \<mapsto> snd p)) io ps"

lemma upd_pairs_append: "upd_pairs io (ps @ qs) = upd_pairs (upd_pairs io ps) qs"
  by (simp add: upd_pairs_def)

lemma upd_pairs_empty: "upd_pairs Map.empty ps = map_of (rev ps)"
  by (induction ps rule: rev_induct) (simp_all add: upd_pairs_def)

lemma read_num_enc:
  assumes "drop i data = put_be (num_width e) v @ rest" "i \<le> length data" "v < 256 ^ num_width e"
  shows "read_num what data i e = Ok (v, i + num_width e)"
  using assms(3) length_from_drop [OF assms(1,2)]
  by (simp add: read_num_def uint_at_put_be [OF assms(1,2)] need_def flip: num_width_def)

lemma io_elems_enc:
  assumes "drop i data = concat (map (enc_elem e vb) xs) @ rest" "i \<le> length data"
    "list_all (\<lambda>p. fst p < 256 ^ num_width e \<and> snd p < 256 ^ vb) xs"
  shows "io_elems data e vb (length xs) i io =
    Ok (i + length (concat (map (enc_elem e vb) xs)), upd_pairs io (group_pairs vb xs))"
  using assms
proof (induction xs arbitrary: i io)
  case Nil
  then show ?case by (simp add: upd_pairs_def group_pairs_def)
next
  case (Cons p xs)
  let ?w = "num_width e"
  let ?tail = "concat (map (enc_elem e vb) xs) @ rest"
  have d: "drop i data = put_be ?w (fst p) @ put_be vb (snd p) @ ?tail"
    using Cons.prems(1) by (simp add: enc_elem_def [of e vb p])
  have d1: "drop (i + ?w) data = put_be vb (snd p) @ ?tail"
    using drop_append_advance [OF d] by simp
  have d2: "drop (i + ?w + vb) data = ?tail"
    using drop_append_advance [OF d1] by simp
  have len: "length data = i + ?w + vb + length ?tail"
    using length_from_drop [OF d Cons.prems(2)] by simp
  have "read_num ''io id'' data i e = Ok (fst p, i + ?w)"
    by (rule read_num_enc [OF d Cons.prems(2)]) (use Cons.prems(3) in simp)
  moreover have "(uint_at vb data (i + ?w) :: (goerr, nat) outcome) = Ok (snd p)"
    using uint_at_put_be [OF d1] len Cons.prems(3) by simp
  moreover have "need ''io value'' data (i + ?w) vb = Ok ()" using len by simp
  ultimately show ?case
    using Cons.IH [OF d2] Cons.prems(3) len
    by (simp add: need_def enc_elem_def [of e vb p] upd_pairs_def group_pairs_def)
qed

lemma io_groups_enc_step:
  assumes "drop i data = enc_group e vb xs @ rest" "i \<le> length data" "wf_group e vb xs"
  shows "io_groups data e (vb # vbs) i io =
    io_groups data e vbs (i + length (enc_group e vb xs)) (upd_pairs io (group_pairs vb xs))"
proof -
  let ?w = "num_width e"
  have d: "drop i data = put_be ?w (length xs) @ concat (map (enc_elem e vb) xs) @ rest"
    using assms(1) by (simp add: enc_group_def)
  have "read_num ''io count'' data i e = Ok (length xs, i + ?w)"
    by (rule read_num_enc [OF d assms(2)]) (use assms(3) in \<open>simp add: wf_group_def\<close>)
  moreover have d1: "drop (i + ?w) data = concat (map (enc_elem e vb) xs) @ rest"
    using drop_append_advance [OF d] by simp
  moreover have "i + ?w \<le> length data" using length_from_drop [OF d assms(2)] by simp
  ultimately show ?thesis
    using io_elems_enc [OF d1, of io] assms(3)
    by (simp add: enc_group_def wf_group_def add.assoc)
qed

lemma x_elems_enc:
  assumes "drop i data = concat (map enc_x xs) @ rest" "i \<le> length data"
    "list_all (\<lambda>p. fst p < 65536 \<and> length (snd p) < 65536) xs"
  shows "x_elems data (length xs) i io =
    Ok (i + length (concat (map enc_x xs)), upd_pairs io (x_pairs xs))"
  using assms
proof (induction xs arbitrary: i io)
  case Nil
  then show ?case by (simp add: upd_pairs_def x_pairs_def)
next
  case (Cons p xs)
  let ?bs = "snd p"
  let ?tail = "concat (map enc_x xs) @ rest"
  have d: "drop i data = put_be 2 (fst p) @ put_be 2 (length ?bs) @ ?bs @ ?tail"
    using Cons.prems(1) by (simp add: enc_x_def [of p])
  have d1: "drop (i + 2) data = put_be 2 (length ?bs) @ ?bs @ ?tail"
    using drop_append_advance [OF d] by simp
  have d2: "drop (i + 4) data = ?bs @ ?tail"
    using drop_append_advance [OF d1] by (simp only: length_put_be add.assoc) simp
  have d3: "drop (i + 4 + length ?bs) data = ?tail"
    using drop_append_advance [OF d2] by simp
  have len: "length data = i + 4 + length ?bs + length ?tail"
    using length_from_drop [OF d Cons.prems(2)] by simp
  have "(uint_at 2 data i :: (goerr, nat) outcome) = Ok (fst p)"
    "(uint_at 2 data (i + 2) :: (goerr, nat) outcome) = Ok (length ?bs)"
    using uint_at_put_be [OF d] uint_at_put_be [OF d1] len Cons.prems(3) by simp_all
  moreover have "(slice data (i + 4) (i + 4 + length ?bs) :: (goerr, bytes) outcome) = Ok ?bs"
    using d2 len by (simp add: slice_def)
  ultimately show ?case
    using Cons.IH [OF d3] Cons.prems(3) len
    by (simp add: need_def enc_x_def [of p] upd_pairs_def x_pairs_def x_value_be add.assoc)
qed

lemma io_groups_enc:
  assumes "drop i data = enc_group e 1 g1 @ enc_group e 2 g2 @ enc_group e 4 g4 @ enc_group e 8 g8 @ rest"
    "i \<le> length data" "wf_group e 1 g1" "wf_group e 2 g2" "wf_group e 4 g4" "wf_group e 8 g8"
  shows "io_groups data e [1, 2, 4, 8] i io =
    Ok (i + length (enc_group e 1 g1) + length (enc_group e 2 g2) + length (enc_group e 4 g4) + length (enc_group e 8 g8),
        upd_pairs io (group_pairs 1 g1 @ group_pairs 2 g2 @ group_pairs 4 g4 @ group_pairs 8 g8))"
proof -
  have len: "length data = i + length (enc_group e 1 g1) + length (enc_group e 2 g2) +
      length (enc_group e 4 g4) + length (enc_group e 8 g8) + length rest"
    using length_from_drop [OF assms(1,2)] by simp
  note d1 = assms(1)
  note d2 = drop_append_advance [OF d1]
  note d3 = drop_append_advance [OF d2]
  note d4 = drop_append_advance [OF d3]
  have "io_groups data e [1, 2, 4, 8] i io = io_groups data e [2, 4, 8]
      (i + length (enc_group e 1 g1)) (upd_pairs io (group_pairs 1 g1))"
    by (rule io_groups_enc_step [OF d1 assms(2,3)])
  also have "\<dots> = io_groups data e [4, 8] (i + length (enc_group e 1 g1) + length (enc_group e 2 g2))
      (upd_pairs io (group_pairs 1 g1 @ group_pairs 2 g2))"
    unfolding upd_pairs_append by (rule io_groups_enc_step [OF d2 _ assms(4)]) (use len in simp)
  also have "\<dots> = io_groups data e [8]
      (i + length (enc_group e 1 g1) + length (enc_group e 2 g2) + length (enc_group e 4 g4))
      (upd_pairs io ((group_pairs 1 g1 @ group_pairs 2 g2) @ group_pairs 4 g4))"
    unfolding upd_pairs_append by (rule io_groups_enc_step [OF d3 _ assms(5)]) (use len in simp)
  also have "\<dots> = io_groups data e []
      (i + length (enc_group e 1 g1) + length (enc_group e 2 g2) + length (enc_group e 4 g4) + length (enc_group e 8 g8))
      (upd_pairs io (((group_pairs 1 g1 @ group_pairs 2 g2) @ group_pairs 4 g4) @ group_pairs 8 g8))"
    unfolding upd_pairs_append by (rule io_groups_enc_step [OF d4 _ assms(6)]) (use len in simp)
  finally show ?thesis by simp
qed

lemma io_element_enc:
  assumes "drop i data = enc_io e a @ rest" "i \<le> length data" "wf_avl e a"
  shows "io_element data i e = Ok (i + length (enc_io e a), map_of (rev (avl_pairs e a)))"
proof -
  let ?hdr = "put_be (num_width e) (a_event a) @ put_be (num_width e) (a_total a)"
  let ?x = "if e then put_be 2 (length (a_x a)) @ concat (map enc_x (a_x a)) else []"
  let ?G = "enc_group e 1 (a_io1 a) @ enc_group e 2 (a_io2 a) @ enc_group e 4 (a_io4 a) @ enc_group e 8 (a_io8 a)"
  let ?ps = "group_pairs 1 (a_io1 a) @ group_pairs 2 (a_io2 a) @ group_pairs 4 (a_io4 a) @ group_pairs 8 (a_io8 a)"
  have wf: "wf_group e 1 (a_io1 a)" "wf_group e 2 (a_io2 a)" "wf_group e 4 (a_io4 a)" "wf_group e 8 (a_io8 a)"
    using assms(3) by (simp_all add: wf_avl_def)
  have enc: "enc_io e a = ?hdr @ ?G @ ?x" by (simp add: enc_io_def)
  have d0: "drop i data = ?hdr @ ?G @ ?x @ rest" using assms(1) by (simp add: enc)
  have enclen: "length (enc_io e a) = length ?hdr + length ?G + length ?x" by (simp add: enc)
  have hl: "length ?hdr = (if e then 4 else 2)" by (simp add: num_width_def)
  have len: "length data = i + length ?hdr + length ?G + length ?x + length rest"
    using length_from_drop [OF assms(1,2)] by (simp add: enc)
  have dg: "drop (i + length ?hdr) data = enc_group e 1 (a_io1 a) @ enc_group e 2 (a_io2 a) @
      enc_group e 4 (a_io4 a) @ enc_group e 8 (a_io8 a) @ ?x @ rest"
    using drop_append_advance [OF d0] by simp
  have groups: "io_groups data e [1, 2, 4, 8] (i + length ?hdr) Map.empty =
      Ok (i + length ?hdr + length ?G, upd_pairs Map.empty ?ps)"
    using io_groups_enc [OF dg _ wf, of Map.empty] len by (simp add: add.assoc)
  have dx: "drop (i + length ?hdr + length ?G) data = ?x @ rest"
  proof -
    have "drop (i + length ?hdr) data = ?G @ ?x @ rest" using dg by simp
    from drop_append_advance [OF this] show ?thesis .
  qed
  have elem: "io_element data i e =
      (if e then bind_o (read_num ''8E xbyte count'' data (i + length ?hdr + length ?G) True) (\<lambda>(n, o2).
          x_elems data n o2 (upd_pairs Map.empty ?ps))
       else Ok (i + length ?hdr + length ?G, upd_pairs Map.empty ?ps))"
    using len groups by (simp add: io_element_def need_def flip: hl)
  show ?thesis
  proof (cases e)
    case False
    then show ?thesis using elem enclen by (simp add: avl_pairs_def upd_pairs_empty)
  next
    case True
    let ?o = "i + length ?hdr + length ?G"
    have dx': "drop ?o data = put_be (num_width True) (length (a_x a)) @ concat (map enc_x (a_x a)) @ rest"
      using dx True by (simp add: num_width_def)
    have o: "?o \<le> length data" using len by simp
    have "read_num ''8E xbyte count'' data ?o True = Ok (length (a_x a), ?o + 2)"
      using read_num_enc [OF dx' o] assms(3) by (simp add: num_width_def wf_avl_def)
    moreover have "x_elems data (length (a_x a)) (?o + 2) io =
        Ok (?o + 2 + length (concat (map enc_x (a_x a))), upd_pairs io (x_pairs (a_x a)))" for io
    proof (rule x_elems_enc)
      show "drop (?o + 2) data = concat (map enc_x (a_x a)) @ rest"
        using drop_append_advance [OF dx'] by (simp add: num_width_def)
    qed (use len True assms(3) in \<open>auto simp: wf_avl_def\<close>)
    ultimately have "io_element data i e = Ok (?o + 2 + length (concat (map enc_x (a_x a))),
        upd_pairs (upd_pairs Map.empty ?ps) (x_pairs (a_x a)))"
      using elem True by simp
    moreover have "map_of (rev (avl_pairs e a)) = upd_pairs (upd_pairs Map.empty ?ps) (x_pairs (a_x a))"
      by (simp only: upd_pairs_empty [symmetric] upd_pairs_append [symmetric]) (simp add: avl_pairs_def True)
    ultimately show ?thesis using enclen True by simp
  qed
qed

lemma gps_element_enc:
  assumes "drop i data = enc_gps a @ rest" "i \<le> length data"
  shows "gps_element data i rec = Ok (rec\<lparr>Lng := degrees7 (a_lng a), Lat := degrees7 (a_lat a),
     Altitude := int (unat (a_alt a)), Heading := a_angle a, Satellites := a_sats a, Speed := a_speed a,
     Valid := a_sats a \<noteq> 0 \<and> (a_lat a \<noteq> 0 \<or> a_lng a \<noteq> 0)\<rparr>)"
proof -
  have d0: "drop i data = put_be 4 (unat (a_lng a)) @ put_be 4 (unat (a_lat a)) @ put_be 2 (unat (a_alt a)) @
     put_be 2 (unat (a_angle a)) @ [a_sats a] @ put_be 2 (unat (a_speed a)) @ rest"
    using assms(1) by (simp add: enc_gps_def)
  have d4: "drop (i + 4) data = put_be 4 (unat (a_lat a)) @ put_be 2 (unat (a_alt a)) @
     put_be 2 (unat (a_angle a)) @ [a_sats a] @ put_be 2 (unat (a_speed a)) @ rest"
    using drop_append_advance [OF d0] by simp
  have d8: "drop (i + 8) data = put_be 2 (unat (a_alt a)) @
     put_be 2 (unat (a_angle a)) @ [a_sats a] @ put_be 2 (unat (a_speed a)) @ rest"
    using drop_append_advance [OF d4] by (simp add: add.commute)
  have d10: "drop (i + 10) data = put_be 2 (unat (a_angle a)) @ [a_sats a] @ put_be 2 (unat (a_speed a)) @ rest"
    using drop_append_advance [OF d8] by (simp add: add.commute)
  have d12: "drop (i + 12) data = [a_sats a] @ put_be 2 (unat (a_speed a)) @ rest"
    using drop_append_advance [OF d10] by (simp add: add.commute)
  have d13: "drop (i + 13) data = put_be 2 (unat (a_speed a)) @ rest"
    using drop_append_advance [OF d12] by (simp add: add.commute)
  have len: "i + 15 \<le> length data" using length_from_drop [OF d0 assms(2)] by simp
  note reads = uint_at_u32 [OF d0 assms(2)] uint_at_u32 [OF d4] uint_at_u16 [OF d8] uint_at_u16 [OF d10]
    uint_at_u16 [OF d13] idx_from_drop [OF d12 [simplified]]
  show ?thesis
    using len by (simp add: gps_element_def need_def reads word_gt_0)
qed

lemma record_enc:
  assumes "drop i data = enc_record e a @ rest" "i \<le> length data" "wf_avl e a"
  shows "parseAVLRecord8 data i e = Ok (avl_record e a, length (enc_record e a))"
proof -
  have d0: "drop i data = put_be 8 (unat (a_ts a)) @ [a_prio a] @ enc_gps a @ enc_io e a @ rest"
    using assms(1) by (simp add: enc_record_def)
  have gl: "length (enc_gps a) = 15" by (simp add: enc_gps_def)
  have d8: "drop (i + 8) data = [a_prio a] @ enc_gps a @ enc_io e a @ rest"
    using drop_append_advance [OF d0] by (simp add: add.commute)
  have d9: "drop (i + 9) data = enc_gps a @ enc_io e a @ rest"
    using drop_append_advance [OF d8] by (simp add: add.commute)
  have d24: "drop (i + 24) data = enc_io e a @ rest"
    using drop_append_advance [OF d9] by (simp add: gl add.commute)
  have len: "length data = i + 24 + length (enc_io e a) + length rest"
    using length_from_drop [OF d0 assms(2)] gl by simp
  note reads = uint_at_u64 [OF d0 assms(2)] idx_from_drop [OF d8 [simplified]]
    gps_element_enc [OF d9] io_element_enc [OF d24 _ assms(3)]
  show ?thesis
    using len gl
    by (simp add: parseAVLRecord8_def need_def reads avl_record_def enc_record_def)
qed

section \<open>Packets\<close>

datatype codec = C8 | C8E | C16

fun codec_id :: "codec \<Rightarrow> byte" where
  "codec_id C8 = Codec8"
| "codec_id C8E = Codec8E"
| "codec_id C16 = Codec16"

definition enc_timed :: "codec \<Rightarrow> nat \<times> avl \<Rightarrow> bytes" where
  "enc_timed k p = (if k = C16 then put_be 2 (fst p) else []) @ enc_record (k = C8E) (snd p)"

text \<open>The payload: codec, count, records (each after its generation time for Codec 16), count.\<close>

definition enc_payload :: "codec \<Rightarrow> (nat \<times> avl) list \<Rightarrow> bytes" where
  "enc_payload k recs = [codec_id k, word_of_nat (length recs)] @ concat (map (enc_timed k) recs) @
     [word_of_nat (length recs)]"

definition teltonika_frame :: "bytes \<Rightarrow> bytes" where
  "teltonika_frame payload = put_be 4 0 @ put_be 4 (length payload) @ payload @
     put_be 4 (unat (CRC16IBM payload))"

lemma codec_loop_enc:
  assumes "drop i data = concat (map (enc_timed k) recs) @ rest" "i \<le> length data"
    "list_all (\<lambda>p. wf_avl (k = C8E) (snd p)) recs"
  shows "codec_loop data (k = C8E) (k = C16) (length recs) i = Ok (map (\<lambda>p. avl_record (k = C8E) (snd p)) recs)"
  using assms
proof (induction recs arbitrary: i)
  case Nil
  then show ?case by simp
next
  case (Cons p recs)
  let ?t = "if k = C16 then put_be 2 (fst p) else []"
  let ?r = "enc_record (k = C8E) (snd p)"
  let ?tail = "concat (map (enc_timed k) recs) @ rest"
  have d: "drop i data = ?t @ ?r @ ?tail"
    using Cons.prems(1) by (simp add: enc_timed_def [of k p])
  have d1: "drop (i + length ?t) data = ?r @ ?tail" by (rule drop_append_advance [OF d])
  have d2: "drop (i + length ?t + length ?r) data = ?tail" by (rule drop_append_advance [OF d1])
  have len: "length data = i + length ?t + length ?r + length ?tail"
    using length_from_drop [OF d Cons.prems(2)] by simp
  have o: "(if k = C16 then i + 2 else i) = i + length ?t" by simp
  have rec: "parseAVLRecord8 data (i + length ?t) (k = C8E) = Ok (avl_record (k = C8E) (snd p), length ?r)"
    by (rule record_enc [OF d1]) (use len Cons.prems(3) in auto)
  have rest: "codec_loop data (k = C8E) (k = C16) (length recs) (i + length ?t + length ?r) =
      Ok (map (\<lambda>p. avl_record (k = C8E) (snd p)) recs)"
    by (rule Cons.IH [OF d2]) (use len Cons.prems(3) in auto)
  have "\<not> (k = C16 \<and> length data < i + 2)" using len by auto
  then show ?case by (simp only: length_Cons codec_loop.simps if_False Let_def o rec rest
        map_err.simps bind_o.simps prod.case list.map)
qed

lemma decode_payload_enc:
  assumes "length recs < 256" "list_all (\<lambda>p. wf_avl (k = C8E) (snd p)) recs"
  shows "decode_payload (enc_payload k recs) =
    Ok (map (\<lambda>p. (avl_record (k = C8E) (snd p))\<lparr>RawCodec := codec_id k\<rparr>) recs)"
proof -
  let ?body = "concat (map (enc_timed k) recs) @ [word_of_nat (length recs)]"
  have "codec_loop ?body (k = C8E) (k = C16) (length recs) 0 = Ok (map (\<lambda>p. avl_record (k = C8E) (snd p)) recs)"
    by (rule codec_loop_enc [where rest = "[word_of_nat (length recs)]"]) (use assms(2) in auto)
  then show ?thesis
    using assms(1)
    by (cases k) (simp_all add: decode_payload_def enc_payload_def idx_def parseCodec8_def parseCodec8E_def
        parseCodec16_def Codec8_def Codec8E_def Codec16_def comp_def)
qed

section \<open>The packet reader\<close>

lemma low16_of_crc_field: "(ucast ((word_of_nat n :: u32) AND 0xFFFF) :: u16) = word_of_nat n"
proof (rule bit_word_eqI)
  fix k assume k: "k < LENGTH(16)"
  have m: "(0xFFFF :: u32) = mask 16" by (simp add: mask_eq_exp_minus_1)
  have "bit (ucast ((word_of_nat n :: u32) AND 0xFFFF) :: u16) k = bit (word_of_nat n :: u32) k"
    unfolding m using k by (simp add: bit_ucast_iff bit_and_iff bit_mask_iff)
  also have "\<dots> = bit (word_of_nat n :: u16) k" using k by (simp add: bit_of_nat_iff)
  finally show "bit (ucast ((word_of_nat n :: u32) AND 0xFFFF) :: u16) k = bit (word_of_nat n :: u16) k" .
qed

text \<open>What the reader does on a complete frame, whatever its payload and checksum field.\<close>

lemma ParsePacket_on_frame:
  assumes "pending c = put_be 4 0 @ put_be 4 (length payload) @ payload @ put_be 4 crc @ rest"
    "length payload \<le> 65536" "crc < 2 ^ 32"
  shows "\<exists>c'. teltonika_ParsePacket c =
      ((if word_of_nat crc \<noteq> CRC16IBM payload then Err (Errorf ''teltonika: CRC mismatch'', payload)
        else let raw = put_be 4 0 @ put_be 4 (length payload) @ payload @ put_be 4 crc in
          bind_o (map_err (\<lambda>e. (e, raw)) (decode_payload payload)) (\<lambda>recs. Ok (recs, raw))), c') \<and>
      pending c' = rest \<and> ending c' = ending c \<and> wres c' = wres c \<and> outp c' = outp c"
proof -
  from read_uint_append [OF assms(1)] obtain c1 where
    c1: "read_uint 4 c = (Ok 0, c1)" "pending c1 = put_be 4 (length payload) @ payload @ put_be 4 crc @ rest"
      "ending c1 = ending c" "wres c1 = wres c" "outp c1 = outp c" by auto
  from read_uint_append [OF c1(2)] assms(2) obtain c2 where
    c2: "read_uint 4 c1 = (Ok (length payload), c2)" "pending c2 = payload @ put_be 4 crc @ rest"
      "ending c2 = ending c1" "wres c2 = wres c1" "outp c2 = outp c1" by auto
  from ReadFull_append [OF c2(2)] obtain c3 where
    c3: "ReadFull (length payload) c2 = (Ok payload, c3)" "pending c3 = put_be 4 crc @ rest"
      "ending c3 = ending c2" "wres c3 = wres c2" "outp c3 = outp c2" by auto
  from read_uint_append [OF c3(2)] assms(3) obtain c4 where
    c4: "read_uint 4 c3 = (Ok crc, c4)" "pending c4 = rest"
      "ending c4 = ending c3" "wres c4 = wres c3" "outp c4 = outp c3" by auto
  note steps = bind_wrap_Ok [of "read_uint 4" c, OF c1(1)] bind_wrap_Ok [of "read_uint 4" c1, OF c2(1)]
    bind_wrap_Ok [of "ReadFull (length payload)" c2, OF c3(1)] bind_wrap_Ok [of "read_uint 4" c3, OF c4(1)]
  have "bind_io (lift_io x) (\<lambda>recs. ret_io (recs, raw)) d = (bind_o x (\<lambda>recs. Ok (recs, raw)), d)"
    for x :: "(goerr \<times> bytes, ParsedRecord list) outcome" and raw :: bytes and d
    by (cases x) (simp_all add: io_defs)
  then have "teltonika_ParsePacket c =
      ((if word_of_nat crc \<noteq> CRC16IBM payload then Err (Errorf ''teltonika: CRC mismatch'', payload)
        else let raw = put_be 4 0 @ put_be 4 (length payload) @ payload @ put_be 4 crc in
          bind_o (map_err (\<lambda>e. (e, raw)) (decode_payload payload)) (\<lambda>recs. Ok (recs, raw))), c4)"
    using assms(2) by (simp add: teltonika_ParsePacket_def steps low16_of_crc_field Let_def lift_io_def)
  then show ?thesis using c1 c2 c3 c4 by simp
qed

text \<open>An accepted packet was a complete frame with a matching checksum.\<close>

lemma ParsePacket_accepts:
  assumes "teltonika_ParsePacket c = (Ok (recs, raw), c')"
  shows "\<exists>payload crc. raw = put_be 4 0 @ put_be 4 (length payload) @ payload @ put_be 4 crc \<and>
     pending c = raw @ pending c' \<and> length payload \<le> 65536 \<and> word_of_nat crc = CRC16IBM payload \<and>
     decode_payload payload = Ok recs \<and> outp c' = outp c"
proof -
  from assms obtain pre c1 n c2 payload c3 crc where
    r1: "read_uint 4 c = (Ok pre, c1)" "pre = 0" and
    r2: "read_uint 4 c1 = (Ok n, c2)" "n \<le> 65536" and
    r3: "ReadFull n c2 = (Ok payload, c3)" and
    r4: "read_uint 4 c3 = (Ok crc, c')" and
    crc: "word_of_nat crc = CRC16IBM payload" and
    recs: "decode_payload payload = Ok recs" and
    raw: "raw = put_be 4 0 @ put_be 4 n @ payload @ put_be 4 crc"
    by (auto simp: teltonika_ParsePacket_def lift_io_def ret_io_def Let_def low16_of_crc_field
        elim!: bind_io_OkE split: if_splits)
  have be: "put_be 4 (be_nat (take 4 b)) = take 4 b" if "4 \<le> length b" for b :: bytes
    using put_be_be_nat [of "take 4 b"] that by (simp add: min.absorb2)
  note p1 = read_uint_OkD [OF r1(1)] and p2 = read_uint_OkD [OF r2(1)]
    and p3 = ReadFull_OkD [OF r3] and p4 = read_uint_OkD [OF r4]
  have "take 4 (pending c) = put_be 4 0" "take 4 (pending c1) = put_be 4 n" "take 4 (pending c3) = put_be 4 crc"
    using p1 p2 p4 r1(2) be by metis+
  then have "pending c = put_be 4 0 @ put_be 4 n @ payload @ put_be 4 crc @ pending c'"
    using p1 p2 p3 p4 by (metis append_take_drop_id)
  moreover have "length payload = n" "outp c' = outp c" using p1 p2 p3 p4 by metis+
  ultimately show ?thesis
    using r2(2) crc recs raw by (intro exI [of _ payload] exI [of _ crc]) simp
qed

lemma ParsePacket_enc:
  assumes "pending c = teltonika_frame (enc_payload k recs) @ rest"
    "length recs < 256" "list_all (\<lambda>p. wf_avl (k = C8E) (snd p)) recs"
    "length (enc_payload k recs) \<le> 65536"
  shows "\<exists>c'. teltonika_ParsePacket c =
      (Ok (map (\<lambda>p. (avl_record (k = C8E) (snd p))\<lparr>RawCodec := codec_id k\<rparr>) recs,
           teltonika_frame (enc_payload k recs)), c') \<and> pending c' = rest \<and> outp c' = outp c \<and> ending c' = ending c"
proof -
  let ?p = "enc_payload k recs"
  let ?crc = "unat (CRC16IBM ?p)"
  have crc: "?crc < 2 ^ 32" using unsigned_less [where 'a = nat, of "CRC16IBM ?p"] by simp
  have "pending c = put_be 4 0 @ put_be 4 (length ?p) @ ?p @ put_be 4 ?crc @ rest"
    using assms(1) by (simp add: teltonika_frame_def)
  from ParsePacket_on_frame [OF this assms(4) crc] show ?thesis
    by (auto simp: Let_def decode_payload_enc [OF assms(2,3)] teltonika_frame_def)
qed

section \<open>Properties\<close>

text \<open>
  C1: a well-formed Codec 8, 8E or 16 packet of up to 255 records, arriving in any
  segmentation and followed by anything, is parsed to exactly the records it encodes, in
  order and with their codec; the raw packet handed on is the packet itself, the following
  bytes stay unread and nothing is written.
\<close>

theorem teltonika_packet_roundtrip:
  assumes "pending c = teltonika_frame (enc_payload k recs) @ rest"
    "length recs < 256" "list_all (\<lambda>p. wf_avl (k = C8E) (snd p)) recs"
    "length (enc_payload k recs) \<le> 65536"
  shows "\<exists>c'. teltonika_ParsePacket c =
      (Ok (map (\<lambda>p. (avl_record (k = C8E) (snd p))\<lparr>RawCodec := codec_id k\<rparr>) recs,
           teltonika_frame (enc_payload k recs)), c') \<and> pending c' = rest \<and> outp c' = outp c"
  using ParsePacket_enc [OF assms] by blast

definition sample_avl :: avl where
  "sample_avl = \<lparr>a_ts = 0x16B40D8EA30, a_prio = 1, a_lng = 253464246, a_lat = 378347672,
     a_alt = 334, a_angle = 198, a_sats = 13, a_speed = 0, a_event = 0, a_total = 2,
     a_io1 = [(239, 1)], a_io2 = [(66, 12000)], a_io4 = [], a_io8 = [], a_x = []\<rparr>"

theorem teltonika_packet_roundtrip_witness:
  "\<exists>c'. teltonika_ParsePacket (sample_conn (teltonika_frame (enc_payload C8 [(0, sample_avl)]))) =
     (Ok ([(avl_record False sample_avl)\<lparr>RawCodec := 8\<rparr>],
       teltonika_frame (enc_payload C8 [(0, sample_avl)])), c') \<and> pending c' = [] \<and>
     outp c' = outp (sample_conn (teltonika_frame (enc_payload C8 [(0, sample_avl)])))"
proof -
  have wf: "wf_avl False sample_avl"
    by (simp add: wf_avl_def wf_group_def sample_avl_def num_width_def)
  have len: "length (enc_payload C8 [(0, sample_avl)]) \<le> 65536"
    by (simp add: enc_payload_def enc_timed_def enc_record_def enc_gps_def enc_io_def enc_group_def
        enc_elem_def sample_avl_def num_width_def)
  show ?thesis
    using teltonika_packet_roundtrip [of "sample_conn (teltonika_frame (enc_payload C8 [(0, sample_avl)]))"
        C8 "[(0, sample_avl)]" "[]"] wf len
    by (simp add: Codec8_def)
qed

text \<open>
  No input makes the Teltonika handler panic: every index and slice expression it evaluates
  is in range, whatever bytes the peer sends and however the stream ends.
\<close>

lemma teltonika_never_panics: "fst (teltonika_ParsePacket c) \<noteq> Panic" "fst (teltonika_Authenticate c) \<noteq> Panic"
  by (auto simp: teltonika_ParsePacket_def teltonika_Authenticate_def fst_bind_io_Panic lift_io_def ret_io_def
      Let_def split: if_splits)

text \<open>
  C23: a packet is accepted only if the stream starts with a complete frame (zero preamble,
  a length of at most 65536, the payload, the checksum field) whose checksum matches; the
  raw packet returned is exactly the bytes consumed, and the number of records is the
  count byte of the payload, which the payload has room for.
\<close>

theorem teltonika_accepts_only_frames:
  assumes "teltonika_ParsePacket c = (Ok (recs, raw), c')"
  shows "\<exists>payload crc. raw = put_be 4 0 @ put_be 4 (length payload) @ payload @ put_be 4 crc \<and>
     pending c = raw @ pending c' \<and> length payload \<le> 65536 \<and> word_of_nat crc = CRC16IBM payload \<and>
     2 \<le> length payload \<and> length recs = unat (payload ! 1) \<and> 2 + 30 * length recs \<le> length payload"
proof -
  from ParsePacket_accepts [OF assms] obtain payload crc where
    p: "raw = put_be 4 0 @ put_be 4 (length payload) @ payload @ put_be 4 crc"
      "pending c = raw @ pending c'" "length payload \<le> 65536" "word_of_nat crc = CRC16IBM payload"
      "decode_payload payload = Ok recs" by blast
  from p(5) obtain e g rs where len: "2 \<le> length payload" and
    loop: "codec_loop (drop 2 payload) e g (unat (payload ! 1)) 0 = Ok rs" and recs: "length recs = length rs"
    by (auto simp: decode_payload_def idx_def parseCodec8_def parseCodec8E_def parseCodec16_def split: if_splits)
  have n: "length recs = unat (payload ! 1)" using codec_loop_length [OF loop] recs by simp
  have "length recs * 30 \<le> length recs * ((if e then 38 else 30) + (if g then 2 else 0))"
    by (rule mult_le_mono2) simp
  also have "\<dots> \<le> length payload - 2" using codec_loop_size [OF loop] by (simp add: n)
  finally have "2 + 30 * length recs \<le> length payload" using len by simp
  with p len n show ?thesis by blast
qed

theorem teltonika_accepts_only_frames_witness:
  "\<exists>recs raw c' payload crc.
     teltonika_ParsePacket (sample_conn (teltonika_frame (enc_payload C8 []))) = (Ok (recs, raw), c') \<and>
     raw = put_be 4 0 @ put_be 4 (length payload) @ payload @ put_be 4 crc \<and>
     pending (sample_conn (teltonika_frame (enc_payload C8 []))) = raw @ pending c' \<and>
     word_of_nat crc = CRC16IBM payload \<and> length recs = unat (payload ! 1)"
proof -
  let ?c = "sample_conn (teltonika_frame (enc_payload C8 []))"
  have p: "pending ?c = put_be 4 0 @ put_be 4 (length (enc_payload C8 [])) @ enc_payload C8 [] @
      put_be 4 (unat (CRC16IBM (enc_payload C8 []))) @ []"
    by (simp add: teltonika_frame_def)
  have "length (enc_payload C8 []) \<le> 65536" by (simp add: enc_payload_def)
  moreover have "unat (CRC16IBM (enc_payload C8 [])) < 2 ^ 32"
    using unsigned_less [where 'a = nat, of "CRC16IBM (enc_payload C8 [])"] by simp
  ultimately obtain recs raw c' where "teltonika_ParsePacket ?c = (Ok (recs, raw), c')"
    using ParsePacket_on_frame [OF p] by (auto simp: decode_payload_enc Let_def)
  from this teltonika_accepts_only_frames [OF this] show ?thesis by blast
qed

text \<open>
  C9: a frame whose payload differs from a checksummed one in at most two adjacent bytes is
  rejected with a CRC mismatch, and the corrupted payload is what is kept as raw data.
\<close>

theorem teltonika_rejects_corruption:
  assumes "pending c = put_be 4 0 @ put_be 4 (length bad) @ bad @ put_be 4 (unat (CRC16IBM good)) @ rest"
    "good = xs @ [a, b] @ ys" "bad = xs @ [a', b'] @ ys" "(a, b) \<noteq> (a', b')" "length good \<le> 65536"
  shows "fst (teltonika_ParsePacket c) = Err (Errorf ''teltonika: CRC mismatch'', bad)"
proof -
  have "CRC16IBM good \<noteq> CRC16IBM bad"
    using ibm.detects_two_bytes [of 0 xs a b ys a' b'] assms(2-4) by (auto simp: CRC16IBM_run)
  moreover have "unat (CRC16IBM good) < 2 ^ 32"
    using unsigned_less [where 'a = nat, of "CRC16IBM good"] by simp
  moreover have "length bad \<le> 65536" using assms(2,3,5) by simp
  ultimately show ?thesis using ParsePacket_on_frame [OF assms(1)] by auto
qed

theorem teltonika_rejects_corruption_witness:
  "fst (teltonika_ParsePacket (sample_conn (put_be 4 0 @ put_be 4 3 @ [8, 0, 1] @
     put_be 4 (unat (CRC16IBM [8, 0, 0]))))) =
   Err (Errorf ''teltonika: CRC mismatch'', [8, 0, 1])"
proof -
  let ?c = "sample_conn (put_be 4 0 @ put_be 4 3 @ [8, 0, 1] @ put_be 4 (unat (CRC16IBM [8, 0, 0])))"
  have len: "length [8, 0, 1 :: byte] = 3" by simp
  have p: "pending ?c = put_be 4 0 @ put_be 4 (length [8, 0, 1 :: byte]) @ [8, 0, 1] @
      put_be 4 (unat (CRC16IBM [8, 0, 0])) @ []"
    by (simp only: pending_sample len append_Nil2)
  show ?thesis by (rule teltonika_rejects_corruption [OF p, of "[8]" 0 0 "[]" 0 1]) simp_all
qed

text \<open>
  For every packet the reader accepts, the acknowledgement built from the raw packet is
  the four-byte big-endian number of records that were returned.
\<close>

lemma teltonika_ack_counts_records:
  assumes "teltonika_ParsePacket c = (Ok (recs, raw), c')"
  shows "teltonika_BuildACK raw = Ok (put_be 4 (length recs))"
proof -
  from ParsePacket_accepts [OF assms] obtain payload crc where
    raw: "raw = put_be 4 0 @ put_be 4 (length payload) @ payload @ put_be 4 crc" and
    dec: "decode_payload payload = Ok recs" by blast
  from dec obtain e g rs where len: "2 \<le> length payload" and
    loop: "codec_loop (drop 2 payload) e g (unat (payload ! 1)) 0 = Ok rs" and recs: "length recs = length rs"
    by (auto simp: decode_payload_def idx_def parseCodec8_def parseCodec8E_def parseCodec16_def split: if_splits)
  have "raw ! 9 = payload ! 1" using len by (simp add: raw nth_append)
  moreover have "9 < length raw" using len by (simp add: raw)
  moreover have "length recs = unat (payload ! 1)" using codec_loop_length [OF loop] recs by simp
  ultimately show ?thesis by (simp add: teltonika_BuildACK_def idx_def)
qed

lemma teltonika_ack_counts_records_witness:
  "teltonika_BuildACK (teltonika_frame (enc_payload C8 [])) = Ok (put_be 4 0)"
proof -
  let ?c = "sample_conn (teltonika_frame (enc_payload C8 []))"
  have p: "pending ?c = put_be 4 0 @ put_be 4 (length (enc_payload C8 [])) @ enc_payload C8 [] @
      put_be 4 (unat (CRC16IBM (enc_payload C8 []))) @ []"
    by (simp add: teltonika_frame_def)
  have "length (enc_payload C8 []) \<le> 65536" by (simp add: enc_payload_def)
  moreover have "unat (CRC16IBM (enc_payload C8 [])) < 2 ^ 32"
    using unsigned_less [where 'a = nat, of "CRC16IBM (enc_payload C8 [])"] by simp
  ultimately obtain c' where
    "teltonika_ParsePacket ?c = (Ok ([], teltonika_frame (enc_payload C8 [])), c')"
    using ParsePacket_on_frame [OF p] by (auto simp: decode_payload_enc Let_def teltonika_frame_def)
  from teltonika_ack_counts_records [OF this] show ?thesis by simp
qed

text \<open>
  Building the acknowledgement panics for a packet of exactly nine bytes, and only then:
  the length test admits nine bytes and the tenth is read.
\<close>

lemma teltonika_BuildACK_panics_iff: "teltonika_BuildACK packet = Panic \<longleftrightarrow> length packet = 9"
  by (auto simp: teltonika_BuildACK_def bind_o_Panic_iff)

lemma Authenticate_on_login:
  assumes "pending c = put_be 2 (length imei) @ bytes_of imei @ rest" "15 \<le> length imei" "length imei \<le> 17"
    "list_all is_digit imei" "wres c = []"
  shows "\<exists>c'. teltonika_Authenticate c = (Ok imei, c') \<and> pending c' = rest \<and> outp c' = outp c @ [1] \<and> ending c' = ending c"
proof -
  from read_uint_append [OF assms(1)] assms(3) obtain c1 where
    c1: "read_uint 2 c = (Ok (length imei), c1)" "pending c1 = bytes_of imei @ rest" "wres c1 = wres c"
      "outp c1 = outp c" "ending c1 = ending c" by auto
  from ReadFull_append [OF c1(2)] obtain c2 where
    c2: "ReadFull (length imei) c1 = (Ok (bytes_of imei), c2)" "pending c2 = rest" "wres c2 = wres c1"
      "outp c2 = outp c1" "ending c2 = ending c1" by auto
  have "wres c2 = []" using c1 c2 assms by simp
  then have "teltonika_Authenticate c = (Ok imei, c2\<lparr>outp := outp c2 @ [1]\<rparr>)"
    using assms(2-4) by (simp add: teltonika_Authenticate_def bind_wrap_Ok [of "read_uint 2" c, OF c1(1)]
        bind_wrap_Ok [of "ReadFull (length imei)" c1, OF c2(1)] Let_def
        bind_wrap_Ok [of "Write [1]", OF Write_ok] ret_io_def)
  then show ?thesis using c1 c2 by simp
qed

text \<open>
  On a connection whose writes succeed, the handshake returns an IMEI exactly when the
  stream starts with a two-byte length of 15 to 17 and that many ASCII digits; the IMEI
  returned is those digits.
\<close>

lemma teltonika_Authenticate_accepts_iff:
  assumes "wres c = []"
  shows "fst (teltonika_Authenticate c) = Ok imei \<longleftrightarrow>
    (\<exists>rest. pending c = put_be 2 (length imei) @ bytes_of imei @ rest) \<and>
    15 \<le> length imei \<and> length imei \<le> 17 \<and> list_all is_digit imei"
proof
  assume "fst (teltonika_Authenticate c) = Ok imei"
  then obtain c0 where "teltonika_Authenticate c = (Ok imei, c0)" by (metis prod.collapse)
  then obtain n c1 b c2 where
    r1: "read_uint 2 c = (Ok n, c1)" and n: "15 \<le> n" "n \<le> 17" and
    r2: "ReadFull n c1 = (Ok b, c2)" and imei: "imei = string_of b" "list_all is_digit imei"
    by (auto simp: teltonika_Authenticate_def lift_io_def ret_io_def Let_def elim!: bind_io_OkE split: if_splits)
  note p1 = read_uint_OkD [OF r1] and p2 = ReadFull_OkD [OF r2]
  have "put_be 2 n = take 2 (pending c)"
    using p1 put_be_be_nat [of "take 2 (pending c)"] by (simp add: min.absorb2)
  then have "pending c = put_be 2 n @ b @ pending c2"
    using p1 p2 by (metis append_take_drop_id)
  moreover have "length b = n" using p2 by blast
  then have "length imei = n" using imei by simp
  ultimately show "(\<exists>rest. pending c = put_be 2 (length imei) @ bytes_of imei @ rest) \<and>
    15 \<le> length imei \<and> length imei \<le> 17 \<and> list_all is_digit imei"
    using imei n by auto
next
  assume r: "(\<exists>rest. pending c = put_be 2 (length imei) @ bytes_of imei @ rest) \<and>
    15 \<le> length imei \<and> length imei \<le> 17 \<and> list_all is_digit imei"
  then obtain rest where p: "pending c = put_be 2 (length imei) @ bytes_of imei @ rest" by blast
  from Authenticate_on_login [OF p] r assms show "fst (teltonika_Authenticate c) = Ok imei" by auto
qed

lemma teltonika_Authenticate_accepts_iff_witness:
  "fst (teltonika_Authenticate (sample_conn (put_be 2 15 @ bytes_of ''352093081452246''))) =
   Ok ''352093081452246''"
proof -
  have len: "length ''352093081452246'' = 15" by simp
  have "wres (sample_conn b) = []" for b by (simp add: sample_conn_def)
  moreover have "list_all is_digit ''352093081452246''" by (simp add: is_digit_def)
  moreover have "\<exists>rest. pending (sample_conn (put_be 2 15 @ bytes_of ''352093081452246'')) =
      put_be 2 (length ''352093081452246'') @ bytes_of ''352093081452246'' @ rest"
    by (rule exI [of _ "[]"]) (simp only: pending_sample len append_Nil2)
  ultimately show ?thesis
    by (subst teltonika_Authenticate_accepts_iff) (simp_all only: len, simp_all)
qed

text \<open>
  The handshake writes the single byte 0x01 when it succeeds and nothing otherwise: a
  peer that is refused is never acknowledged.
\<close>

lemma teltonika_Authenticate_writes:
  "outp (snd (teltonika_Authenticate c)) =
   outp c @ (if is_Ok (fst (teltonika_Authenticate c)) then [0x01] else [])"
proof (cases "read_uint 2 c")
  case r1: (Pair o1 c1)
  have p1: "outp c1 = outp c" using read_uint_outp [OF r1] by simp
  have p2: "outp (snd (ReadFull n c1)) = outp c" for n
    using ReadFull_outp [of n c1 "fst (ReadFull n c1)" "snd (ReadFull n c1)"] p1 by simp
  show ?thesis
    by (auto simp: teltonika_Authenticate_def bind_io_def wrap_io_def lift_io_def ret_io_def Let_def Write_def
        r1 p1 split: prod.splits outcome.splits if_splits list.splits option.splits)
      (use p2 in \<open>metis snd_conv\<close>)+
qed

end
