(* ===== verification/Go_Time.thy ===== *)
theory Go_Time
  imports Prelude
begin

text \<open>
  \<open>time.Date(year, month, day, hour, min, sec, 0, time.UTC).UnixMilli()\<close>: the proleptic
  Gregorian calendar with the normalisation Go documents (a month outside 1..12 carries
  into the year, any other field out of range carries upwards).
\<close>

definition is_leap :: "int \<Rightarrow> bool" where
  "is_leap y \<longleftrightarrow> 4 dvd y \<and> (\<not> 100 dvd y \<or> 400 dvd y)"

text \<open>Days from 0000-03-01 to March 1st of a year that starts in March.\<close>

definition year_days :: "int \<Rightarrow> int" where
  "year_days y = 365 * y + y div 4 - y div 100 + y div 400"

text \<open>Days from March 1st to the first of the \<open>m\<close>-th month after it (0 is March).\<close>

definition month_days :: "int \<Rightarrow> int" where
  "month_days m = (153 * m + 2) div 5"

text \<open>Days from 1970-01-01 to the first of a month (1..12) of a year.\<close>

definition days_to_month :: "int \<Rightarrow> int \<Rightarrow> int" where
  "days_to_month y m =
     (if m \<le> 2 then year_days (y - 1) + month_days (m + 9)
      else year_days y + month_days (m - 3)) - 719468"

definition DateUnixMilli :: "int \<Rightarrow> int \<Rightarrow> int \<Rightarrow> int \<Rightarrow> int \<Rightarrow> int \<Rightarrow> int" where
  "DateUnixMilli year month day hour minute sec =
     (let y = year + (month - 1) div 12; m = (month - 1) mod 12 + 1;
          days = days_to_month y m + (day - 1)
      in ((days * 24 + hour) * 60 + minute) * 60 * 1000 + sec * 1000)"

text \<open>The calendar the arithmetic stands for: month lengths, and how dates advance.\<close>

definition days_in_month :: "int \<Rightarrow> int \<Rightarrow> int" where
  "days_in_month y m =
     (if m = 2 then (if is_leap y then 29 else 28)
      else if m \<in> {4, 6, 9, 11} then 30 else 31)"

lemma epoch [simp]: "DateUnixMilli 1970 1 1 0 0 0 = 0"
  by (simp add: DateUnixMilli_def days_to_month_def year_days_def month_days_def)

text \<open>The first of the next month is as many days later as the month has.\<close>

lemma leap_div:
  "year_days y - year_days (y - 1) = (if is_leap y then 366 else 365)"
proof -
  have d: "y div k - (y - 1) div k = (if k dvd y then 1 else 0)" if "0 < k" for k :: int
  proof (cases "k dvd y")
    case True
    then obtain q where "y = k * q" by (elim dvdE)
    moreover have "(k * q - 1) div k = q - 1"
      by (rule int_div_pos_eq [where r = "k - 1"]) (use that in \<open>auto simp: algebra_simps\<close>)
    ultimately show ?thesis using that by simp
  next
    case False
    then have "y mod k \<noteq> 0" by (simp add: dvd_eq_mod_eq_0)
    then have "0 \<le> y mod k - 1" "y mod k - 1 < k"
      using that pos_mod_bound [of k y] pos_mod_sign [of k y] by linarith+
    moreover have "y - 1 = k * (y div k) + (y mod k - 1)" by simp
    ultimately have "(y - 1) div k = y div k" by (intro int_div_pos_eq) auto
    then show ?thesis using False by simp
  qed
  have sum: "365 * y + a - b + c - (365 * (y - 1) + a' - b' + c') = 365 + i - j + k"
    if "a - a' = i" "b - b' = j" "c - c' = k" for a a' b b' c c' i j k :: int
    using that by simp
  have "year_days y - year_days (y - 1) =
      365 + (if 4 dvd y then 1 else 0) - (if 100 dvd y then 1 else 0) + (if 400 dvd y then 1 else 0)"
    unfolding year_days_def by (rule sum; rule d) simp_all
  moreover have "100 dvd y \<longrightarrow> 4 dvd y" "400 dvd y \<longrightarrow> 100 dvd y"
    using dvd_trans [of 4 100 y] dvd_trans [of 100 400 y] by simp_all
  ultimately show ?thesis
    unfolding is_leap_def
    by (cases "4 dvd y"; cases "100 dvd y"; cases "400 dvd y"; simp only: if_True if_False simp_thms)
qed

lemma days_to_month_next:
  assumes "1 \<le> m" "m < 12"
  shows "days_to_month y (m + 1) = days_to_month y m + days_in_month y m"
proof -
  from assms have "m \<in> {1, 2, 3, 4, 5, 6, 7, 8, 9, 10, 11}" by (simp; presburger)
  then show ?thesis
    using leap_div [of y] by (auto simp: days_to_month_def month_days_def days_in_month_def)
qed

lemma days_to_month_next_year: "days_to_month (y + 1) 1 = days_to_month y 12 + 31"
  by (simp add: days_to_month_def month_days_def)

end
