(* ===== verification/Gt06.thy ===== *)
theory Gt06
  imports Protocol Conn Crc Go_Float Go_Time
begin

unbundle bit_operations_syntax

text \<open>
  The GT06 handler (\<open>protocols/gt06/handler.go\<close>): the checksum, the packet reader, the
  GPS and alarm decoders, the response builder, the BCD IMEI, the login and the packet
  dispatch. Every slice expression carries the run-time bounds check, so the inputs that
  stop the goroutine with a panic are outcomes of the model.
\<close>

section \<open>CRC-16/CCITT\<close>

definition ccitt_bit :: "u16 \<Rightarrow> u16" where
  "ccitt_bit crc = (if crc AND 0x8000 \<noteq> 0 then push_bit 1 crc XOR 0x1021 else push_bit 1 crc)"

definition ccitt_load :: "byte \<Rightarrow> u16" where
  "ccitt_load b = push_bit 8 (ucast b)"

definition crc16CCITT :: "bytes \<Rightarrow> u16" where
  "crc16CCITT data = foldl (\<lambda>crc b. (ccitt_bit ^^ 8) (crc XOR ccitt_load b)) 0xFFFF data"

section \<open>Packets\<close>

definition startByte1 :: byte where "startByte1 = 0x78"
definition startByte2 :: byte where "startByte2 = 0x78"
definition protoLogin :: byte where "protoLogin = 0x01"
definition protoGPSSingle :: byte where "protoGPSSingle = 0x12"
definition protoHeartbeat :: byte where "protoHeartbeat = 0x23"
definition protoAlarm :: byte where "protoAlarm = 0x26"

lemmas gt06_consts = startByte1_def startByte2_def protoLogin_def protoGPSSingle_def
  protoHeartbeat_def protoAlarm_def

definition gt06_Detect :: "bytes \<Rightarrow> bool" where
  "gt06_Detect header =
     (if length header < 2 then False else header ! 0 = startByte1 \<and> header ! 1 = startByte2)"

record gt06Packet =
  proto :: byte
  info :: bytes
  serial :: u16
  raw :: bytes

text \<open>
  What \<open>readPacket\<close> does once the body and the stop bytes are there. The bound
  \<open>len(body)-4\<close> is negative for a body of less than four bytes, which panics.
\<close>

definition gt06_check :: "byte \<Rightarrow> bytes \<Rightarrow> bytes \<Rightarrow> (goerr, gt06Packet) outcome" where
  "gt06_check length' body stop =
     bind_o (if length body < 4 then Panic else slice body 0 (length body - 4)) (\<lambda>crcData.
     bind_o (bind_o (slice body (length body - 4) (length body - 2)) (\<lambda>b. uint_at 2 b 0)) (\<lambda>expectedCRC.
     if (word_of_nat expectedCRC :: u16) \<noteq> crc16CCITT crcData then Err (Errorf ''gt06 CRC mismatch'')
     else bind_o (idx body 0) (\<lambda>p.
       bind_o (slice body 1 (length body - 4)) (\<lambda>inf0.
       bind_o (bind_o (slice body (length body - 4) (length body - 2)) (\<lambda>b. uint_at 2 b 0)) (\<lambda>ser.
         Ok \<lparr>proto = p, info = inf0, serial = word_of_nat ser,
             raw = [startByte1, startByte2, length'] @ body @ stop\<rparr>)))))"

definition gt06_readPacket :: "(goerr, gt06Packet) io" where
  "gt06_readPacket =
     bind_io (wrap_io (Wrapf ''gt06 start'') (ReadFull 2)) (\<lambda>start.
     bind_io (lift_io (idx start 0)) (\<lambda>s0. bind_io (lift_io (idx start 1)) (\<lambda>s1.
     if s0 \<noteq> startByte1 \<or> s1 \<noteq> startByte2 then lift_io (Err (Errorf ''gt06 bad start''))
     else bind_io (wrap_io (Wrapf ''gt06 length'') (read_uint 1)) (\<lambda>len.
       bind_io (wrap_io (Wrapf ''gt06 body'') (ReadFull len)) (\<lambda>body.
       bind_io (wrap_io (Wrapf ''gt06 stop'') (ReadFull 2)) (\<lambda>stop.
         lift_io (gt06_check (word_of_nat len) body stop)))))))"

text \<open>A coordinate: the unsigned raw value over 1800000, negated when its hemisphere bit is clear.\<close>

definition gt06_coord :: "nat \<Rightarrow> bool \<Rightarrow> f64" where
  "gt06_coord raw' positive =
     (let v = f64_div_const (f64_of_int (int raw')) 1800000 in if positive then v else f64_neg v)"

definition parseGPS :: "bytes \<Rightarrow> (goerr, ParsedRecord) outcome" where
  "parseGPS inf0 =
     (if length inf0 < 12 then Err (Errorf ''gt06 GPS info too short'')
      else
      bind_o (idx inf0 0) (\<lambda>yy. bind_o (idx inf0 1) (\<lambda>month. bind_o (idx inf0 2) (\<lambda>day.
      bind_o (idx inf0 3) (\<lambda>hour. bind_o (idx inf0 4) (\<lambda>min. bind_o (idx inf0 5) (\<lambda>sec.
      let ts = DateUnixMilli (2000 + uint yy) (uint month) (uint day) (uint hour) (uint min) (uint sec) in
      bind_o (idx inf0 6) (\<lambda>gpsInfoLen.
      if length inf0 < 7 + unat gpsInfoLen then Err (Errorf ''gt06 GPS data truncated'')
      else
      bind_o (idx inf0 7) (\<lambda>satAndFix.
      bind_o (uint_at 4 inf0 8) (\<lambda>latRaw.
      bind_o (uint_at 4 inf0 12) (\<lambda>lngRaw.
      bind_o (idx inf0 16) (\<lambda>speed.
      bind_o (uint_at 2 inf0 17) (\<lambda>course.
      let courseRaw = (word_of_nat course :: u16) in
        Ok (zero_record\<lparr>Timestamp := ts,
              Lat := gt06_coord latRaw (drop_bit 11 courseRaw AND 1 \<noteq> 0),
              Lng := gt06_coord lngRaw (drop_bit 10 courseRaw AND 1 \<noteq> 0),
              Speed := ucast speed, Heading := courseRaw AND 0x03FF,
              Satellites := drop_bit 4 satAndFix AND 0x0F,
              Valid := 0 < satAndFix AND 0x0F, RawCodec := 0, IOData := Map.empty\<rparr>))))))))))))))"

definition parseAlarm :: "bytes \<Rightarrow> (goerr, ParsedRecord) outcome" where
  "parseAlarm inf0 = bind_o (parseGPS inf0) (\<lambda>rec. Ok (rec\<lparr>IOData := (IOData rec)(236 \<mapsto> 1)\<rparr>))"

definition buildResponse :: "byte \<Rightarrow> u16 \<Rightarrow> bytes \<Rightarrow> bytes" where
  "buildResponse p ser data =
     (let length' = word_of_nat (5 + length data);
          body = [p] @ data @ [ucast (drop_bit 8 ser), ucast ser];
          crc = crc16CCITT body
      in [startByte1, startByte2, length'] @ (body @ [ucast (drop_bit 8 crc), ucast crc]) @ [0x0D, 0x0A])"

text \<open>The \<open>'0' + hi\<close> of the source is byte arithmetic; a nibble above nine is skipped.\<close>

fun decodeBCDIMEI :: "bytes \<Rightarrow> string" where
  "decodeBCDIMEI [] = []"
| "decodeBCDIMEI (v # b) =
     (let hi = drop_bit 4 v AND 0x0F; lo = v AND 0x0F in
      (if hi \<le> 9 then string_of [48 + hi] else []) @ (if lo \<le> 9 then string_of [48 + lo] else []) @
      decodeBCDIMEI b)"

definition gt06_Authenticate :: "(goerr, string) io" where
  "gt06_Authenticate =
     bind_io (wrap_io (Wrapf ''gt06 auth read packet'') gt06_readPacket) (\<lambda>pkt.
     if proto pkt \<noteq> protoLogin then lift_io (Err (Errorf ''gt06: expected login packet (0x01)''))
     else if length (info pkt) < 8 then lift_io (Err (Errorf ''gt06: login info too short''))
     else bind_io (lift_io (slice (info pkt) 0 8)) (\<lambda>b.
       let imei = decodeBCDIMEI b in
       bind_io (wrap_io (Wrapf ''gt06: send login ack'') (Write (buildResponse protoLogin (serial pkt) []))) (\<lambda>_.
         ret_io imei)))"

definition gt06_ParsePacket :: parse_io where
  "gt06_ParsePacket =
     bind_io (wrap_io (\<lambda>e. (e, [])) gt06_readPacket) (\<lambda>pkt.
     if proto pkt = protoGPSSingle then
       bind_io (lift_io (map_err (\<lambda>e. (e, raw pkt)) (parseGPS (info pkt)))) (\<lambda>rec.
       bind_io (write_discard (buildResponse protoGPSSingle (serial pkt) [])) (\<lambda>_.
         ret_io ([rec], raw pkt)))
     else if proto pkt = protoHeartbeat then
       bind_io (write_discard (buildResponse protoHeartbeat (serial pkt) [])) (\<lambda>_.
         ret_io ([], raw pkt))
     else if proto pkt = protoAlarm then
       bind_io (lift_io (map_err (\<lambda>e. (e, raw pkt)) (parseAlarm (info pkt)))) (\<lambda>rec.
       bind_io (write_discard (buildResponse protoAlarm (serial pkt) [])) (\<lambda>_.
         ret_io ([rec], raw pkt)))
     else ret_io ([], raw pkt))"

definition gt06_BuildACK :: "bytes \<Rightarrow> (goerr, bytes) outcome" where
  "gt06_BuildACK packet = Ok []"

definition gt06_handler :: handler where
  "gt06_handler = \<lparr>Name = ''gt06'', Detect = gt06_Detect, Authenticate = gt06_Authenticate,
     ParsePacket = gt06_ParsePacket, BuildACK = gt06_BuildACK\<rparr>"

section \<open>The checksum\<close>

lemma bit_1021: "bit (0x1021 :: u16) n \<longleftrightarrow> n \<in> {0, 5, 12}"
proof (cases "n < 16")
  case True
  have "list_all (\<lambda>n. bit (0x1021 :: u16) n \<longleftrightarrow> n \<in> {0, 5, 12}) [0..<16]" by code_simp
  with True show ?thesis by (simp add: list_all_iff)
next
  case False
  then show ?thesis by auto
qed

lemma and_8000_iff: "(x :: u16) AND 0x8000 \<noteq> 0 \<longleftrightarrow> bit x 15"
proof -
  have "list_all (\<lambda>n. bit (0x8000 :: u16) n \<longleftrightarrow> n = 15) [0..<16]" by code_simp
  then have b: "n < 16 \<Longrightarrow> bit (0x8000 :: u16) n \<longleftrightarrow> n = 15" for n by (simp add: list_all_iff)
  show ?thesis
  proof
    assume "bit x 15"
    then have "bit (x AND 0x8000) 15" using b [of 15] by (simp add: bit_and_iff)
    then show "x AND 0x8000 \<noteq> 0" by auto
  next
    assume "x AND 0x8000 \<noteq> 0"
    then obtain n where "bit (x AND 0x8000) n" by (metis bit_eqI bit_0_eq bot_apply bot_bool_def)
    then show "bit x 15" using b [of n] bit_imp_le_length [of x n] by (auto simp: bit_and_iff)
  qed
qed

lemma bit_ccitt_bit:
  "bit (ccitt_bit x) n \<longleftrightarrow> n < 16 \<and> ((1 \<le> n \<and> bit x (n - 1)) \<noteq> (bit x 15 \<and> n \<in> {0, 5, 12}))"
proof -
  have len: "LENGTH(16) = 16" by simp
  show ?thesis
    by (auto simp only: ccitt_bit_def and_8000_iff bit_xor_iff bit_1021 bit_push_bit_iff possible_bit_word len
        split: if_splits)
qed

lemma ccitt_bit_xor: "ccitt_bit (x XOR y) = ccitt_bit x XOR ccitt_bit y"
  by (rule bit_word_eqI) (auto simp: bit_ccitt_bit bit_xor_iff)

text \<open>A step whose result has a clear lowest bit was a plain shift.\<close>

lemma ccitt_bit_shift:
  assumes "\<not> bit (ccitt_bit z) 0"
  shows "bit z n \<longleftrightarrow> n < 15 \<and> bit (ccitt_bit z) (Suc n)"
proof -
  have "\<not> bit z 15" using assms by (simp add: bit_ccitt_bit)
  then have "bit z n \<Longrightarrow> n < 15" using bit_imp_le_length [of z n] by (cases "n = 15") auto
  with \<open>\<not> bit z 15\<close> show ?thesis by (auto simp: bit_ccitt_bit)
qed

lemma ccitt_bits_shift:
  "(\<And>n. n < k \<Longrightarrow> \<not> bit ((ccitt_bit ^^ k) z) n) \<Longrightarrow>
   bit z n \<longleftrightarrow> n + k < 16 \<and> bit ((ccitt_bit ^^ k) z) (n + k)"
proof (induction k arbitrary: n)
  case 0
  then show ?case using bit_imp_le_length [of z n] by auto
next
  case (Suc k)
  let ?w = "(ccitt_bit ^^ k) z"
  have "\<not> bit (ccitt_bit ?w) 0" using Suc.prems [of 0] by simp
  note w = ccitt_bit_shift [OF this]
  have "\<not> bit ?w m" if "m < k" for m
    using w [of m] Suc.prems [of "Suc m"] that by auto
  then have "bit z n \<longleftrightarrow> n + k < 16 \<and> bit ?w (n + k)" by (rule Suc.IH)
  then show ?case using w [of "n + k"] by auto
qed

lemma bit_ccitt_load: "bit (ccitt_load a) n \<longleftrightarrow> 8 \<le> n \<and> bit a (n - 8)"
proof -
  have "bit a (n - 8) \<Longrightarrow> n - 8 < 8" using bit_imp_le_length [of a "n - 8"] by simp
  then show ?thesis by (auto simp: ccitt_load_def bit_push_bit_iff possible_bit_word bit_ucast_iff)
qed

lemma ccitt_load_moves:
  assumes "(ccitt_bit ^^ 8) (ccitt_load a) = ccitt_load b"
  shows "a = 0"
proof (rule bit_word_eqI)
  fix n
  have "bit (ccitt_load a) m \<longleftrightarrow> m + 8 < 16 \<and> bit (ccitt_load b) (m + 8)" for m
    using ccitt_bits_shift [of 8 "ccitt_load a" m] assms by (simp add: bit_ccitt_load)
  from this [of "n + 8"] show "bit a n \<longleftrightarrow> bit 0 n" by (simp add: bit_ccitt_load)
qed

interpretation ccitt: crc16 ccitt_bit ccitt_load
proof unfold_locales
  fix x y :: u16 and a b :: byte
  show "ccitt_bit (x XOR y) = ccitt_bit x XOR ccitt_bit y" by (rule ccitt_bit_xor)
  show "x = 0" if "ccitt_bit x = 0"
    using ccitt_bit_shift [of x] that by (intro u16_zeroI) simp
  show "ccitt_load (a XOR b) = ccitt_load a XOR ccitt_load b"
    by (rule bit_word_eqI) (auto simp: bit_ccitt_load bit_xor_iff)
  show "a = 0" if "ccitt_load a = 0"
  proof (rule bit_word_eqI)
    fix n
    show "bit a n \<longleftrightarrow> bit 0 n" using bit_ccitt_load [of a "n + 8"] that by simp
  qed
  show "a = 0" if "(ccitt_bit ^^ 8) (ccitt_load a) = ccitt_load b"
    using that by (rule ccitt_load_moves)
qed

lemma crc16CCITT_run: "crc16CCITT data = ccitt.run 0xFFFF data"
  unfolding crc16CCITT_def ccitt.run_def
  by (rule arg_cong [where f = "\<lambda>f. foldl f 0xFFFF data"]) (simp add: ccitt.step_def fun_eq_iff)

section \<open>The packet reader\<close>

text \<open>
  What the reader makes of a stream that holds a start, a length byte, as many body bytes
  and two stop bytes: the checks of \<open>gt06_check\<close>, and the rest is left.
\<close>

lemma readPacket_on_frame:
  assumes "pending c = [0x78, 0x78] @ [word_of_nat (length body)] @ body @ stop @ rest"
    "length body < 256" "length stop = 2"
  shows "\<exists>c'. gt06_readPacket c = (gt06_check (word_of_nat (length body)) body stop, c') \<and>
     pending c' = rest \<and> wres c' = wres c \<and> outp c' = outp c"
proof -
  have two: "length [0x78, 0x78 :: byte] = 2" by simp
  from ReadFull_append [OF assms(1)] obtain c1 where
    c1: "ReadFull 2 c = (Ok [0x78, 0x78], c1)" "pending c1 = [word_of_nat (length body)] @ body @ stop @ rest"
      "wres c1 = wres c" "outp c1 = outp c" unfolding two by blast
  from c1(2) have "pending c1 = put_be 1 (length body) @ body @ stop @ rest" by simp
  from read_uint_append [OF this] assms(2) obtain c2 where
    c2: "read_uint 1 c1 = (Ok (length body), c2)" "pending c2 = body @ stop @ rest"
      "wres c2 = wres c1" "outp c2 = outp c1" by auto
  from ReadFull_append [OF c2(2)] obtain c3 where
    c3: "ReadFull (length body) c2 = (Ok body, c3)" "pending c3 = stop @ rest"
      "wres c3 = wres c2" "outp c3 = outp c2" by auto
  from ReadFull_append [OF c3(2)] assms(3) obtain c4 where
    c4: "ReadFull 2 c3 = (Ok stop, c4)" "pending c4 = rest" "wres c4 = wres c3" "outp c4 = outp c3" by auto
  have "gt06_readPacket c = (gt06_check (word_of_nat (length body)) body stop, c4)"
    by (simp add: gt06_readPacket_def bind_wrap_Ok [of "ReadFull 2" c, OF c1(1)] gt06_consts
        bind_wrap_Ok [of "read_uint 1" c1, OF c2(1)] bind_wrap_Ok [of "ReadFull (length body)" c2, OF c3(1)]
        bind_wrap_Ok [of "ReadFull 2" c3, OF c4(1)] bind_io_def [of "lift_io _"] lift_io_def idx_def
        del: One_nat_def)
  with c1 c2 c3 c4 show ?thesis by auto
qed

text \<open>Conversely the reader gets as far as the checks only on such a stream.\<close>

lemma readPacket_reaches_check:
  assumes "gt06_readPacket c = (r, c')" "is_Ok r \<or> r = Panic"
  shows "\<exists>body stop. pending c = [0x78, 0x78] @ [word_of_nat (length body)] @ body @ stop @ pending c' \<and>
     length body < 256 \<and> length stop = 2 \<and> r = gt06_check (word_of_nat (length body)) body stop"
proof -
  have noerr: "\<not> (\<exists>e. r = Err e)" using assms(2) by auto
  from assms(1) obtain start c1 where r1: "ReadFull 2 c = (Ok start, c1)" and
    k1: "bind_io (lift_io (idx start 0)) (\<lambda>s0. bind_io (lift_io (idx start 1)) (\<lambda>s1.
     if s0 \<noteq> startByte1 \<or> s1 \<noteq> startByte2 then lift_io (Err (Errorf ''gt06 bad start''))
     else bind_io (wrap_io (Wrapf ''gt06 length'') (read_uint 1)) (\<lambda>len.
       bind_io (wrap_io (Wrapf ''gt06 body'') (ReadFull len)) (\<lambda>body.
       bind_io (wrap_io (Wrapf ''gt06 stop'') (ReadFull 2)) (\<lambda>stop.
         lift_io (gt06_check (word_of_nat len) body stop)))))) c1 = (r, c')"
    unfolding gt06_readPacket_def by (rule bind_wrap_reachesE [OF _ noerr ReadFull_not_Panic])
  note p1 = ReadFull_OkD [OF r1]
  have "length start = 2" using p1 by blast
  then obtain s0 s1 where s: "start = [s0, s1]" by (auto simp: numeral_2_eq_2 length_Suc_conv)
  have s01: "s0 = 0x78" "s1 = 0x78"
    using k1 noerr by (auto simp: s idx_def bind_io_def [of "lift_io _"] lift_io_def gt06_consts split: if_splits)
  from k1 have "bind_io (wrap_io (Wrapf ''gt06 length'') (read_uint 1)) (\<lambda>len.
       bind_io (wrap_io (Wrapf ''gt06 body'') (ReadFull len)) (\<lambda>body.
       bind_io (wrap_io (Wrapf ''gt06 stop'') (ReadFull 2)) (\<lambda>stop.
         lift_io (gt06_check (word_of_nat len) body stop)))) c1 = (r, c')"
    by (simp add: s s01 idx_def bind_io_def [of "lift_io _"] lift_io_def gt06_consts)
  then obtain len c2 where r2: "read_uint 1 c1 = (Ok len, c2)" and
    k2: "bind_io (wrap_io (Wrapf ''gt06 body'') (ReadFull len)) (\<lambda>body.
       bind_io (wrap_io (Wrapf ''gt06 stop'') (ReadFull 2)) (\<lambda>stop.
         lift_io (gt06_check (word_of_nat len) body stop))) c2 = (r, c')"
    by (rule bind_wrap_reachesE [OF _ noerr read_uint_not_Panic])
  note p2 = read_uint_OkD [OF r2]
  from k2 obtain body c3 where r3: "ReadFull len c2 = (Ok body, c3)" and
    k3: "bind_io (wrap_io (Wrapf ''gt06 stop'') (ReadFull 2)) (\<lambda>stop.
         lift_io (gt06_check (word_of_nat len) body stop)) c3 = (r, c')"
    by (rule bind_wrap_reachesE [OF _ noerr ReadFull_not_Panic])
  note p3 = ReadFull_OkD [OF r3]
  from k3 obtain stop c4 where r4: "ReadFull 2 c3 = (Ok stop, c4)" and
    k4: "lift_io (gt06_check (word_of_nat len) body stop) c4 = (r, c')"
    by (rule bind_wrap_reachesE [OF _ noerr ReadFull_not_Panic])
  note p4 = ReadFull_OkD [OF r4]
  have res: "r = gt06_check (word_of_nat len) body stop" "c' = c4" using k4 by (auto simp: lift_io_def)
  have lb: "length body = len" "length stop = 2" using p3 p4 by blast+
  have "take 1 (pending c1) = put_be 1 len"
    using p2 put_be_be_nat [of "take 1 (pending c1)"] by (simp add: min.absorb2)
  then have "pending c1 = put_be 1 len @ pending c2" using p2 by (metis append_take_drop_id)
  moreover have "pending c2 = body @ pending c3" using p3 by (metis append_take_drop_id)
  moreover have "pending c3 = stop @ pending c4" using p4 by (metis append_take_drop_id)
  moreover have "pending c = [0x78, 0x78] @ pending c1" using p1 s s01 by (metis append_take_drop_id)
  moreover have "len < 256" using p2 be_nat_bound [of "take 1 (pending c1)"] by (simp add: min.absorb2)
  ultimately show ?thesis using res lb by auto
qed

lemma gt06_check_def':
  assumes "4 \<le> length body"
  shows "gt06_check n body stop =
    (let crcData = take (length body - 4) body; expected = take 2 (drop (length body - 4) body) in
     if (word_of_nat (be_nat expected) :: u16) \<noteq> crc16CCITT crcData then Err (Errorf ''gt06 CRC mismatch'')
     else if length body = 4 then Panic
     else Ok \<lparr>proto = body ! 0, info = take (length body - 5) (drop 1 body),
              serial = word_of_nat (be_nat expected), raw = [0x78, 0x78, n] @ body @ stop\<rparr>)"
proof -
  have s: "length body - 2 - (length body - 4) = 2" "length body - 4 - 1 = length body - 5" using assms by auto
  show ?thesis using assms
    by (auto simp: gt06_check_def slice_def uint_at_def idx_def Let_def s gt06_consts)
qed

lemma gt06_check_panics_iff:
  "gt06_check n body stop = Panic \<longleftrightarrow>
   length body < 4 \<or> length body = 4 \<and> body ! 0 = 0xFF \<and> body ! 1 = 0xFF"
proof (cases "4 \<le> length body")
  case False
  then show ?thesis by (simp add: gt06_check_def)
next
  case True
  show ?thesis
  proof (cases "length body = 4")
    case four: True
    then obtain a b x y where body: "body = [a, b, x, y]"
      by (auto simp: numeral_eq_Suc length_Suc_conv)
    have w: "k < 65536 \<Longrightarrow> (word_of_nat k :: u16) = 0xFFFF \<longleftrightarrow> k = 0xFFFF" for k
      by (simp add: word_unat_eq_iff unat_of_nat)
    have "(word_of_nat (be_nat [a, b]) :: u16) = 0xFFFF \<longleftrightarrow> be_nat [a, b] = 0xFFFF"
      by (rule w) (use be_nat_bound [of "[a, b]"] in simp)
    also have "\<dots> \<longleftrightarrow> unat a = 255 \<and> unat b = 255"
      using unat_byte [of a] unat_byte [of b] by (simp del: unat_byte) arith
    also have "\<dots> \<longleftrightarrow> a = 0xFF \<and> b = 0xFF" by (simp add: word_unat_eq_iff)
    finally show ?thesis
      by (auto simp: gt06_check_def' Let_def body crc16CCITT_def)
  next
    case False
    then show ?thesis using True by (simp add: gt06_check_def' Let_def)
  qed
qed

lemma parseGPS_panics_iff:
  "parseGPS i = Panic \<longleftrightarrow> 12 \<le> length i \<and> length i < 19 \<and> 7 + unat (i ! 6) \<le> length i"
  by (auto simp: parseGPS_def bind_o_Panic_iff Let_def idx_def [of i] uint_at_def [of _ i] split: if_splits)

lemma parseAlarm_panics_iff: "parseAlarm i = Panic \<longleftrightarrow> parseGPS i = Panic"
  by (auto simp: parseAlarm_def bind_o_Panic_iff)

lemma quiet_readPacket: "quiet gt06_readPacket"
  unfolding gt06_readPacket_def by (intro quiet_intros)

section \<open>Specification of the GT06 layout\<close>

text \<open>
  The packet layout the file's own header comment gives: start, length, protocol number,
  information, serial number, checksum, stop.
\<close>

definition gt06_frame :: "byte \<Rightarrow> bytes \<Rightarrow> u16 \<Rightarrow> u16 \<Rightarrow> bytes" where
  "gt06_frame p inf0 ser crc = [0x78, 0x78] @ [word_of_nat (5 + length inf0)] @
     ([p] @ inf0 @ put_be 2 (unat ser) @ put_be 2 (unat crc)) @ [0x0D, 0x0A]"

lemma two_bytes: "[ucast (drop_bit 8 w), ucast (w :: u16)] = put_be 2 (unat w)"
proof -
  have u: "(ucast v :: byte) = word_of_nat (unat v)" for v :: u16 by (simp add: word_unat_eq_iff)
  have "(ucast (drop_bit 8 w) :: byte) = word_of_nat (unat w div 256)"
    using u [of "drop_bit 8 w"] by (simp only: unat_drop_bit_eq) (simp add: drop_bit_eq_div)
  moreover have "(ucast w :: byte) = word_of_nat (unat w)" by (rule u)
  ultimately show ?thesis by (simp add: numeral_2_eq_2)
qed

text \<open>The builder of responses follows that layout: its checksum covers everything before it.\<close>

lemma buildResponse_frame:
  "buildResponse p ser data = gt06_frame p data ser (crc16CCITT ([p] @ data @ put_be 2 (unat ser)))"
  by (simp add: buildResponse_def gt06_frame_def Let_def two_bytes gt06_consts)

lemma u16_mod [simp]: "unat (w :: u16) mod 65536 = unat w"
  using unsigned_less [where 'a = nat, of w] by simp

lemma gt06_check_frame:
  "gt06_check n ([p] @ inf0 @ put_be 2 (unat ser) @ put_be 2 (unat crc)) stop =
    (if ser = crc16CCITT (p # inf0)
     then Ok \<lparr>proto = p, info = inf0, serial = ser,
       raw = [0x78, 0x78, n] @ ([p] @ inf0 @ put_be 2 (unat ser) @ put_be 2 (unat crc)) @ stop\<rparr>
     else Err (Errorf ''gt06 CRC mismatch''))"
proof -
  let ?b = "[p] @ inf0 @ put_be 2 (unat ser) @ put_be 2 (unat crc)"
  have len: "length ?b = 5 + length inf0" by simp
  have t: "take (length ?b - 4) ?b = p # inf0" "take 2 (drop (length ?b - 4) ?b) = put_be 2 (unat ser)"
    "take (length ?b - 5) (drop 1 ?b) = inf0" "?b ! 0 = p"
    unfolding len by simp_all
  have "4 \<le> length ?b" "length ?b \<noteq> 4" unfolding len by simp_all
  then show ?thesis unfolding gt06_check_def' [OF \<open>4 \<le> length ?b\<close>] t Let_def by auto
qed

text \<open>
  C18: on a packet in the documented layout the reader compares the checksum of protocol
  number and information with the serial number field and never looks at the checksum
  field: the packet is accepted exactly when its serial number happens to be that
  checksum, and is otherwise rejected as corrupt, whatever its checksum field holds.
\<close>

theorem gt06_documented_frame_accepted_iff:
  assumes "pending c = gt06_frame p inf0 ser crc @ rest" "length inf0 \<le> 250"
  shows "fst (gt06_readPacket c) =
    (if ser = crc16CCITT (p # inf0)
     then Ok \<lparr>proto = p, info = inf0, serial = ser, raw = gt06_frame p inf0 ser crc\<rparr>
     else Err (Errorf ''gt06 CRC mismatch''))"
proof -
  let ?b = "[p] @ inf0 @ put_be 2 (unat ser) @ put_be 2 (unat crc)"
  have len: "length ?b = 5 + length inf0" by simp
  have "pending c = [0x78, 0x78] @ [word_of_nat (length ?b)] @ ?b @ [0x0D, 0x0A] @ rest"
    unfolding assms(1) gt06_frame_def len by simp
  from readPacket_on_frame [OF this] assms(2) have
    "fst (gt06_readPacket c) = gt06_check (word_of_nat (length ?b)) ?b [0x0D, 0x0A]" by auto
  then show ?thesis unfolding gt06_check_frame len by (simp add: gt06_frame_def)
qed

theorem gt06_documented_frame_accepted_iff_witness:
  "fst (gt06_readPacket (sample_conn (buildResponse protoHeartbeat 1 []))) =
   Err (Errorf ''gt06 CRC mismatch'')"
proof -
  have "(1 :: u16) \<noteq> crc16CCITT [0x23]" by code_simp
  then show ?thesis
    using gt06_documented_frame_accepted_iff [of "sample_conn (buildResponse protoHeartbeat 1 [])"
        protoHeartbeat "[]" 1 "crc16CCITT ([protoHeartbeat] @ [] @ put_be 2 (unat (1 :: u16)))" "[]"]
    unfolding buildResponse_frame by (simp add: protoHeartbeat_def)
qed


section \<open>Positions\<close>

text \<open>A position as the device means it: raw coordinates with their hemispheres.\<close>

record gfix =
  g_yy :: byte  g_mon :: byte  g_day :: byte  g_hour :: byte  g_min :: byte  g_sec :: byte
  g_sats :: nat  g_fix :: nat
  g_lat :: u32  g_north :: bool  g_lng :: u32  g_east :: bool
  g_speed :: byte  g_course :: nat

definition wf_gfix :: "gfix \<Rightarrow> bool" where
  "wf_gfix g \<longleftrightarrow> g_sats g < 16 \<and> g_fix g < 16 \<and> g_course g < 1024"

definition enc_gfix :: "gfix \<Rightarrow> bytes" where
  "enc_gfix g = [g_yy g, g_mon g, g_day g, g_hour g, g_min g, g_sec g, 12,
     word_of_nat (g_sats g * 16 + g_fix g)] @ put_be 4 (unat (g_lat g)) @ put_be 4 (unat (g_lng g)) @
     [g_speed g] @ put_be 2 (g_course g + (if g_east g then 1024 else 0) + (if g_north g then 2048 else 0))"

definition degrees18 :: "u32 \<Rightarrow> bool \<Rightarrow> f64" where
  "degrees18 v positive = Fin (round64 (of_int (if positive then uint v else - uint v) / 1800000))"

definition gfix_record :: "gfix \<Rightarrow> ParsedRecord" where
  "gfix_record g = zero_record\<lparr>
     Timestamp := DateUnixMilli (2000 + uint (g_yy g)) (uint (g_mon g)) (uint (g_day g))
       (uint (g_hour g)) (uint (g_min g)) (uint (g_sec g)),
     Lat := degrees18 (g_lat g) (g_north g), Lng := degrees18 (g_lng g) (g_east g),
     Speed := ucast (g_speed g), Heading := word_of_nat (g_course g),
     Satellites := word_of_nat (g_sats g), Valid := 0 < g_fix g\<rparr>"

lemma gt06_coord_unat: "gt06_coord (unat v) positive = degrees18 v positive"
proof -
  have u: "\<bar>uint v\<bar> < 2 ^ 53" using uint_lt2p [of v] by simp
  have "f64_div_const (f64_of_int (uint v)) (of_int 1800000) = Fin (round64 (of_int (uint v) / of_int 1800000))"
    by (rule f64_quotient [OF u]) simp_all
  then show ?thesis
    by (simp add: gt06_coord_def degrees18_def Let_def round64_minus)
qed

lemma course_bits:
  fixes e no :: bool
  assumes "n < 1024"
  defines "w \<equiv> word_of_nat (n + (if e then 1024 else 0) + (if no then 2048 else 0)) :: u16"
  shows "w AND 0x03FF = word_of_nat n" "drop_bit 10 w AND 1 \<noteq> 0 \<longleftrightarrow> e" "drop_bit 11 w AND 1 \<noteq> 0 \<longleftrightarrow> no"
proof -
  let ?k = "n + (if e then 1024 else 0) + (if no then 2048 else 0) :: nat"
  have "?k < 2 ^ LENGTH(16)" using assms(1) by simp
  then have k: "unat w = ?k" unfolding w_def unat_of_nat by (rule mod_less)
  have "w AND 0x03FF = take_bit 10 w" by (simp add: take_bit_eq_mask mask_eq_exp_minus_1)
  moreover have "unat (take_bit 10 w) = n"
  proof -
    have "?k = n + 1024 * (of_bool e + 2 * of_bool no)" by simp
    then have "?k mod 1024 = n" using assms(1) by (simp only: mod_mult_self2) simp
    then show ?thesis by (simp only: take_bit_eq_mod unat_mod_distrib k) simp
  qed
  ultimately show "w AND 0x03FF = word_of_nat n" using assms(1)
    by (simp add: word_unat_eq_iff unat_of_nat)
  have odd: "drop_bit i w AND 1 \<noteq> 0 \<longleftrightarrow> odd (unat w div 2 ^ i)" for i
  proof -
    have "bit (drop_bit i w) 0 \<longleftrightarrow> bit (unat w) i" by (simp add: bit_drop_bit_eq bit_unsigned_iff)
    then show ?thesis by (simp only: and_1_iff_bit bit_iff_odd)
  qed
  have d: "?k div 2 ^ 10 = of_bool e + 2 * of_bool no"
    by (rule div_nat_eqI) (use assms(1) in auto)
  show "drop_bit 10 w AND 1 \<noteq> 0 \<longleftrightarrow> e" unfolding odd k d by simp
  show "drop_bit 11 w AND 1 \<noteq> 0 \<longleftrightarrow> no" unfolding odd k using assms(1) by simp
qed

text \<open>
  C31: a position block in the layout of the source's comments is decoded into the position
  it encodes: the time of the six date bytes, the signed coordinates correctly rounded to
  a float64, course, speed, satellites and fix; trailing bytes are ignored.
\<close>

theorem gt06_position_roundtrip:
  assumes "wf_gfix g"
  shows "parseGPS (enc_gfix g @ rest) = Ok (gfix_record g)"
proof -
  let ?i = "enc_gfix g @ rest"
  let ?c = "g_course g + (if g_east g then 1024 else 0) + (if g_north g then 2048 else 0)"
  have wf: "g_sats g < 16" "g_fix g < 16" "g_course g < 1024" using assms by (auto simp: wf_gfix_def)
  have len: "length ?i = 19 + length rest" by (simp add: enc_gfix_def)
  have d: "drop 8 ?i = put_be 4 (unat (g_lat g)) @ put_be 4 (unat (g_lng g)) @ [g_speed g] @ put_be 2 ?c @ rest"
    "drop 12 ?i = put_be 4 (unat (g_lng g)) @ [g_speed g] @ put_be 2 ?c @ rest"
    "drop 16 ?i = g_speed g # put_be 2 ?c @ rest" "drop 17 ?i = put_be 2 ?c @ rest"
    by (simp_all add: enc_gfix_def)
  have lat: "uint_at 4 ?i 8 = Ok (unat (g_lat g))" by (rule uint_at_u32 [OF d(1)]) (unfold len, simp)
  have lng: "uint_at 4 ?i 12 = Ok (unat (g_lng g))" by (rule uint_at_u32 [OF d(2)]) (unfold len, simp)
  have "uint_at 2 ?i 17 = Ok (?c mod 256 ^ 2)" by (rule uint_at_put_be [OF d(4)]) (unfold len, simp)
  moreover have "?c mod 256 ^ 2 = ?c" using wf(3) by simp
  ultimately have course: "uint_at 2 ?i 17 = Ok ?c" by (simp only:)
  have hd: "idx ?i 0 = Ok (g_yy g)" "idx ?i 1 = Ok (g_mon g)" "idx ?i 2 = Ok (g_day g)"
    "idx ?i 3 = Ok (g_hour g)" "idx ?i 4 = Ok (g_min g)" "idx ?i 5 = Ok (g_sec g)" "idx ?i 6 = Ok 12"
    "idx ?i 7 = Ok (word_of_nat (g_sats g * 16 + g_fix g))" "idx ?i 16 = Ok (g_speed g)"
    using idx_from_drop [OF d(3)] by (simp_all add: idx_def enc_gfix_def)
  have fixed: "(0 :: byte) < word_of_nat (g_fix g) \<longleftrightarrow> 0 < g_fix g"
    using wf(2) by (simp add: word_less_nat_alt)
  note bits = course_bits [OF wf(3), of "g_east g" "g_north g"]
  show ?thesis
    unfolding parseGPS_def len hd lat lng course bind_o.simps Let_def nibbles(1,2) [OF wf(1,2)] bits gt06_coord_unat fixed
    by (simp add: gfix_record_def zero_record_def)
qed

definition sample_gfix :: gfix where
  "sample_gfix = \<lparr>g_yy = 24, g_mon = 2, g_day = 29, g_hour = 12, g_min = 30, g_sec = 5,
     g_sats = 9, g_fix = 12, g_lat = 40582632, g_north = True, g_lng = 132000000, g_east = False,
     g_speed = 60, g_course = 270\<rparr>"

theorem gt06_position_roundtrip_witness:
  "parseGPS (enc_gfix sample_gfix @ []) = Ok (gfix_record sample_gfix) \<and>
   Heading (gfix_record sample_gfix) = 270 \<and> Timestamp (gfix_record sample_gfix) = 1709209805000"
  using gt06_position_roundtrip [of sample_gfix "[]"]
  by (simp add: sample_gfix_def wf_gfix_def gfix_record_def DateUnixMilli_def days_to_month_def month_days_def
      year_days_def is_leap_def leap_div)

text \<open>
  Whenever the GT06 packet reader returns records, the raw packet is what it consumed
  and the one response it has written is the acknowledgement of that packet (its
  protocol number and serial) for position, heartbeat and alarm packets; other
  packets yield no record and no response.
\<close>

lemma gt06_ParsePacket_acknowledges:
  assumes "gt06_ParsePacket c = (Ok (recs, rw), c')" "wres c = []"
  shows "\<exists>pkt. fst (gt06_readPacket c) = Ok pkt \<and> rw = raw pkt \<and> pending c = rw @ pending c' \<and>
     outp c' = outp c @ (if proto pkt \<in> {0x12, 0x23, 0x26} then buildResponse (proto pkt) (serial pkt) [] else []) \<and>
     length recs = (if proto pkt \<in> {0x12, 0x26} then 1 else 0)"
proof -
  from assms(1) obtain pkt c1 where r: "gt06_readPacket c = (Ok pkt, c1)"
    by (auto simp: gt06_ParsePacket_def elim!: bind_io_OkE)
  have o1: "outp c1 = outp c" "wres c1 = []" using quietD [OF quiet_readPacket r] assms(2) by auto
  from readPacket_reaches_check [OF r] obtain body stop where
    p: "pending c = [0x78, 0x78] @ [word_of_nat (length body)] @ body @ stop @ pending c1"
    and chk: "gt06_check (word_of_nat (length body)) body stop = Ok pkt" by auto
  have rw: "raw pkt = [0x78, 0x78, word_of_nat (length body)] @ body @ stop"
    using chk by (auto simp: gt06_check_def gt06_consts split: if_splits)
  have w: "write_discard b c1 = (Ok (), c1\<lparr>outp := outp c1 @ b\<rparr>)" for b
    using o1 by (simp add: write_discard_def Write_ok)
  have "rw = raw pkt \<and> pending c' = pending c1 \<and> length recs = (if proto pkt \<in> {0x12, 0x26} then 1 else 0) \<and>
     outp c' = outp c @ (if proto pkt \<in> {0x12, 0x23, 0x26} then buildResponse (proto pkt) (serial pkt) [] else [])"
    using assms(1) o1 unfolding gt06_ParsePacket_def bind_wrap_Ok [of gt06_readPacket, OF r]
    by (auto simp: gt06_consts ret_io_def lift_io_def bind_io_def w split: if_splits outcome.splits)
  then show ?thesis using r p rw by auto
qed

section \<open>Login\<close>

fun bcd :: "nat list \<Rightarrow> bytes" where
  "bcd (a # b # ds) = word_of_nat (a * 16 + b) # bcd ds"
| "bcd ds = []"

lemma length_bcd: "length (bcd ds) = length ds div 2"
  by (induction ds rule: bcd.induct) auto

lemma digit_byte: "d < 10 \<Longrightarrow> string_of [48 + word_of_nat d] = [char_of (48 + d)]"
proof -
  assume "d < 10"
  have "(48 + word_of_nat d :: byte) = word_of_nat (48 + d)" by simp
  then have "unat (48 + word_of_nat d :: byte) = 48 + d" using \<open>d < 10\<close> by (simp only: unat_byte_of_nat) simp
  then show ?thesis by (simp add: string_of_def)
qed

lemma digit_le: "d < 10 \<Longrightarrow> (word_of_nat d :: byte) \<le> 9"
  by (simp add: word_le_nat_alt)

lemma decodeBCDIMEI_bcd:
  "list_all (\<lambda>d. d < 10) ds \<Longrightarrow> even (length ds) \<Longrightarrow> decodeBCDIMEI (bcd ds) = map (\<lambda>d. char_of (48 + d)) ds"
proof (induction ds rule: bcd.induct)
  case (1 a b ds)
  then have ab: "a < 10" "b < 10" by auto
  then have lt: "a < 16" "b < 16" by auto
  show ?case using 1
    by (simp add: nibbles(1,2) [OF lt] digit_le [OF ab(1)] digit_le [OF ab(2)] digit_byte [OF ab(1)] digit_byte [OF ab(2)]
        del: of_nat_add of_nat_mult)
qed auto

text \<open>
  A login packet the reader accepts, whose information starts with sixteen BCD digits,
  yields those digits as the device id, and the login response carrying the packet's
  serial number is written.
\<close>

lemma gt06_login:
  assumes "pending c = gt06_frame 0x01 (bcd ds @ extra) ser crc @ rest" "ser = crc16CCITT (0x01 # bcd ds @ extra)"
    "length ds = 16" "list_all (\<lambda>d. d < 10) ds" "length extra \<le> 242" "wres c = []"
  shows "\<exists>c'. gt06_Authenticate c = (Ok (map (\<lambda>d. char_of (48 + d)) ds), c') \<and> pending c' = rest \<and>
     outp c' = outp c @ buildResponse 0x01 ser []"
proof -
  let ?inf = "bcd ds @ extra"
  let ?b = "[0x01] @ ?inf @ put_be 2 (unat ser) @ put_be 2 (unat crc)"
  have len: "length ?b = 5 + length ?inf" "length ?inf = 8 + length extra"
    using assms(3) by (simp_all add: length_bcd)
  have p: "pending c = [0x78, 0x78] @ [word_of_nat (length ?b)] @ ?b @ [0x0D, 0x0A] @ rest"
    unfolding assms(1) gt06_frame_def len(1) by simp
  obtain c1 where c1: "gt06_readPacket c = (gt06_check (word_of_nat (length ?b)) ?b [0x0D, 0x0A], c1)"
    "pending c1 = rest" "wres c1 = wres c" "outp c1 = outp c"
    using readPacket_on_frame [OF p] len assms(5) by auto
  obtain pkt where r: "gt06_readPacket c = (Ok pkt, c1)" and
    pkt: "proto pkt = 0x01" "info pkt = ?inf" "serial pkt = ser"
    using c1(1) unfolding gt06_check_frame assms(2) by auto
  have sl: "slice ?inf 0 8 = Ok (bcd ds)" using assms(3) by (simp add: slice_def length_bcd)
  have w: "Write b c1 = (Ok (), c1\<lparr>outp := outp c1 @ b\<rparr>)" for b
    using c1 assms(6) by (simp add: Write_ok)
  have dec: "decodeBCDIMEI (bcd ds) = map (\<lambda>d. char_of (48 + d)) ds"
    using assms(3,4) by (intro decodeBCDIMEI_bcd) auto
  have "gt06_Authenticate c = (Ok (map (\<lambda>d. char_of (48 + d)) ds), c1\<lparr>outp := outp c1 @ buildResponse 0x01 ser []\<rparr>)"
    unfolding gt06_Authenticate_def bind_wrap_Ok [of gt06_readPacket, OF r]
    using len(2) by (simp add: pkt gt06_consts sl bind_io_def [of "lift_io _"] lift_io_def dec Let_def
        bind_wrap_Ok [of "Write _", OF w] ret_io_def)
  then show ?thesis using c1 by simp
qed

lemma gt06_login_witness:
  "fst (gt06_Authenticate (sample_conn (gt06_frame 0x01 (bcd [0, 3, 5, 2, 0, 9, 3, 0, 8, 1, 4, 5, 2, 2, 4, 6])
     (crc16CCITT (0x01 # bcd [0, 3, 5, 2, 0, 9, 3, 0, 8, 1, 4, 5, 2, 2, 4, 6])) 0))) = Ok ''0352093081452246''"
proof -
  let ?ds = "[0, 3, 5, 2, 0, 9, 3, 0, 8, 1, 4, 5, 2, 2, 4, 6] :: nat list"
  let ?c = "sample_conn (gt06_frame 0x01 (bcd ?ds) (crc16CCITT (0x01 # bcd ?ds)) 0)"
  have "pending ?c = gt06_frame 0x01 (bcd ?ds @ []) (crc16CCITT (0x01 # bcd ?ds @ [])) 0 @ []"
    by (simp only: pending_sample append_Nil2)
  from gt06_login [OF this refl] have
    "fst (gt06_Authenticate ?c) = Ok (map (\<lambda>d. char_of (48 + d)) ?ds)" by (fastforce simp del: bcd.simps)
  moreover have "map (\<lambda>d. char_of (48 + d)) ?ds = ''0352093081452246''" by code_simp
  ultimately show ?thesis by (simp only:)
qed

lemma gt06_ParsePacket_acknowledges_witness:
  "\<exists>c'. gt06_ParsePacket (sample_conn (gt06_frame 0x23 [] (crc16CCITT [0x23]) 0)) =
     (Ok ([], gt06_frame 0x23 [] (crc16CCITT [0x23]) 0), c') \<and>
     outp c' = buildResponse 0x23 (crc16CCITT [0x23]) []"
proof -
  let ?f = "gt06_frame 0x23 [] (crc16CCITT [0x23]) 0"
  let ?b = "[0x23] @ [] @ put_be 2 (unat (crc16CCITT [0x23])) @ put_be 2 (unat (0 :: u16))"
  have len: "length ?b = 5" by simp
  have p: "pending (sample_conn ?f) = [0x78, 0x78] @ [word_of_nat (length ?b)] @ ?b @ [0x0D, 0x0A] @ []"
    unfolding pending_sample gt06_frame_def len by simp
  obtain c1 where c1: "gt06_readPacket (sample_conn ?f) = (gt06_check (word_of_nat (length ?b)) ?b [0x0D, 0x0A], c1)"
    "wres c1 = []"
    using readPacket_on_frame [OF p] len by auto
  have r: "gt06_readPacket (sample_conn ?f) = (Ok \<lparr>proto = 0x23, info = [], serial = crc16CCITT [0x23], raw = ?f\<rparr>, c1)"
    using c1(1) unfolding gt06_check_frame len by (simp add: gt06_frame_def)
  have "\<exists>c'. gt06_ParsePacket (sample_conn ?f) = (Ok ([], ?f), c')"
    unfolding gt06_ParsePacket_def bind_wrap_Ok [of gt06_readPacket, OF r]
    by (simp add: gt06_consts bind_io_def write_discard_def ret_io_def)
  then obtain c' where c': "gt06_ParsePacket (sample_conn ?f) = (Ok ([], ?f), c')" by blast
  from gt06_ParsePacket_acknowledges [OF c' wres_sample] r c' show ?thesis by auto
qed

end
