(* ===== verification/Jt808.thy ===== *)
theory Jt808
  imports Protocol Conn Go_Float Go_Time
begin

unbundle bit_operations_syntax

text \<open>
  The JT/T 808 handler (\<open>protocols/jt808/handler.go\<close>): byte stuffing, the frame reader
  and writer, location and batch decoding, registration and packet dispatch. The clock the
  source reads with \<open>time.Now()\<close> is the argument \<open>now\<close> (Unix milliseconds).
\<close>

definition frameByte :: byte where "frameByte = 0x7E"
definition escapeByte :: byte where "escapeByte = 0x7D"
definition msgIDTerminalRegister :: u16 where "msgIDTerminalRegister = 0x0100"
definition msgIDTerminalAuth :: u16 where "msgIDTerminalAuth = 0x0102"
definition msgIDLocationReport :: u16 where "msgIDLocationReport = 0x0200"
definition msgIDLocationBatch :: u16 where "msgIDLocationBatch = 0x0704"
definition msgIDHeartbeat :: u16 where "msgIDHeartbeat = 0x0002"
definition msgIDPlatformAck :: u16 where "msgIDPlatformAck = 0x8001"
definition msgIDLocationAck :: u16 where "msgIDLocationAck = 0x8002"
definition msgIDRegisterAck :: u16 where "msgIDRegisterAck = 0x8100"

lemmas jt808_consts = frameByte_def escapeByte_def msgIDTerminalRegister_def msgIDTerminalAuth_def
  msgIDLocationReport_def msgIDLocationBatch_def msgIDHeartbeat_def msgIDPlatformAck_def
  msgIDLocationAck_def msgIDRegisterAck_def

definition jt808_Detect :: "bytes \<Rightarrow> bool" where
  "jt808_Detect header \<longleftrightarrow> 0 < length header \<and> header ! 0 = frameByte"

section \<open>Byte stuffing\<close>

text \<open>An unknown escape drops both bytes; a final lone escape byte is kept.\<close>

fun unescape :: "bytes \<Rightarrow> bytes" where
  "unescape [] = []"
| "unescape [a] = [a]"
| "unescape (a # b # data) =
     (if a = escapeByte
      then (if b = 0x01 then [escapeByte] else if b = 0x02 then [frameByte] else []) @ unescape data
      else a # unescape (b # data))"

fun escape :: "bytes \<Rightarrow> bytes" where
  "escape [] = []"
| "escape (b # data) =
     (if b = frameByte then [escapeByte, 0x02]
      else if b = escapeByte then [escapeByte, 0x01] else [b]) @ escape data"

section \<open>Frames\<close>

record jt808Frame =
  msgID :: u16
  phoneNum :: bytes
  seqNum :: u16
  jbody :: bytes
  jraw :: bytes

text \<open>The loop that looks for a frame byte, one byte per read.\<close>

function (sequential) skip_to_frame :: "(goerr, unit) io" where
  "skip_to_frame c =
     (case ReadFull 1 c of
        (Ok buf, c') \<Rightarrow> if buf ! 0 = frameByte then (Ok (), c') else skip_to_frame c'
      | (Err e, c') \<Rightarrow> (Err (Wrapf ''jt808 read start'' e), c')
      | (Panic, c') \<Rightarrow> (Panic, c'))"
  by pat_completeness auto

lemma ReadFull_1_pending:
  assumes "ReadFull 1 c = (Ok buf, c')"
  shows "pending c = buf ! 0 # pending c' \<and> buf = [buf ! 0]"
proof -
  have b: "buf = take 1 (pending c)" "length buf = 1" "pending c' = drop 1 (pending c)"
    using ReadFull_OkD [OF assms] by blast+
  then show ?thesis by (cases "pending c") auto
qed

lemma ReadFull_1_less:
  "ReadFull (Suc 0) c = (Ok buf, c') \<Longrightarrow> length (pending c') < length (pending c)"
  using ReadFull_1_pending [of c buf c'] by auto

termination skip_to_frame
  by (relation "measure (\<lambda>c. length (pending c))") (auto dest!: sym [of "(Ok _, _)"] ReadFull_1_less)

text \<open>The loop that collects the stuffed bytes up to the next frame byte.\<close>

function (sequential) read_escaped :: "bytes \<Rightarrow> (goerr, bytes) io" where
  "read_escaped escaped c =
     (case ReadFull 1 c of
        (Ok buf, c') \<Rightarrow> if buf ! 0 = frameByte then (Ok escaped, c') else read_escaped (escaped @ [buf ! 0]) c'
      | (Err e, c') \<Rightarrow> (Err (Wrapf ''jt808 read body'' e), c')
      | (Panic, c') \<Rightarrow> (Panic, c'))"
  by pat_completeness auto
termination read_escaped
  by (relation "measure (\<lambda>(b, c). length (pending c))") (auto dest!: sym [of "(Ok _, _)"] ReadFull_1_less)

declare skip_to_frame.simps [simp del] read_escaped.simps [simp del]

definition xor_all :: "bytes \<Rightarrow> byte" where
  "xor_all data = foldl (XOR) 0 data"

definition jt808_decode :: "bytes \<Rightarrow> (goerr, jt808Frame) outcome" where
  "jt808_decode data =
     (if length data < 13 then Err (Errorf ''jt808 frame too short'')
      else bind_o (idx data (length data - 1)) (\<lambda>checksum.
           bind_o (slice data 0 (length data - 1)) (\<lambda>checked.
           if xor_all checked \<noteq> checksum then Err (Errorf ''jt808 checksum mismatch'')
           else bind_o (uint_at 2 data 0) (\<lambda>m.
                bind_o (uint_at 2 data 10) (\<lambda>s.
                bind_o (slice data 12 (length data - 1)) (\<lambda>b.
                bind_o (slice data 4 10) (\<lambda>ph.
                  Ok \<lparr>msgID = word_of_nat m, phoneNum = ph, seqNum = word_of_nat s, jbody = b,
                      jraw = [frameByte] @ escape data @ [frameByte]\<rparr>)))))))"

definition readFrame :: "(goerr, jt808Frame) io" where
  "readFrame =
     bind_io skip_to_frame (\<lambda>_.
     bind_io (read_escaped []) (\<lambda>escaped.
       lift_io (jt808_decode (unescape escaped))))"

definition frame_bytes :: "u16 \<Rightarrow> bytes \<Rightarrow> u16 \<Rightarrow> bytes \<Rightarrow> bytes" where
  "frame_bytes m phone s body =
     (let header = put_be 2 (unat m) @ put_be 2 (length body) @ phone @ put_be 2 (unat s);
          data = header @ body
      in [frameByte] @ escape (data @ [xor_all data]) @ [frameByte])"

definition writeFrame :: "u16 \<Rightarrow> bytes \<Rightarrow> u16 \<Rightarrow> bytes \<Rightarrow> (goerr, unit) io" where
  "writeFrame m phone s body = Write (frame_bytes m phone s body)"

section \<open>Helpers\<close>

text \<open>Nibbles other than 15 are written as \<open>'0' + nibble\<close>, in byte arithmetic.\<close>

fun bcdPhoneFromHeader :: "bytes \<Rightarrow> string" where
  "bcdPhoneFromHeader [] = []"
| "bcdPhoneFromHeader (b # bcd) =
     (let hi = drop_bit 4 b AND 0x0F; lo = b AND 0x0F in
      (if hi \<noteq> 0x0F then string_of [48 + hi] else []) @ (if lo \<noteq> 0x0F then string_of [48 + lo] else []) @
      bcdPhoneFromHeader bcd)"

definition bcdToDec :: "byte \<Rightarrow> byte" where
  "bcdToDec b = drop_bit 4 b * 10 + (b AND 0x0F)"

definition parseBCDTime :: "int \<Rightarrow> bytes \<Rightarrow> int" where
  "parseBCDTime now bcd =
     (if length bcd < 6 then now
      else DateUnixMilli (2000 + uint (bcdToDec (bcd ! 0))) (uint (bcdToDec (bcd ! 1)))
             (uint (bcdToDec (bcd ! 2))) (uint (bcdToDec (bcd ! 3))) (uint (bcdToDec (bcd ! 4)))
             (uint (bcdToDec (bcd ! 5))))"

section \<open>Locations\<close>

definition jt808_coord :: "nat \<Rightarrow> bool \<Rightarrow> f64" where
  "jt808_coord raw negative =
     (let v = f64_div_const (f64_of_int (int raw)) 1000000 in if negative then f64_neg v else v)"

text \<open>\<open>uint16(float64(speed) / 10.0)\<close>: the quotient is rounded to a float64 and truncated.\<close>

definition jt808_speed :: "nat \<Rightarrow> u16" where
  "jt808_speed speed =
     (case f64_div_const (f64_of_int (int speed)) 10 of Fin q \<Rightarrow> word_of_int \<lfloor>q\<rfloor> | _ \<Rightarrow> 0)"

definition location_io :: "u32 \<Rightarrow> u32 \<Rightarrow> iodata" where
  "location_io alarmFlags statusFlags =
     (let io0 = Map.empty;
          io1 = (if alarmFlags AND push_bit 0 1 \<noteq> 0 then io0(236 \<mapsto> 1) else io0);
          io2 = (if alarmFlags AND push_bit 3 1 \<noteq> 0 then io1(240 \<mapsto> 1) else io1)
      in if drop_bit 5 statusFlags AND 1 = 1 then io2(239 \<mapsto> 1) else io2)"

definition parseLocation :: "int \<Rightarrow> bytes \<Rightarrow> (goerr, ParsedRecord) outcome" where
  "parseLocation now body =
     (if length body < 28 then Err (Errorf ''jt808 location body too short'')
      else
      bind_o (uint_at 4 body 0) (\<lambda>alarm.
      bind_o (uint_at 4 body 4) (\<lambda>status.
      bind_o (uint_at 4 body 8) (\<lambda>latRaw.
      bind_o (uint_at 4 body 12) (\<lambda>lngRaw.
      bind_o (uint_at 2 body 16) (\<lambda>altitude.
      bind_o (uint_at 2 body 18) (\<lambda>speed.
      bind_o (uint_at 2 body 20) (\<lambda>direction.
      bind_o (slice body 22 28) (\<lambda>t.
      let alarmFlags = (word_of_nat alarm :: u32); statusFlags = (word_of_nat status :: u32) in
        Ok (zero_record\<lparr>Timestamp := parseBCDTime now t,
              Lat := jt808_coord latRaw (drop_bit 2 statusFlags AND 1 = 0),
              Lng := jt808_coord lngRaw (drop_bit 3 statusFlags AND 1 = 0),
              Altitude := int altitude, Speed := jt808_speed speed, Heading := word_of_nat direction,
              Valid := drop_bit 1 statusFlags AND 1 = 1,
              IOData := location_io alarmFlags statusFlags\<rparr>))))))))))"

text \<open>The item loop: \<open>n\<close> items left, from an offset. An item that fails to parse is skipped.\<close>

fun batch_loop :: "int \<Rightarrow> bytes \<Rightarrow> nat \<Rightarrow> nat \<Rightarrow> (goerr, ParsedRecord list) outcome" where
  "batch_loop now body 0 offset = Ok []"
| "batch_loop now body (Suc n) offset =
     (if length body < offset + 2 then Ok []
      else bind_o (uint_at 2 body offset) (\<lambda>itemLen.
        if length body < offset + 2 + itemLen then Ok []
        else bind_o (slice body (offset + 2) (offset + 2 + itemLen)) (\<lambda>item.
          case parseLocation now item of
            Ok rec \<Rightarrow> bind_o (batch_loop now body n (offset + 2 + itemLen)) (\<lambda>recs. Ok (rec # recs))
          | Err e \<Rightarrow> batch_loop now body n (offset + 2 + itemLen)
          | Panic \<Rightarrow> Panic)))"

definition parseLocationBatch :: "int \<Rightarrow> bytes \<Rightarrow> (goerr, ParsedRecord list) outcome" where
  "parseLocationBatch now body =
     (if length body < 4 then Err (Errorf ''jt808 batch too short'')
      else bind_o (uint_at 2 body 0) (\<lambda>count. batch_loop now body count 3))"

section \<open>Registration and dispatch\<close>

definition ackBody :: "u16 \<Rightarrow> u16 \<Rightarrow> bytes" where
  "ackBody s m = put_be 2 (unat s) @ put_be 2 (unat m) @ [0x00]"

definition authCode :: string where
  "authCode = ''GPSGO_AUTH''"

definition jt808_Authenticate :: "(goerr, string) io" where
  "jt808_Authenticate =
     bind_io (wrap_io (Wrapf ''jt808 auth read register'') readFrame) (\<lambda>pkt.
     bind_io (if msgID pkt = msgIDTerminalRegister then
                bind_io (wrap_io (Wrapf ''jt808 send register ack'')
                  (writeFrame msgIDRegisterAck (phoneNum pkt) (seqNum pkt)
                     (put_be 2 (unat (seqNum pkt)) @ [0x00] @ bytes_of authCode))) (\<lambda>_.
                  ret_io (bcdPhoneFromHeader (phoneNum pkt)))
              else if msgID pkt = msgIDTerminalAuth then ret_io (bcdPhoneFromHeader (phoneNum pkt))
              else lift_io (Err (Errorf ''jt808: unexpected msg during auth''))) (\<lambda>deviceID.
     bind_io (if msgID pkt = msgIDTerminalRegister then
                bind_io (wrap_io (Wrapf ''jt808 auth read auth msg'') readFrame) (\<lambda>authPkt.
                  if msgID authPkt \<noteq> msgIDTerminalAuth
                  then lift_io (Err (Errorf ''jt808: expected auth msg 0x0102'')) else ret_io ())
              else ret_io ()) (\<lambda>_.
     bind_io (wrap_io (Wrapf ''jt808 send auth ack'')
       (writeFrame msgIDPlatformAck (phoneNum pkt) (seqNum pkt + 1) (ackBody (seqNum pkt) msgIDTerminalAuth))) (\<lambda>_.
       ret_io deviceID))))"

definition jt808_ParsePacket :: "int \<Rightarrow> parse_io" where
  "jt808_ParsePacket now =
     bind_io (wrap_io (\<lambda>e. (e, [])) readFrame) (\<lambda>pkt.
     if msgID pkt = msgIDLocationReport then
       bind_io (lift_io (map_err (\<lambda>e. (e, jraw pkt)) (parseLocation now (jbody pkt)))) (\<lambda>rec.
       bind_io (write_discard (frame_bytes msgIDLocationAck (phoneNum pkt) (seqNum pkt + 1)
                  (ackBody (seqNum pkt) msgIDLocationReport))) (\<lambda>_.
         ret_io ([rec], jraw pkt)))
     else if msgID pkt = msgIDLocationBatch then
       bind_io (lift_io (map_err (\<lambda>e. (e, jraw pkt)) (parseLocationBatch now (jbody pkt)))) (\<lambda>records.
       bind_io (write_discard (frame_bytes msgIDLocationAck (phoneNum pkt) (seqNum pkt + 1)
                  (ackBody (seqNum pkt) msgIDLocationBatch))) (\<lambda>_.
         ret_io (records, jraw pkt)))
     else if msgID pkt = msgIDHeartbeat then
       bind_io (write_discard (frame_bytes msgIDPlatformAck (phoneNum pkt) (seqNum pkt + 1)
                  (ackBody (seqNum pkt) msgIDHeartbeat))) (\<lambda>_.
         ret_io ([], jraw pkt))
     else ret_io ([], jraw pkt))"

definition jt808_BuildACK :: "bytes \<Rightarrow> (goerr, bytes) outcome" where
  "jt808_BuildACK packet = Ok []"

definition jt808_handler :: "int \<Rightarrow> handler" where
  "jt808_handler now = \<lparr>Name = ''jt808'', Detect = jt808_Detect, Authenticate = jt808_Authenticate,
     ParsePacket = jt808_ParsePacket now, BuildACK = jt808_BuildACK\<rparr>"

section \<open>Stuffing is transparent\<close>

lemma escape_append [simp]: "escape (xs @ ys) = escape xs @ escape ys"
  by (induction xs) auto

lemma frameByte_notin_escape: "frameByte \<notin> set (escape data)"
  by (induction data) (auto simp: jt808_consts)

lemma unescape_pair:
  "unescape (escapeByte # 0x02 # data) = frameByte # unescape data"
  "unescape (escapeByte # 0x01 # data) = escapeByte # unescape data"
  by simp_all

lemma unescape_plain: "b \<noteq> escapeByte \<Longrightarrow> unescape (b # data) = b # unescape data"
  by (cases data) auto

lemma unescape_escape: "unescape (escape data) = data"
  by (induction data) (auto simp: unescape_pair unescape_plain simp del: unescape.simps(3))

section \<open>The frame reader\<close>

lemma ReadFull_1_cons:
  assumes "pending c = b # rest"
  shows "\<exists>c'. ReadFull 1 c = (Ok [b], c') \<and> pending c' = rest \<and> ending c' = ending c \<and>
    wres c' = wres c \<and> outp c' = outp c"
  using ReadFull_append [of c "[b]" rest] assms by simp

lemma skip_to_frame_on:
  "pending c = junk @ frameByte # rest \<Longrightarrow> frameByte \<notin> set junk \<Longrightarrow>
   \<exists>c'. skip_to_frame c = (Ok (), c') \<and> pending c' = rest \<and> wres c' = wres c \<and> outp c' = outp c"
proof (induction junk arbitrary: c)
  case Nil
  then obtain c' where "ReadFull 1 c = (Ok [frameByte], c')" "pending c' = rest" "wres c' = wres c" "outp c' = outp c"
    using ReadFull_1_cons [of c frameByte rest] by auto
  then show ?case by (simp add: skip_to_frame.simps [of c])
next
  case (Cons b junk)
  then obtain c1 where c1: "ReadFull 1 c = (Ok [b], c1)" "pending c1 = junk @ frameByte # rest"
    "wres c1 = wres c" "outp c1 = outp c"
    using ReadFull_1_cons [of c b "junk @ frameByte # rest"] by auto
  with Cons.IH [OF c1(2)] Cons.prems(2) show ?case by (auto simp: skip_to_frame.simps [of c])
qed

lemma read_escaped_on:
  "pending c = e @ frameByte # rest \<Longrightarrow> frameByte \<notin> set e \<Longrightarrow>
   \<exists>c'. read_escaped acc c = (Ok (acc @ e), c') \<and> pending c' = rest \<and> wres c' = wres c \<and> outp c' = outp c"
proof (induction e arbitrary: acc c)
  case Nil
  then obtain c' where "ReadFull 1 c = (Ok [frameByte], c')" "pending c' = rest" "wres c' = wres c" "outp c' = outp c"
    using ReadFull_1_cons [of c frameByte rest] by auto
  then show ?case by (simp add: read_escaped.simps [of _ c])
next
  case (Cons b e)
  then obtain c1 where c1: "ReadFull 1 c = (Ok [b], c1)" "pending c1 = e @ frameByte # rest"
    "wres c1 = wres c" "outp c1 = outp c"
    using ReadFull_1_cons [of c b "e @ frameByte # rest"] by auto
  with Cons.IH [OF c1(2), of "acc @ [b]"] Cons.prems(2) show ?case by (auto simp: read_escaped.simps [of _ c])
qed

lemma readFrame_on:
  assumes "pending c = junk @ frameByte # e @ frameByte # rest" "frameByte \<notin> set junk" "frameByte \<notin> set e"
  shows "\<exists>c'. readFrame c = (jt808_decode (unescape e), c') \<and> pending c' = rest \<and> wres c' = wres c \<and> outp c' = outp c"
proof -
  from skip_to_frame_on [OF assms(1,2)] obtain c1 where
    c1: "skip_to_frame c = (Ok (), c1)" "pending c1 = e @ frameByte # rest" "wres c1 = wres c" "outp c1 = outp c" by auto
  from read_escaped_on [OF c1(2) assms(3), of "[]"] obtain c2 where
    "read_escaped [] c1 = (Ok e, c2)" "pending c2 = rest" "wres c2 = wres c1" "outp c2 = outp c1" by auto
  with c1 show ?thesis by (simp add: readFrame_def bind_io_def lift_io_def)
qed

lemma skip_to_frame_not_Panic: "fst (skip_to_frame c) \<noteq> Panic"
proof (induction c rule: skip_to_frame.induct)
  case (1 c)
  then show ?case
    by (subst skip_to_frame.simps) (auto split: prod.splits outcome.splits)
qed

lemma read_escaped_not_Panic: "fst (read_escaped acc c) \<noteq> Panic"
proof (induction acc c rule: read_escaped.induct)
  case (1 acc c)
  then show ?case
    by (subst read_escaped.simps) (auto split: prod.splits outcome.splits)
qed

lemma quiet_skip_to_frame: "quiet skip_to_frame"
proof -
  have "outp (snd (skip_to_frame c)) = outp c \<and> wres (snd (skip_to_frame c)) = wres c" for c
  proof (induction c rule: skip_to_frame.induct)
    case (1 c)
    show ?case
    proof (cases "ReadFull 1 c")
      case (Pair r c1)
      then show ?thesis using 1 ReadFull_outp [OF Pair]
        by (cases r) (auto simp: skip_to_frame.simps [of c])
    qed
  qed
  then show ?thesis by (simp add: quiet_def)
qed

lemma quiet_read_escaped: "quiet (read_escaped acc)"
proof -
  have "outp (snd (read_escaped acc c)) = outp c \<and> wres (snd (read_escaped acc c)) = wres c" for c
  proof (induction acc c rule: read_escaped.induct)
    case (1 acc c)
    show ?case
    proof (cases "ReadFull 1 c")
      case (Pair r c1)
      then show ?thesis using 1 ReadFull_outp [OF Pair]
        by (cases r) (auto simp: read_escaped.simps [of _ c])
    qed
  qed
  then show ?thesis by (simp add: quiet_def)
qed

lemma quiet_readFrame: "quiet readFrame"
  unfolding readFrame_def by (intro quiet_intros quiet_skip_to_frame quiet_read_escaped)

lemma jt808_decode_not_Panic: "jt808_decode data \<noteq> Panic"
  by (auto simp: jt808_decode_def bind_o_Panic_iff slice_Panic_iff)

lemma readFrame_not_Panic [simp]: "fst (readFrame c) \<noteq> Panic"
  using skip_to_frame_not_Panic [of c] read_escaped_not_Panic jt808_decode_not_Panic
  by (auto simp: readFrame_def fst_bind_io_Panic lift_io_def)

section \<open>What a frame decodes to\<close>

lemma xor_all_acc: "foldl (XOR) a data = a XOR xor_all (data :: bytes)"
proof (induction data arbitrary: a)
  case Nil
  then show ?case by (simp add: xor_all_def)
next
  case (Cons b data)
  from Cons [of "a XOR b"] Cons [of b] show ?case by (simp add: xor_all_def xor.assoc)
qed

lemma xor_all_append: "xor_all (xs @ ys) = xor_all xs XOR xor_all ys"
  using xor_all_acc [of "xor_all xs" ys] by (simp add: xor_all_def)

lemma xor_all_Cons: "xor_all (x # ys) = x XOR xor_all ys"
  using xor_all_acc [of x ys] by (simp add: xor_all_def)

lemma jt808_decode_eq:
  assumes "12 \<le> length data"
  shows "jt808_decode (data @ [k]) =
    (if xor_all data \<noteq> k then Err (Errorf ''jt808 checksum mismatch'')
     else Ok \<lparr>msgID = word_of_nat (be_nat (take 2 data)), phoneNum = take 6 (drop 4 data),
       seqNum = word_of_nat (be_nat (take 2 (drop 10 data))), jbody = drop 12 data,
       jraw = [frameByte] @ escape (data @ [k]) @ [frameByte]\<rparr>)"
  using assms by (simp add: jt808_decode_def idx_def slice_def uint_at_def nth_append)

lemma u16_be [simp]: "word_of_nat (unat (w :: u16) mod 65536) = w"
  using unsigned_less [where 'a = nat, of w] by simp

lemma jt808_decode_frame:
  fixes m s :: u16 and phone body :: bytes
  assumes "length phone = 6"
  defines "data \<equiv> put_be 2 (unat m) @ put_be 2 (length body) @ phone @ put_be 2 (unat s) @ body"
  shows "jt808_decode (data @ [xor_all data]) =
    Ok \<lparr>msgID = m, phoneNum = phone, seqNum = s, jbody = body, jraw = frame_bytes m phone s body\<rparr>"
proof -
  have "12 \<le> length data" using assms by simp
  moreover have "take 2 data = put_be 2 (unat m)" "take 6 (drop 4 data) = phone"
    "take 2 (drop 10 data) = put_be 2 (unat s)" "drop 12 data = body"
    using assms(1) by (simp_all add: data_def)
  moreover have "frame_bytes m phone s body = [frameByte] @ escape (data @ [xor_all data]) @ [frameByte]"
    by (simp add: frame_bytes_def data_def Let_def)
  ultimately show ?thesis by (simp add: jt808_decode_eq)
qed

lemma readFrame_on_frame:
  assumes "pending c = junk @ frame_bytes m phone s body @ rest" "0x7E \<notin> set junk" "length phone = 6"
  shows "\<exists>c'. readFrame c =
     (Ok \<lparr>msgID = m, phoneNum = phone, seqNum = s, jbody = body, jraw = frame_bytes m phone s body\<rparr>, c') \<and>
     pending c' = rest \<and> wres c' = wres c \<and> outp c' = outp c"
proof -
  let ?data = "put_be 2 (unat m) @ put_be 2 (length body) @ phone @ put_be 2 (unat s) @ body"
  let ?e = "escape (?data @ [xor_all ?data])"
  have "frame_bytes m phone s body = frameByte # ?e @ [frameByte]" by (simp add: frame_bytes_def Let_def)
  then have "pending c = junk @ frameByte # ?e @ frameByte # rest" using assms(1) by simp
  from readFrame_on [OF this _ frameByte_notin_escape] assms(2)
  show ?thesis unfolding unescape_escape jt808_decode_frame [OF assms(3)] by (simp add: frameByte_def)
qed

text \<open>
  C8: what the frame writer puts on the wire is read back as it was, whatever its contents
  and whatever garbage without a frame byte comes before it: the reader returns the
  message id, phone number, sequence number and body, the raw frame, and leaves what
  follows.
\<close>

theorem jt808_frame_roundtrip:
  assumes "writeFrame m phone s body a = (Ok (), a')" "outp a' = outp a @ wire"
    "pending c = junk @ wire @ rest" "0x7E \<notin> set junk" "length phone = 6"
  shows "\<exists>c'. readFrame c = (Ok \<lparr>msgID = m, phoneNum = phone, seqNum = s, jbody = body, jraw = wire\<rparr>, c') \<and>
     pending c' = rest"
proof -
  have "wire = frame_bytes m phone s body"
    using assms(1,2) by (auto simp: writeFrame_def Write_def split: list.splits option.splits)
  then show ?thesis using readFrame_on_frame [of c junk m phone s body rest] assms(3-5) by auto
qed

theorem jt808_frame_roundtrip_witness:
  "\<exists>c'. readFrame (sample_conn ([1, 2] @ frame_bytes 0x0002 [1, 0x38, 0, 0x13, 0x80, 0] 0x7D7E [0x7E, 0x7D, 5] @ [9])) =
     (Ok \<lparr>msgID = 0x0002, phoneNum = [1, 0x38, 0, 0x13, 0x80, 0], seqNum = 0x7D7E, jbody = [0x7E, 0x7D, 5],
        jraw = frame_bytes 0x0002 [1, 0x38, 0, 0x13, 0x80, 0] 0x7D7E [0x7E, 0x7D, 5]\<rparr>, c') \<and> pending c' = [9]"
proof (rule jt808_frame_roundtrip)
  let ?w = "frame_bytes 0x0002 [1, 0x38, 0, 0x13, 0x80, 0] 0x7D7E [0x7E, 0x7D, 5]"
  show "writeFrame 0x0002 [1, 0x38, 0, 0x13, 0x80, 0] 0x7D7E [0x7E, 0x7D, 5] (sample_conn []) =
      (Ok (), (sample_conn [])\<lparr>outp := outp (sample_conn []) @ ?w\<rparr>)"
    unfolding writeFrame_def by (rule Write_ok [OF wres_sample])
  show "outp ((sample_conn [])\<lparr>outp := outp (sample_conn []) @ ?w\<rparr>) = outp (sample_conn []) @ ?w"
    by (rule outp_update)
qed (simp_all only: pending_sample, simp_all)



section \<open>No panics\<close>

lemma parseLocation_not_Panic [simp]: "parseLocation now body \<noteq> Panic"
  by (auto simp: parseLocation_def bind_o_Panic_iff slice_Panic_iff Let_def)

lemma batch_loop_not_Panic [simp]: "batch_loop now body n offset \<noteq> Panic"
proof (induction n arbitrary: offset)
  case (Suc n)
  then show ?case by (auto simp: bind_o_Panic_iff slice_Panic_iff split: outcome.splits)
qed simp

lemma parseLocationBatch_not_Panic [simp]: "parseLocationBatch now body \<noteq> Panic"
  by (auto simp: parseLocationBatch_def bind_o_Panic_iff)

text \<open>
  No peer can make the JT/T 808 handler panic, neither while registering nor while sending
  data.
\<close>

lemma jt808_never_panics: "fst (jt808_Authenticate c) \<noteq> Panic" "fst (jt808_ParsePacket now c) \<noteq> Panic"
  by (auto simp: jt808_Authenticate_def jt808_ParsePacket_def fst_bind_io_Panic lift_io_def ret_io_def
      writeFrame_def write_discard_def split: if_splits)

section \<open>Locations\<close>

text \<open>A location as the device means it; the time is its six decimal pairs.\<close>

record jloc =
  l_alarm :: u32  l_status :: u32  l_lat :: u32  l_lng :: u32
  l_alt :: u16  l_speed :: u16  l_dir :: u16  l_time :: "nat list"

definition bcd2 :: "nat \<Rightarrow> byte" where
  "bcd2 n = word_of_nat (n div 10 * 16 + n mod 10)"

definition enc_loc :: "jloc \<Rightarrow> bytes" where
  "enc_loc l = put_be 4 (unat (l_alarm l)) @ put_be 4 (unat (l_status l)) @ put_be 4 (unat (l_lat l)) @
     put_be 4 (unat (l_lng l)) @ put_be 2 (unat (l_alt l)) @ put_be 2 (unat (l_speed l)) @
     put_be 2 (unat (l_dir l)) @ map bcd2 (l_time l)"

definition wf_loc :: "jloc \<Rightarrow> bool" where
  "wf_loc l \<longleftrightarrow> length (l_time l) = 6 \<and> list_all (\<lambda>n. n < 100) (l_time l)"

definition degrees6 :: "u32 \<Rightarrow> bool \<Rightarrow> f64" where
  "degrees6 v positive = Fin (round64 (of_int (if positive then uint v else - uint v) / 1000000))"

definition loc_record :: "jloc \<Rightarrow> ParsedRecord" where
  "loc_record l = zero_record\<lparr>
     Timestamp := DateUnixMilli (2000 + int (l_time l ! 0)) (int (l_time l ! 1)) (int (l_time l ! 2))
       (int (l_time l ! 3)) (int (l_time l ! 4)) (int (l_time l ! 5)),
     Lat := degrees6 (l_lat l) (bit (l_status l) 2), Lng := degrees6 (l_lng l) (bit (l_status l) 3),
     Altitude := int (unat (l_alt l)), Speed := l_speed l div 10, Heading := l_dir l,
     Valid := bit (l_status l) 1,
     IOData := (\<lambda>k. if k = 236 \<and> bit (l_alarm l) 0 \<or> k = 240 \<and> bit (l_alarm l) 3 \<or> k = 239 \<and> bit (l_status l) 5
       then Some 1 else None)\<rparr>"

lemma bcdToDec_bcd2: "n < 100 \<Longrightarrow> uint (bcdToDec (bcd2 n)) = int n"
proof -
  assume n: "n < 100"
  then have d: "n div 10 < 16" "n mod 10 < 16" by auto
  have "bcdToDec (bcd2 n) = word_of_nat (n div 10 * 10 + n mod 10)"
    unfolding bcdToDec_def bcd2_def nibbles [OF d] by (simp only: of_nat_add of_nat_mult of_nat_numeral)
  also have "\<dots> = word_of_nat n" by (simp only: div_mult_mod_eq)
  finally have "unat (bcdToDec (bcd2 n)) = n" using n by (simp only: unat_byte_of_nat) simp
  then show ?thesis by (metis uint_nat)
qed

lemma jt808_coord_unat: "jt808_coord (unat v) negative = degrees6 v (\<not> negative)"
proof -
  have u: "\<bar>uint v\<bar> < 2 ^ 53" using uint_lt2p [of v] by simp
  have "f64_div_const (f64_of_int (uint v)) (of_int 1000000) = Fin (round64 (of_int (uint v) / of_int 1000000))"
    by (rule f64_quotient [OF u]) simp_all
  then show ?thesis by (simp add: jt808_coord_def degrees6_def Let_def round64_minus)
qed

text \<open>A tenth of the raw speed, in spite of the detour over float64.\<close>

lemma floor_round64_tenth:
  assumes "v < 65536"
  shows "\<lfloor>round64 (of_int (int v) / of_int 10)\<rfloor> = int (v div 10)"
proof -
  let ?q = "of_int (int v) / of_int 10 :: rat"
  let ?k = "v div 10" and ?j = "v mod 10"
  have v: "v = 10 * ?k + ?j" by simp
  have q: "?q = of_nat ?k + of_nat ?j / 10"
  proof -
    have "(of_nat v :: rat) = 10 * of_nat ?k + of_nat ?j"
      using arg_cong [OF v, of "of_nat :: nat \<Rightarrow> rat"] by (simp only: of_nat_add of_nat_mult of_nat_numeral)
    then show ?thesis by (simp add: add_divide_distrib)
  qed
  show ?thesis
  proof (cases "?j = 0")
    case True
    then have "?q = of_int (int ?k)" using q by simp
    moreover have "round64 (of_int (int ?k)) = of_int (int ?k)" using assms by (intro round64_of_int) simp
    ultimately show ?thesis by simp
  next
    case False
    have "\<bar>round64 ?q - ?q\<bar> \<le> \<bar>?q\<bar> / 2 ^ 53" by (rule round64_quotient_error) simp_all
    moreover have "\<bar>?q\<bar> \<le> 65536" using assms by simp
    moreover have "\<bar>?q\<bar> / 2 ^ 53 \<le> 65536 / 2 ^ 53" using calculation(2) by (rule divide_right_mono) simp
    moreover have "(65536 / 2 ^ 53 :: rat) < 1 / 20" by simp
    ultimately have err: "\<bar>round64 ?q - ?q\<bar> < 1 / 20" by linarith
    have "1 \<le> ?j" "?j \<le> 9" using False by auto
    then have "1 / 10 \<le> (of_nat ?j / 10 :: rat)" "(of_nat ?j / 10 :: rat) \<le> 9 / 10"
      by (auto simp: divide_right_mono field_simps)
    with err q have "of_int (int ?k) \<le> round64 ?q" "round64 ?q < of_int (int ?k) + 1"
      unfolding abs_less_iff by auto
    then show ?thesis by (simp add: floor_eq_iff)
  qed
qed

lemma jt808_speed_div: "jt808_speed (unat v) = v div 10"
proof -
  have b: "unat v < 65536" using unsigned_less [where 'a = nat, of v] by simp
  have "f64_div_const (f64_of_int (int (unat v))) (of_int 10) = Fin (round64 (of_int (int (unat v)) / of_int 10))"
  proof (rule f64_quotient)
    show "\<bar>int (unat v)\<bar> < 2 ^ 53" using uint_lt2p [of v] by simp
  qed simp_all
  then have "jt808_speed (unat v) = word_of_int \<lfloor>round64 (of_int (int (unat v)) / of_int 10)\<rfloor>"
    by (simp add: jt808_speed_def)
  also have "\<dots> = word_of_nat (unat v div 10)" unfolding floor_round64_tenth [OF b] by simp
  also have "\<dots> = v div 10" 
  proof -
    have "unat v div 10 < 2 ^ LENGTH(16)" using b by simp
    then have "unat (word_of_nat (unat v div 10) :: u16) = unat v div 10" unfolding unat_of_nat by (rule mod_less)
    then show ?thesis by (simp only: word_unat_eq_iff unat_div_distrib) simp
  qed
  finally show ?thesis .
qed

lemma location_io_bits:
  "location_io a s = (\<lambda>k. if k = 236 \<and> bit a 0 \<or> k = 240 \<and> bit a 3 \<or> k = 239 \<and> bit s 5 then Some 1 else None)"
proof -
  have a: "a AND push_bit 0 1 \<noteq> 0 \<longleftrightarrow> bit a 0" "a AND push_bit 3 1 \<noteq> 0 \<longleftrightarrow> bit a 3"
    by (rule and_single_bit; simp)+
  show ?thesis unfolding location_io_def Let_def a drop_and_1 by auto
qed

lemma parseLocation_enc:
  assumes "wf_loc l"
  shows "parseLocation now (enc_loc l @ rest) = Ok (loc_record l)"
proof -
  let ?b = "enc_loc l @ rest"
  have len6: "length (l_time l) = 6" and t: "\<And>i. i < 6 \<Longrightarrow> l_time l ! i < 100"
    using assms by (auto simp: wf_loc_def list_all_length)
  have len: "length ?b = 28 + length rest" using len6 by (simp add: enc_loc_def)
  have d: "drop 0 ?b = put_be 4 (unat (l_alarm l)) @ drop 4 ?b" "drop 4 ?b = put_be 4 (unat (l_status l)) @ drop 8 ?b"
    "drop 8 ?b = put_be 4 (unat (l_lat l)) @ drop 12 ?b" "drop 12 ?b = put_be 4 (unat (l_lng l)) @ drop 16 ?b"
    "drop 16 ?b = put_be 2 (unat (l_alt l)) @ drop 18 ?b" "drop 18 ?b = put_be 2 (unat (l_speed l)) @ drop 20 ?b"
    "drop 20 ?b = put_be 2 (unat (l_dir l)) @ drop 22 ?b" "drop 22 ?b = map bcd2 (l_time l) @ rest"
    by (simp_all add: enc_loc_def)
  have u: "uint_at 4 ?b 0 = Ok (unat (l_alarm l))" "uint_at 4 ?b 4 = Ok (unat (l_status l))"
    "uint_at 4 ?b 8 = Ok (unat (l_lat l))" "uint_at 4 ?b 12 = Ok (unat (l_lng l))"
    "uint_at 2 ?b 16 = Ok (unat (l_alt l))" "uint_at 2 ?b 18 = Ok (unat (l_speed l))"
    "uint_at 2 ?b 20 = Ok (unat (l_dir l))"
    using len by (simp_all only: uint_at_u32 [OF d(1)] uint_at_u32 [OF d(2)] uint_at_u32 [OF d(3)] uint_at_u32 [OF d(4)]
      uint_at_u16 [OF d(5)] uint_at_u16 [OF d(6)] uint_at_u16 [OF d(7)])
  have sl: "slice ?b 22 28 = Ok (map bcd2 (l_time l))"
    unfolding slice_def d(8) using len6 len by simp
  have tm: "parseBCDTime now (map bcd2 (l_time l)) = Timestamp (loc_record l)"
    using len6 by (simp add: parseBCDTime_def loc_record_def bcdToDec_bcd2 t)
  show ?thesis
    unfolding parseLocation_def len u sl bind_o.simps Let_def tm jt808_coord_unat jt808_speed_div location_io_bits
    by (simp add: loc_record_def drop_and_1)
qed

text \<open>
  C30: end to end, a location report is turned into the record it encodes (signed
  coordinates correctly rounded, a tenth of the raw speed, the alarm and ignition bits as
  IO values) and acknowledged with its own sequence number under the next one.
\<close>

theorem jt808_location_report:
  assumes "pending c = frame_bytes 0x0200 phone s (enc_loc l @ extra) @ rest" "length phone = 6" "wf_loc l" "wres c = []"
  shows "\<exists>c'. jt808_ParsePacket now c = (Ok ([loc_record l], frame_bytes 0x0200 phone s (enc_loc l @ extra)), c') \<and>
     pending c' = rest \<and> outp c' = outp c @ frame_bytes 0x8002 phone (s + 1) (ackBody s 0x0200)"
proof -
  from assms(1) have "pending c = [] @ frame_bytes 0x0200 phone s (enc_loc l @ extra) @ rest" by simp
  from readFrame_on_frame [OF this _ assms(2)] assms(4) obtain c1 where r: "readFrame c = (Ok \<lparr>msgID = 0x0200, phoneNum = phone, seqNum = s, jbody = enc_loc l @ extra,
      jraw = frame_bytes 0x0200 phone s (enc_loc l @ extra)\<rparr>, c1)" and
    c1: "pending c1 = rest" "wres c1 = []" "outp c1 = outp c"
    by auto
  have w: "write_discard b c1 = (Ok (), c1\<lparr>outp := outp c1 @ b\<rparr>)" for b
    using c1 by (simp add: write_discard_def Write_ok)
  show ?thesis
    unfolding jt808_ParsePacket_def bind_wrap_Ok [of readFrame, OF r]
    using c1 by (simp add: jt808_consts parseLocation_enc [OF assms(3)] bind_io_def lift_io_def ret_io_def w)
qed

definition sample_loc :: jloc where
  "sample_loc = \<lparr>l_alarm = 1, l_status = 0x2E, l_lat = 31230416, l_lng = 121473701, l_alt = 4,
     l_speed = 605, l_dir = 90, l_time = [24, 2, 29, 12, 30, 5]\<rparr>"

theorem jt808_location_report_witness:
  "fst (jt808_ParsePacket 0 (sample_conn (frame_bytes 0x0200 [1, 0x38, 0, 0x13, 0x80, 0] 7 (enc_loc sample_loc @ [])))) =
     Ok ([loc_record sample_loc], frame_bytes 0x0200 [1, 0x38, 0, 0x13, 0x80, 0] 7 (enc_loc sample_loc @ [])) \<and>
   Speed (loc_record sample_loc) = 60 \<and> IOData (loc_record sample_loc) 239 = Some 1 \<and>
   IOData (loc_record sample_loc) 240 = None"
proof -
  let ?f = "frame_bytes 0x0200 [1, 0x38, 0, 0x13, 0x80, 0] 7 (enc_loc sample_loc @ [])"
  have wf: "wf_loc sample_loc" by (simp add: wf_loc_def sample_loc_def)
  have p: "pending (sample_conn ?f) = ?f @ []" by (simp only: pending_sample append_Nil2)
  have "fst (jt808_ParsePacket 0 (sample_conn ?f)) = Ok ([loc_record sample_loc], ?f)"
    using jt808_location_report [OF p _ wf wres_sample, of 0] by fastforce
  moreover have "bit (0x2E :: u32) 5" "\<not> bit (1 :: u32) 3" by (code_simp, simp)
  ultimately show ?thesis by (simp add: loc_record_def sample_loc_def)
qed

section \<open>Batches\<close>

definition enc_item :: "bytes \<Rightarrow> bytes" where
  "enc_item i = put_be 2 (length i) @ i"

definition enc_batch :: "byte \<Rightarrow> bytes list \<Rightarrow> bytes" where
  "enc_batch kind items = put_be 2 (length items) @ [kind] @ concat (map enc_item items)"

definition parsed_items :: "int \<Rightarrow> bytes list \<Rightarrow> ParsedRecord list" where
  "parsed_items now items = concat (map (\<lambda>i. case parseLocation now i of Ok r \<Rightarrow> [r] | _ \<Rightarrow> []) items)"

lemma batch_loop_items:
  "drop offset body = concat (map enc_item items) @ rest \<Longrightarrow> offset \<le> length body \<Longrightarrow>
   list_all (\<lambda>i. length i < 65536) items \<Longrightarrow>
   batch_loop now body (length items) offset = Ok (parsed_items now items)"
proof (induction items arbitrary: offset)
  case Nil
  then show ?case by (simp add: parsed_items_def)
next
  case (Cons i items)
  let ?o = "offset + 2 + length i"
  have d: "drop offset body = put_be 2 (length i) @ i @ concat (map enc_item items) @ rest"
    using Cons.prems(1) by (simp add: enc_item_def [of i])
  have i: "length i < 65536" and rest: "list_all (\<lambda>i. length i < 65536) items" using Cons.prems(3) by auto
  have l: "length body = offset + 2 + length i + length (concat (map enc_item items) @ rest)"
    using length_from_drop [OF d Cons.prems(2)] by simp
  have u: "uint_at 2 body offset = Ok (length i)" using uint_at_put_be [OF d Cons.prems(2)] i by simp
  have d2: "drop (offset + 2) body = i @ concat (map enc_item items) @ rest"
    using drop_append_advance [OF d] by simp
  have s: "slice body (offset + 2) ?o = Ok i" unfolding slice_def d2 using l by simp
  have "drop ?o body = concat (map enc_item items) @ rest" using drop_append_advance [OF d2] by simp
  from Cons.IH [OF this _ rest] l have IH: "batch_loop now body (length items) ?o = Ok (parsed_items now items)" by simp
  have ok: "\<not> length body < offset + 2" "\<not> length body < ?o" using l by auto
  show ?case
    unfolding length_Cons batch_loop.simps(2) u bind_o.simps if_not_P [OF ok(1)] if_not_P [OF ok(2)] s IH
    by (cases "parseLocation now i") (simp_all add: parsed_items_def)
qed

text \<open>
  C32: a batch is decoded item by item: of every item that is a location the record is
  returned, in order; items that are too short are skipped; bytes after the announced
  number of items are ignored.
\<close>

theorem jt808_batch_roundtrip:
  assumes "list_all (\<lambda>i. length i < 65536) items" "length items < 65536" "items \<noteq> []"
  shows "parseLocationBatch now (enc_batch kind items @ rest) = Ok (parsed_items now items)"
proof -
  let ?b = "enc_batch kind items @ rest"
  have d: "drop 0 ?b = put_be 2 (length items) @ [kind] @ concat (map enc_item items) @ rest"
    "drop 3 ?b = concat (map enc_item items) @ rest"
    by (simp_all add: enc_batch_def)
  have u: "uint_at 2 ?b 0 = Ok (length items)" using uint_at_put_be [OF d(1)] assms(2) by simp
  have "4 \<le> length ?b" using assms(3) by (cases items) (auto simp: enc_batch_def enc_item_def)
  then have "batch_loop now ?b (length items) 3 = Ok (parsed_items now items)" and "\<not> length ?b < 4"
    using batch_loop_items [OF d(2) _ assms(1)] by auto
  then show ?thesis unfolding parseLocationBatch_def u bind_o.simps by simp
qed

theorem jt808_batch_roundtrip_witness:
  "parseLocationBatch 0 (enc_batch 0 [enc_loc sample_loc, [1, 2, 3]] @ [0xFF]) = Ok [loc_record sample_loc]"
proof -
  have "wf_loc sample_loc" by (simp add: wf_loc_def sample_loc_def)
  from parseLocation_enc [OF this, of 0 "[]"] have "parsed_items 0 [enc_loc sample_loc, [1, 2, 3]] = [loc_record sample_loc]"
    by (simp add: parsed_items_def parseLocation_def [of _ "[_, _, _]"])
  moreover have "length (enc_loc sample_loc) = 28" by (simp add: enc_loc_def sample_loc_def)
  ultimately show ?thesis
    using jt808_batch_roundtrip [of "[enc_loc sample_loc, [1, 2, 3]]" 0 0 "[0xFF]"] by simp
qed

section \<open>Registration\<close>

text \<open>
  A device that registers and then authenticates is named by the phone number of its
  registration; it is sent the registration acknowledgement with the authorisation code
  and then an acknowledgement of the authentication, which carries the sequence number
  of the registration and not that of the authentication message.
\<close>

lemma jt808_registration:
  assumes "pending c = frame_bytes 0x0100 phone s b1 @ frame_bytes 0x0102 phone2 s2 b2 @ rest"
    "length phone = 6" "length phone2 = 6" "wres c = []"
  shows "\<exists>c'. jt808_Authenticate c = (Ok (bcdPhoneFromHeader phone), c') \<and> pending c' = rest \<and>
     outp c' = outp c @ frame_bytes 0x8100 phone s (put_be 2 (unat s) @ [0] @ bytes_of ''GPSGO_AUTH'') @
       frame_bytes 0x8001 phone (s + 1) (ackBody s 0x0102)"
proof -
  let ?ack = "frame_bytes 0x8100 phone s (put_be 2 (unat s) @ [0] @ bytes_of ''GPSGO_AUTH'')"
  from assms(1) have "pending c = [] @ frame_bytes 0x0100 phone s b1 @ frame_bytes 0x0102 phone2 s2 b2 @ rest" by simp
  from readFrame_on_frame [OF this _ assms(2)] assms(4) obtain c1 where r1: "readFrame c = (Ok \<lparr>msgID = 0x0100, phoneNum = phone, seqNum = s, jbody = b1,
      jraw = frame_bytes 0x0100 phone s b1\<rparr>, c1)" and
    c1: "pending c1 = frame_bytes 0x0102 phone2 s2 b2 @ rest" "wres c1 = []" "outp c1 = outp c"
    by auto
  obtain c2 where c2: "Write ?ack c1 = (Ok (), c2)" "pending c2 = [] @ frame_bytes 0x0102 phone2 s2 b2 @ rest"
    "wres c2 = []" "outp c2 = outp c @ ?ack"
    using c1 by (simp add: Write_ok)
  from readFrame_on_frame [OF c2(2) _ assms(3)] c2(3,4) obtain c3 where
    r2: "readFrame c2 = (Ok \<lparr>msgID = 0x0102, phoneNum = phone2, seqNum = s2, jbody = b2,
      jraw = frame_bytes 0x0102 phone2 s2 b2\<rparr>, c3)" and
    c3: "pending c3 = rest" "wres c3 = []" "outp c3 = outp c @ ?ack"
    by auto
  have w: "Write b c3 = (Ok (), c3\<lparr>outp := outp c3 @ b\<rparr>)" for b
    using c3 by (simp add: Write_ok)
  show ?thesis
    unfolding jt808_Authenticate_def bind_wrap_Ok [of readFrame, OF r1]
    using c2(1) c3 by (simp add: jt808_consts authCode_def bind_io_def wrap_io_def lift_io_def ret_io_def writeFrame_def w r2)
qed

lemma jt808_registration_witness:
  "fst (jt808_Authenticate (sample_conn (frame_bytes 0x0100 [1, 0x38, 0, 0x13, 0x80, 0] 5 [] @
     frame_bytes 0x0102 [1, 0x38, 0, 0x13, 0x80, 0] 6 [] @ []))) = Ok ''013800138000''"
proof -
  have "bcdPhoneFromHeader [1, 0x38, 0, 0x13, 0x80, 0] = ''013800138000''" by code_simp
  then show ?thesis
    using jt808_registration [OF pending_sample _ _ wres_sample, of "[1, 0x38, 0, 0x13, 0x80, 0]" "[1, 0x38, 0, 0x13, 0x80, 0]" 5 "[]" 6 "[]" "[]"]
    by (fastforce simp del: append.simps append_Nil2)
qed

end
