(* ===== verification/Server.thy ===== *)
theory Server
  imports Protocol Conn "HOL-Library.Sublist"
begin

text \<open>
  The TCP server of the ingestion service (\<open>internal/server/tcp_server.go\<close> and
  \<open>conn_registry.go\<close>): the error classification, one connection's life as a sequential
  program over its connection, and the connection registry the goroutines share.
\<close>

section \<open>Error classification\<close>

text \<open>The inner loop over the start positions, then the loop over the substrings.\<close>

fun contains_from :: "string \<Rightarrow> string \<Rightarrow> nat \<Rightarrow> nat \<Rightarrow> bool" where
  "contains_from s sub i 0 = False"
| "contains_from s sub i (Suc n) =
     (if take (length sub) (drop i s) = sub then True else contains_from s sub (Suc i) n)"

fun containsAny :: "string \<Rightarrow> string list \<Rightarrow> bool" where
  "containsAny s [] = False"
| "containsAny s (sub # subs) =
     (if length sub \<le> length s \<and> contains_from s sub 0 (length s - length sub + 1) then True
      else containsAny s subs)"

definition isClosedOrEOF :: "goerr \<Rightarrow> bool" where
  "isClosedOrEOF err = containsAny (Error err) [''EOF'', ''closed'', ''reset by peer'', ''broken pipe'']"

section \<open>One connection\<close>

text \<open>
  How \<open>handleConn\<close> ends: with a refused handshake, a closed connection, a parse error, a
  cancelled context, or a panic of the handler, which nothing recovers.
\<close>

datatype conn_end = AuthFailed | ConnClosed | ParseError goerr | CtxDone | Crashed

text \<open>
  The parse loop. \<open>budget\<close> is the number of iterations after which the context is seen
  cancelled. The result: how it ended, the calls of \<open>onRecord\<close> in order, the connection.
\<close>

fun parse_loop :: "handler \<Rightarrow> string \<Rightarrow> nat \<Rightarrow> conn \<Rightarrow> conn_end \<times> (string \<times> ParsedRecord list) list \<times> conn" where
  "parse_loop h deviceID 0 c = (CtxDone, [], c)"
| "parse_loop h deviceID (Suc budget) c =
     (case ParsePacket h c of
        (Err (err, raw), c') \<Rightarrow> ((if isClosedOrEOF err then ConnClosed else ParseError err), [], c')
      | (Panic, c') \<Rightarrow> (Crashed, [], c')
      | (Ok (records, raw), c') \<Rightarrow>
          (case parse_loop h deviceID budget c' of
             (e, calls, c'') \<Rightarrow>
               (e, (if 0 < length records then [(deviceID, map (\<lambda>r. r\<lparr>DeviceID := deviceID\<rparr>) records)] else []) @ calls, c'')))"

text \<open>The result also says which device was registered for the duration of the loop.\<close>

definition handleConn :: "handler \<Rightarrow> nat \<Rightarrow> conn \<Rightarrow> conn_end \<times> string option \<times> (string \<times> ParsedRecord list) list \<times> conn" where
  "handleConn h budget c =
     (case Authenticate h c of
        (Err e, c') \<Rightarrow> (AuthFailed, None, [], c')
      | (Panic, c') \<Rightarrow> (Crashed, None, [], c')
      | (Ok deviceID, c') \<Rightarrow>
          (case parse_loop h deviceID budget c' of (e, calls, c'') \<Rightarrow> (e, Some deviceID, calls, c'')))"

section \<open>The connection registry\<close>

text \<open>
  Connections are shared between the goroutines and the registry, so they live in a store
  and are referred to by number. Every operation runs under the registry's lock. A write
  to a closed connection fails.
\<close>

record sock =
  link :: conn
  is_closed :: bool

record net =
  socks :: "nat \<Rightarrow> sock"
  conns :: "string \<rightharpoonup> nat"

definition NewConnRegistry :: "string \<rightharpoonup> nat" where
  "NewConnRegistry = Map.empty"

definition sock_Close :: "nat \<Rightarrow> net \<Rightarrow> net" where
  "sock_Close i w = w\<lparr>socks := (socks w)(i := (socks w i)\<lparr>is_closed := True\<rparr>)\<rparr>"

definition ConnRegistry_Register :: "string \<Rightarrow> nat \<Rightarrow> net \<Rightarrow> net" where
  "ConnRegistry_Register deviceID i w =
     (let w1 = (case conns w deviceID of Some old \<Rightarrow> sock_Close old w | None \<Rightarrow> w)
      in w1\<lparr>conns := (conns w1)(deviceID \<mapsto> i)\<rparr>)"

definition ConnRegistry_Unregister :: "string \<Rightarrow> net \<Rightarrow> net" where
  "ConnRegistry_Unregister deviceID w = w\<lparr>conns := (conns w)(deviceID := None)\<rparr>"

definition ConnRegistry_Send :: "string \<Rightarrow> bytes \<Rightarrow> net \<Rightarrow> (goerr, unit) outcome \<times> net" where
  "ConnRegistry_Send deviceID data w =
     (case conns w deviceID of
        None \<Rightarrow> (Err (Errorf (''device not connected: '' @ deviceID)), w)
      | Some i \<Rightarrow>
          (if is_closed (socks w i) then (Err (NetErr ''use of closed network connection''), w)
           else (case Write data (link (socks w i)) of (r, l) \<Rightarrow>
                  (r, w\<lparr>socks := (socks w)(i := (socks w i)\<lparr>link := l\<rparr>)\<rparr>))))"

definition ConnRegistry_Connected :: "string \<Rightarrow> net \<Rightarrow> bool" where
  "ConnRegistry_Connected deviceID w \<longleftrightarrow> conns w deviceID \<noteq> None"

definition ConnRegistry_Count :: "net \<Rightarrow> nat" where
  "ConnRegistry_Count w = card (dom (conns w))"

section \<open>The goroutines\<close>

text \<open>
  A connection's goroutine goes through the phases of \<open>handleConn\<close>: it authenticates,
  serves a device between \<open>Register\<close> and the deferred \<open>Unregister\<close>, and then runs the
  deferred \<open>Close\<close>. Goroutines interleave between these points.
\<close>

datatype phase = Absent | Authenticating | Serving string | Unregistered string | Finished

record server =
  world :: net
  phases :: "nat \<Rightarrow> phase"
  accepted :: nat

definition server_init :: "(nat \<Rightarrow> sock) \<Rightarrow> server" where
  "server_init s = \<lparr>world = \<lparr>socks = s, conns = NewConnRegistry\<rparr>, phases = (\<lambda>_. Absent), accepted = 0\<rparr>"

inductive server_step :: "server \<Rightarrow> server \<Rightarrow> bool" where
  accept: "server_step s (s\<lparr>phases := (phases s)(accepted s := Authenticating),
     world := (world s)\<lparr>socks := (socks (world s))(accepted s := (socks (world s) (accepted s))\<lparr>is_closed := False\<rparr>)\<rparr>,
     accepted := Suc (accepted s)\<rparr>)"
| auth_fail: "phases s i = Authenticating \<Longrightarrow>
     server_step s (s\<lparr>phases := (phases s)(i := Finished), world := sock_Close i (world s)\<rparr>)"
| auth_ok: "phases s i = Authenticating \<Longrightarrow>
     server_step s (s\<lparr>phases := (phases s)(i := Serving deviceID),
       world := ConnRegistry_Register deviceID i (world s)\<rparr>)"
| unregister: "phases s i = Serving deviceID \<Longrightarrow>
     server_step s (s\<lparr>phases := (phases s)(i := Unregistered deviceID),
       world := ConnRegistry_Unregister deviceID (world s)\<rparr>)"
| close: "phases s i = Unregistered deviceID \<Longrightarrow>
     server_step s (s\<lparr>phases := (phases s)(i := Finished), world := sock_Close i (world s)\<rparr>)"
| send: "server_step s (s\<lparr>world := snd (ConnRegistry_Send deviceID data (world s))\<rparr>)"

inductive_cases server_stepE: "server_step s s'"

section \<open>The classification is a substring test\<close>

lemma contains_from_iff:
  "contains_from s sub i n \<longleftrightarrow> (\<exists>j. i \<le> j \<and> j < i + n \<and> take (length sub) (drop j s) = sub)"
proof (induction n arbitrary: i)
  case (Suc n)
  show ?case
  proof (cases "take (length sub) (drop i s) = sub")
    case True
    then show ?thesis by auto
  next
    case False
    then have "(\<exists>j. i \<le> j \<and> j < i + Suc n \<and> take (length sub) (drop j s) = sub) \<longleftrightarrow>
        (\<exists>j. Suc i \<le> j \<and> j < Suc i + n \<and> take (length sub) (drop j s) = sub)"
      by (metis Suc_leD Suc_leI add_Suc add_Suc_right le_neq_implies_less)
    with False Suc show ?thesis by simp
  qed
qed simp

lemma sublist_iff_position:
  "sublist sub s \<longleftrightarrow> length sub \<le> length s \<and> (\<exists>j. j \<le> length s - length sub \<and> take (length sub) (drop j s) = sub)"
proof
  assume "sublist sub s"
  then obtain ps ss where s: "s = ps @ sub @ ss" by (auto simp: sublist_def)
  then have "length ps \<le> length s - length sub" "take (length sub) (drop (length ps) s) = sub" by auto
  moreover have "length sub \<le> length s" using s by simp
  ultimately show "length sub \<le> length s \<and> (\<exists>j. j \<le> length s - length sub \<and> take (length sub) (drop j s) = sub)" by blast
next
  assume "length sub \<le> length s \<and> (\<exists>j. j \<le> length s - length sub \<and> take (length sub) (drop j s) = sub)"
  then obtain j where "take (length sub) (drop j s) = sub" by blast
  then have "s = take j s @ sub @ drop (length sub) (drop j s)" by (metis append_take_drop_id)
  then show "sublist sub s" by (auto simp: sublist_def)
qed

lemma containsAny_iff: "containsAny s subs \<longleftrightarrow> (\<exists>sub \<in> set subs. sublist sub s)"
  by (induction subs) (auto simp: contains_from_iff sublist_iff_position less_Suc_eq_le)

text \<open>
  The hand-written search is a substring test: an error counts as a closed connection
  exactly when its text contains one of the four markers.
\<close>

lemma isClosedOrEOF_iff:
  "isClosedOrEOF err \<longleftrightarrow>
   (\<exists>sub \<in> {''EOF'', ''closed'', ''reset by peer'', ''broken pipe''}. sublist sub (Error err))"
  by (simp add: isClosedOrEOF_def containsAny_iff)

section \<open>Errors of the network stack\<close>

lemma sublist_EOF: "sublist ''EOF'' (Error EOF)" "sublist ''EOF'' (Error UnexpectedEOF)"
  by (auto simp: sublist_def intro: exI [of _ "''unexpected ''"])

lemma sublist_Wrapf: "sublist sub (Error e) \<Longrightarrow> sublist sub (Error (Wrapf s e))"
  by (auto simp: sublist_def) (metis append.assoc append_Cons)

text \<open>Wrapping an error does not change how it is classified as closed.\<close>

lemma isClosedOrEOF_wrap: "isClosedOrEOF e \<Longrightarrow> isClosedOrEOF (Wrapf s e)"
  unfolding isClosedOrEOF_def containsAny_iff using sublist_Wrapf by blast

lemma isClosedOrEOF_EOF [simp]: "isClosedOrEOF EOF" "isClosedOrEOF UnexpectedEOF"
  unfolding isClosedOrEOF_def containsAny_iff using sublist_EOF by auto

section \<open>The parse loop ends\<close>

text \<open>
  What the parse loop needs of a protocol: a packet that is returned has taken bytes off
  the connection. Then the loop ends by itself, since only finitely many bytes arrive
  before the connection ends, and the budget plays no role.
\<close>

locale consuming =
  fixes h :: handler
  assumes consumes: "ParsePacket h c = (Ok x, c') \<Longrightarrow> length (pending c') < length (pending c)"
begin

lemma loop_ends:
  "length (pending c) < budget \<Longrightarrow> fst (parse_loop h d budget c) \<noteq> CtxDone"
proof (induction budget arbitrary: c)
  case (Suc budget)
  obtain r c' where r: "ParsePacket h c = (r, c')" by fastforce
  have IH: "fst (parse_loop h d budget c') \<noteq> CtxDone" if "r = Ok x" for x
  proof (rule Suc.IH)
    show "length (pending c') < budget" using consumes [OF r [unfolded that]] Suc.prems by linarith
  qed
  then show ?case using r by (cases r) (auto split: prod.splits)
qed simp

lemma loop_budget_irrelevant:
  "length (pending c) < b1 \<Longrightarrow> length (pending c) < b2 \<Longrightarrow> parse_loop h d b1 c = parse_loop h d b2 c"
proof (induction b1 arbitrary: b2 c)
  case (Suc b1)
  then obtain b2' where b2: "b2 = Suc b2'" by (cases b2) auto
  obtain r c' where r: "ParsePacket h c = (r, c')" by fastforce
  have "parse_loop h d b1 c' = parse_loop h d b2' c'" if "r = Ok x" for x
  proof (rule Suc.IH)
    show "length (pending c') < b1" "length (pending c') < b2'"
      using consumes [OF r [unfolded that]] Suc.prems b2 by linarith+
  qed
  then show ?case using r by (cases r) (simp_all add: b2 split: prod.splits)
qed simp

end

section \<open>Connections that cannot crash the service\<close>

text \<open>
  A panic in a connection's goroutine ends the whole process, since nothing recovers it. A
  handler that never panics keeps every connection from crashing.
\<close>

locale panic_free =
  fixes h :: handler
  assumes auth_safe: "fst (Authenticate h c) \<noteq> Panic"
    and parse_safe: "fst (ParsePacket h c) \<noteq> Panic"
begin

lemma loop_safe: "fst (parse_loop h d budget c) \<noteq> Crashed"
proof (induction budget arbitrary: c)
  case (Suc budget)
  obtain r c' where r: "ParsePacket h c = (r, c')" by fastforce
  have "r \<noteq> Panic" using parse_safe [of c] r by simp
  with r Suc.IH [of c'] show ?case by (cases r) (auto split: prod.splits)
qed simp

lemma never_crashes: "fst (handleConn h budget c) \<noteq> Crashed"
proof -
  obtain r c' where r: "Authenticate h c = (r, c')" by fastforce
  have "r \<noteq> Panic" using auth_safe [of c] r by simp
  with r show ?thesis using loop_safe [of _ budget c'] by (cases r) (auto simp: handleConn_def split: prod.splits dest: arg_cong [of _ _ fst])
qed

end

section \<open>The registry's contract\<close>

text \<open>
  What the goroutines rely on: a registration makes the connection the one a device's
  commands go to, an unregistration ends that, and other devices are not affected.
\<close>

locale device_registry =
  fixes register :: "string \<Rightarrow> nat \<Rightarrow> 'w \<Rightarrow> 'w"
    and unregister :: "string \<Rightarrow> 'w \<Rightarrow> 'w"
    and target :: "'w \<Rightarrow> string \<Rightarrow> nat option"
    and connected :: "string \<Rightarrow> 'w \<Rightarrow> bool"
    and open_sock :: "'w \<Rightarrow> nat \<Rightarrow> bool"
  assumes target_register: "target (register d i w) = (target w)(d \<mapsto> i)"
    and target_unregister: "target (unregister d w) = (target w)(d := None)"
    and connected_iff: "connected d w \<longleftrightarrow> target w d \<noteq> None"
    and open_register: "open_sock (register d i w) j \<longleftrightarrow> open_sock w j \<and> target w d \<noteq> Some j"
    and open_unregister: "open_sock (unregister d w) j \<longleftrightarrow> open_sock w j"
begin

text \<open>Re-registering a device disconnects its previous connection and no other.\<close>

lemma reregister_closes_old:
  "target w d = Some old \<Longrightarrow> old \<noteq> i \<Longrightarrow>
   target (register d i w) d = Some i \<and> \<not> open_sock (register d i w) old"
  by (simp add: target_register open_register)

lemma register_keeps_others:
  "d' \<noteq> d \<Longrightarrow> connected d' (register d i w) = connected d' w"
  by (simp add: target_register connected_iff)

text \<open>An unregistration goes by device, so it also undoes a later registration.\<close>

lemma unregister_after_reregister:
  "\<not> connected d (unregister d (register d i w))"
  by (simp add: target_unregister connected_iff)

end

lemma socks_register:
  "is_closed (socks (ConnRegistry_Register d i w) j) \<longleftrightarrow> is_closed (socks w j) \<or> conns w d = Some j"
  by (auto simp: ConnRegistry_Register_def sock_Close_def Let_def split: option.splits)

lemma conns_register: "conns (ConnRegistry_Register d i w) = (conns w)(d \<mapsto> i)"
  by (auto simp: ConnRegistry_Register_def sock_Close_def Let_def split: option.splits)

lemma conns_close [simp]: "conns (sock_Close i w) = conns w"
  by (simp add: sock_Close_def)

lemma socks_close: "is_closed (socks (sock_Close i w) j) \<longleftrightarrow> j = i \<or> is_closed (socks w j)"
  by (simp add: sock_Close_def)

lemma unregister_fields:
  "conns (ConnRegistry_Unregister d w) = (conns w)(d := None)"
  "socks (ConnRegistry_Unregister d w) = socks w"
  by (simp_all add: ConnRegistry_Unregister_def)

lemma send_fields:
  "conns (snd (ConnRegistry_Send d b w)) = conns w"
  "is_closed (socks (snd (ConnRegistry_Send d b w)) j) = is_closed (socks w j)"
  by (auto simp: ConnRegistry_Send_def split: option.splits prod.splits)

lemmas registry_fields = conns_register socks_register socks_close unregister_fields send_fields

interpretation cr: device_registry ConnRegistry_Register ConnRegistry_Unregister conns
  ConnRegistry_Connected "\<lambda>w i. \<not> is_closed (socks w i)"
  by unfold_locales (auto simp: registry_fields ConnRegistry_Connected_def)

section \<open>Reachable states\<close>

definition server_inv :: "server \<Rightarrow> bool" where
  "server_inv s \<longleftrightarrow>
     (\<forall>i. accepted s \<le> i \<longrightarrow> phases s i = Absent) \<and>
     (\<forall>i. phases s i = Authenticating \<longrightarrow> \<not> is_closed (socks (world s) i)) \<and>
     (\<forall>d i. conns (world s) d = Some i \<longrightarrow> phases s i = Serving d \<and> \<not> is_closed (socks (world s) i))"

lemma server_inv_init: "server_inv (server_init s)"
  by (simp add: server_inv_def server_init_def NewConnRegistry_def)

lemma server_inv_step:
  assumes "server_step s s'" "server_inv s"
  shows "server_inv s'"
  using assms
proof (cases rule: server_step.cases)
  case accept
  have "phases s (accepted s) = Absent" using assms(2) by (simp add: server_inv_def)
  with accept assms(2) show ?thesis unfolding server_inv_def
    by (auto simp: registry_fields)
next
  case (auth_fail i)
  with assms(2) show ?thesis unfolding server_inv_def
    by (auto simp: registry_fields)
next
  case (auth_ok i d)
  have "conns (world s) d \<noteq> Some j" if "da \<noteq> d" "conns (world s) da = Some j" for da j
    using assms(2) that unfolding server_inv_def by (metis phase.inject(1))
  with auth_ok assms(2) show ?thesis unfolding server_inv_def
    by (auto simp: registry_fields)
next
  case (unregister i d)
  with assms(2) show ?thesis unfolding server_inv_def
    by (auto simp: registry_fields split: if_splits)
next
  case (close i d)
  with assms(2) show ?thesis unfolding server_inv_def
    by (auto simp: registry_fields)
next
  case (send d b)
  with assms(2) show ?thesis unfolding server_inv_def by (auto simp: registry_fields)
qed

lemma server_inv_reachable: "server_step\<^sup>*\<^sup>* (server_init s0) s \<Longrightarrow> server_inv s"
  by (induction rule: rtranclp_induct) (auto intro: server_inv_init server_inv_step)


text \<open>A state with one registered device, reached in two steps.\<close>

definition one_device :: "(nat \<Rightarrow> sock) \<Rightarrow> string \<Rightarrow> server" where
  "one_device s0 d =
     (let s1 = (server_init s0)\<lparr>phases := (\<lambda>_. Absent)(0 := Authenticating),
                 world := \<lparr>socks = s0(0 := (s0 0)\<lparr>is_closed := False\<rparr>), conns = NewConnRegistry\<rparr>, accepted := 1\<rparr>
      in s1\<lparr>phases := (phases s1)(0 := Serving d), world := ConnRegistry_Register d 0 (world s1)\<rparr>)"

lemma one_device_reachable: "server_step\<^sup>*\<^sup>* (server_init s0) (one_device s0 d)"
proof -
  let ?s1 = "(server_init s0)\<lparr>phases := (\<lambda>_. Absent)(0 := Authenticating),
     world := \<lparr>socks = s0(0 := (s0 0)\<lparr>is_closed := False\<rparr>), conns = NewConnRegistry\<rparr>, accepted := 1\<rparr>"
  have "server_step (server_init s0) ?s1" using server_step.accept [of "server_init s0"] by (simp add: server_init_def)
  moreover have "server_step ?s1 (one_device s0 d)"
    unfolding one_device_def Let_def by (rule server_step.auth_ok) simp
  ultimately show ?thesis by (meson rtranclp.simps)
qed


text \<open>
  C26: the registry can lose a device that is connected: when a device reconnects before
  the goroutine of its old connection has ended, that goroutine's deferred unregistration
  removes the entry of the new connection. The new connection is open and served, but
  every command is refused as if the device were not connected, and a further
  reconnection leaves two open connections serving the device.
\<close>

theorem reconnect_loses_device:
  "\<exists>s s'. server_step\<^sup>*\<^sup>* (server_init s0) s \<and> server_step\<^sup>*\<^sup>* s s' \<and>
     phases s 1 = Serving d \<and> \<not> is_closed (socks (world s) 1) \<and>
     fst (ConnRegistry_Send d data (world s)) = Err (Errorf (''device not connected: '' @ d)) \<and>
     phases s' 1 = Serving d \<and> phases s' 2 = Serving d \<and>
     \<not> is_closed (socks (world s') 1) \<and> \<not> is_closed (socks (world s') 2)"
proof -
  let ?acc = "\<lambda>s :: server. s\<lparr>phases := (phases s)(accepted s := Authenticating),
     world := (world s)\<lparr>socks := (socks (world s))(accepted s := (socks (world s) (accepted s))\<lparr>is_closed := False\<rparr>)\<rparr>,
     accepted := Suc (accepted s)\<rparr>"
  let ?auth = "\<lambda>i s :: server. s\<lparr>phases := (phases s)(i := Serving d), world := ConnRegistry_Register d i (world s)\<rparr>"
  let ?unreg = "\<lambda>i s :: server. s\<lparr>phases := (phases s)(i := Unregistered d), world := ConnRegistry_Unregister d (world s)\<rparr>"
  define s2 where "s2 = ?auth 0 (?acc (server_init s0))"
  define s4 where "s4 = ?auth 1 (?acc s2)"
  define s5 where "s5 = ?unreg 0 s4"
  define s7 where "s7 = ?auth 2 (?acc s5)"
  have a2: "accepted s2 = 1" "accepted s4 = 2" "accepted s5 = 2" by (simp_all add: s2_def s4_def s5_def server_init_def)
  have st: "server_step s (?acc s)" for s by (rule server_step.accept)
  have step2: "server_step\<^sup>*\<^sup>* s (?auth (accepted s) (?acc s))" for s
  proof -
    have "server_step (?acc s) (?auth (accepted s) (?acc s))" by (rule server_step.auth_ok) simp
    then show ?thesis by (rule rtranclp.rtrancl_into_rtrancl [OF r_into_rtranclp [of server_step, OF st]])
  qed
  have r2: "server_step\<^sup>*\<^sup>* (server_init s0) s2" using step2 [of "server_init s0"] by (simp add: s2_def server_init_def)
  have r4: "server_step\<^sup>*\<^sup>* s2 s4" using step2 [of s2] unfolding s4_def a2 .
  have r5: "server_step s4 s5" unfolding s5_def
    by (rule server_step.unregister) (simp add: s4_def s2_def server_init_def)
  have r7: "server_step\<^sup>*\<^sup>* s5 s7" using step2 [of s5] unfolding s7_def a2 .
  have "server_step\<^sup>*\<^sup>* (server_init s0) s5" using r2 r4 r5 by (meson rtranclp.rtrancl_into_rtrancl rtranclp_trans)
  moreover have "phases s5 1 = Serving d" "\<not> is_closed (socks (world s5) 1)" "conns (world s5) d = None"
    by (simp_all add: s5_def s4_def s2_def server_init_def registry_fields a2 NewConnRegistry_def)
  moreover have "phases s7 1 = Serving d" "phases s7 2 = Serving d"
    "\<not> is_closed (socks (world s7) 1)" "\<not> is_closed (socks (world s7) 2)"
    by (simp_all add: s7_def s5_def s4_def s2_def server_init_def registry_fields a2 NewConnRegistry_def)
  ultimately show ?thesis using r7 by (intro exI [of _ s5] exI [of _ s7]) (simp add: ConnRegistry_Send_def)
qed

end
