(* ===== verification/Go_Strings.thy ===== *)
theory Go_Strings
  imports Prelude
begin

text \<open>
  The functions of Go's \<open>strings\<close>, \<open>unicode/utf8\<close> and \<open>strconv\<close> packages the services
  use on text. A string is its bytes; ranging over it decodes UTF-8, with the replacement
  character for a byte that is not part of a valid encoding.
\<close>

section \<open>UTF-8\<close>

definition RuneError :: nat where
  "RuneError = 0xFFFD"

definition is_cont :: "nat \<Rightarrow> bool" where
  "is_cont b \<longleftrightarrow> 0x80 \<le> b \<and> b \<le> 0xBF"

text \<open>
  \<open>utf8.DecodeRuneInString\<close>: the first rune and its width in bytes. The range of the second
  byte excludes overlong encodings, surrogates and values above U+10FFFF.
\<close>

definition second_ok :: "nat \<Rightarrow> nat \<Rightarrow> bool" where
  "second_ok b0 b1 \<longleftrightarrow>
     (if b0 = 0xE0 then 0xA0 \<le> b1 \<and> b1 \<le> 0xBF
      else if b0 = 0xED then 0x80 \<le> b1 \<and> b1 \<le> 0x9F
      else if b0 = 0xF0 then 0x90 \<le> b1 \<and> b1 \<le> 0xBF
      else if b0 = 0xF4 then 0x80 \<le> b1 \<and> b1 \<le> 0x8F
      else is_cont b1)"

definition DecodeRune :: "string \<Rightarrow> nat \<times> nat" where
  "DecodeRune s =
     (case map of_char s of
        [] \<Rightarrow> (RuneError, 0)
      | b0 # r \<Rightarrow>
          if b0 < 0x80 then (b0, 1)
          else if 0xC2 \<le> b0 \<and> b0 \<le> 0xDF then
            (case r of b1 # _ \<Rightarrow> if second_ok b0 b1 then ((b0 - 0xC0) * 64 + (b1 - 0x80), 2) else (RuneError, 1)
                     | _ \<Rightarrow> (RuneError, 1))
          else if 0xE0 \<le> b0 \<and> b0 \<le> 0xEF then
            (case r of b1 # b2 # _ \<Rightarrow>
               if second_ok b0 b1 \<and> is_cont b2
               then ((b0 - 0xE0) * 4096 + (b1 - 0x80) * 64 + (b2 - 0x80), 3) else (RuneError, 1)
             | _ \<Rightarrow> (RuneError, 1))
          else if 0xF0 \<le> b0 \<and> b0 \<le> 0xF4 then
            (case r of b1 # b2 # b3 # _ \<Rightarrow>
               if second_ok b0 b1 \<and> is_cont b2 \<and> is_cont b3
               then ((b0 - 0xF0) * 262144 + (b1 - 0x80) * 4096 + (b2 - 0x80) * 64 + (b3 - 0x80), 4)
               else (RuneError, 1)
             | _ \<Rightarrow> (RuneError, 1))
          else (RuneError, 1))"

lemma DecodeRune_width: "s \<noteq> [] \<Longrightarrow> 0 < snd (DecodeRune s)"
  by (cases s) (auto simp: DecodeRune_def split: list.splits)

text \<open>The runes a \<open>for _, c := range s\<close> loop visits.\<close>

function runes :: "string \<Rightarrow> nat list" where
  "runes [] = []"
| "runes (ch # s) = fst (DecodeRune (ch # s)) # runes (drop (snd (DecodeRune (ch # s))) (ch # s))"
  by pat_completeness auto
termination
proof (relation "measure length")
  show "(drop (snd (DecodeRune (ch # s))) (ch # s), ch # s) \<in> measure length" for ch s
    using DecodeRune_width [of "ch # s"] by simp
qed simp

text \<open>\<open>utf8.DecodeLastRuneInString\<close>: back over at most three continuation bytes.\<close>

definition DecodeLastRune :: "string \<Rightarrow> nat \<times> nat" where
  "DecodeLastRune s =
     (let k = length (takeWhile (\<lambda>ch. is_cont (of_char ch)) (rev s));
          w = min (min (k + 1) 4) (length s);
          d = DecodeRune (drop (length s - w) s)
      in if snd d = w then d else (RuneError, 1))"

definition is_ascii :: "string \<Rightarrow> bool" where
  "is_ascii s \<longleftrightarrow> list_all (\<lambda>ch. of_char ch < (0x80 :: nat)) s"

lemma DecodeRune_ascii: "of_char ch < (0x80 :: nat) \<Longrightarrow> DecodeRune (ch # s) = (of_char ch, 1)"
  by (simp add: DecodeRune_def)

lemma runes_ascii: "is_ascii s \<Longrightarrow> runes s = map of_char s"
  by (induction s) (simp_all add: is_ascii_def DecodeRune_ascii)

lemma DecodeLastRune_ascii:
  assumes "of_char ch < (0x80 :: nat)"
  shows "DecodeLastRune (s @ [ch]) = (of_char ch, 1)"
proof -
  have "\<not> is_cont (of_char ch)" using assms by (simp add: is_cont_def)
  then show ?thesis by (simp add: DecodeLastRune_def DecodeRune_ascii [OF assms])
qed

section \<open>Lower case\<close>

text \<open>\<open>utf8.EncodeRune\<close>; what is not a Unicode scalar value becomes the replacement character.\<close>

definition EncodeRune :: "nat \<Rightarrow> string" where
  "EncodeRune r0 =
     (let r = (if 0x10FFFF < r0 \<or> 0xD800 \<le> r0 \<and> r0 \<le> 0xDFFF then RuneError else r0) in
      map char_of
       (if r < 0x80 then [r]
        else if r < 0x800 then [0xC0 + r div 64, 0x80 + r mod 64]
        else if r < 0x10000 then [0xE0 + r div 4096, 0x80 + r div 64 mod 64, 0x80 + r mod 64]
        else [0xF0 + r div 262144, 0x80 + r div 4096 mod 64, 0x80 + r div 64 mod 64, 0x80 + r mod 64]))"

text \<open>
  \<open>strings.ToLower\<close>: byte by byte on ASCII, rune by rune otherwise (an invalid byte becomes
  the replacement character). \<open>tbl\<close> is Unicode's table for the runes above ASCII.
\<close>

definition rune_ToLower :: "(nat \<Rightarrow> nat) \<Rightarrow> nat \<Rightarrow> nat" where
  "rune_ToLower tbl r = (if r < 0x80 then (if 65 \<le> r \<and> r \<le> 90 then r + 32 else r) else tbl r)"

definition ToLower :: "(nat \<Rightarrow> nat) \<Rightarrow> string \<Rightarrow> string" where
  "ToLower tbl s =
     (if is_ascii s then map (\<lambda>ch. char_of (rune_ToLower tbl (of_char ch))) s
      else concat (map (\<lambda>r. EncodeRune (rune_ToLower tbl r)) (runes s)))"

section \<open>Trimming\<close>

text \<open>\<open>unicode.IsSpace\<close>.\<close>

definition IsSpace :: "nat \<Rightarrow> bool" where
  "IsSpace r \<longleftrightarrow> r \<in> {9, 10, 11, 12, 13, 32, 0x85, 0xA0, 0x1680, 0x2028, 0x2029, 0x202F, 0x205F, 0x3000}
     \<or> 0x2000 \<le> r \<and> r \<le> 0x200A"

function TrimLeftSpace :: "string \<Rightarrow> string" where
  "TrimLeftSpace s =
     (if s = [] then [] else if IsSpace (fst (DecodeRune s)) then TrimLeftSpace (drop (snd (DecodeRune s)) s) else s)"
  by pat_completeness auto
termination
proof (relation "measure length")
  show "s \<noteq> [] \<Longrightarrow> IsSpace (fst (DecodeRune s)) \<Longrightarrow> (drop (snd (DecodeRune s)) s, s) \<in> measure length" for s
    using DecodeRune_width [of s] by simp
qed simp

lemma DecodeLastRune_width: "s \<noteq> [] \<Longrightarrow> 0 < snd (DecodeLastRune s)"
  using DecodeRune_width [of "drop (length s - min (min (k + 1) 4) (length s)) s" for k]
  by (auto simp: DecodeLastRune_def Let_def)

function TrimRightSpace :: "string \<Rightarrow> string" where
  "TrimRightSpace s =
     (if s = [] then []
      else if IsSpace (fst (DecodeLastRune s)) then TrimRightSpace (take (length s - snd (DecodeLastRune s)) s) else s)"
  by pat_completeness auto
termination
proof (relation "measure length")
  show "s \<noteq> [] \<Longrightarrow> IsSpace (fst (DecodeLastRune s)) \<Longrightarrow> (take (length s - snd (DecodeLastRune s)) s, s) \<in> measure length" for s
    using DecodeLastRune_width [of s] by simp
qed simp

declare TrimLeftSpace.simps [simp del] TrimRightSpace.simps [simp del]

definition TrimSpace :: "string \<Rightarrow> string" where
  "TrimSpace s = TrimRightSpace (TrimLeftSpace s)"

text \<open>\<open>strings.Trim(s, cutset)\<close> for a cutset of ASCII characters, where it works on bytes.\<close>

definition TrimCut :: "string \<Rightarrow> string \<Rightarrow> string" where
  "TrimCut s cutset =
     rev (dropWhile (\<lambda>ch. ch \<in> set cutset) (rev (dropWhile (\<lambda>ch. ch \<in> set cutset) s)))"

text \<open>Text that starts and ends with a printable ASCII character is left alone.\<close>

definition plain_char :: "char \<Rightarrow> bool" where
  "plain_char ch \<longleftrightarrow> 32 < (of_char ch :: nat) \<and> of_char ch < (0x80 :: nat)"

lemma plain_not_space: "plain_char ch \<Longrightarrow> \<not> IsSpace (of_char ch)"
  by (auto simp: plain_char_def IsSpace_def)

lemma TrimLeftSpace_plain: "plain_char (hd s) \<Longrightarrow> TrimLeftSpace s = s"
  using plain_not_space [of "hd s"]
  by (cases s) (simp_all add: TrimLeftSpace.simps DecodeRune_ascii plain_char_def)

lemma TrimRightSpace_plain: "s \<noteq> [] \<Longrightarrow> plain_char (last s) \<Longrightarrow> TrimRightSpace s = s"
  using plain_not_space [of "last s"] DecodeLastRune_ascii [of "last s" "butlast s"]
  by (simp add: TrimRightSpace.simps [of s] plain_char_def)

lemma TrimRightSpace_snoc:
  "of_char ch < (0x80 :: nat) \<Longrightarrow> IsSpace (of_char ch) \<Longrightarrow> TrimRightSpace (s @ [ch]) = TrimRightSpace s"
  using DecodeLastRune_ascii [of ch s] by (simp add: TrimRightSpace.simps [of "s @ [ch]"])

lemma TrimSpace_plain:
  assumes "s \<noteq> []" "plain_char (hd s)" "plain_char (last s)"
  shows "TrimSpace s = s"
  using assms by (simp add: TrimSpace_def TrimLeftSpace_plain TrimRightSpace_plain)

lemma TrimSpace_Nil [simp]: "TrimSpace [] = []"
  by (simp add: TrimSpace_def TrimLeftSpace.simps TrimRightSpace.simps)

text \<open>A line end is cut off.\<close>

lemma TrimSpace_crlf:
  assumes "s \<noteq> []" "plain_char (hd s)" "plain_char (last s)"
  shows "TrimSpace (s @ [CHR 0x0D, CHR 0x0A]) = s" "TrimSpace (s @ [CHR 0x0A]) = s"
proof -
  have h: "hd (s @ t) = hd s" for t using assms(1) by simp
  have nl: "TrimRightSpace (t @ [CHR 0x0A]) = TrimRightSpace t" for t
    by (rule TrimRightSpace_snoc) (simp_all add: IsSpace_def)
  have cr: "TrimRightSpace (t @ [CHR 0x0D]) = TrimRightSpace t" for t
    by (rule TrimRightSpace_snoc) (simp_all add: IsSpace_def)
  have r: "TrimRightSpace (s @ [CHR 0x0A]) = s" "TrimRightSpace (s @ [CHR 0x0D, CHR 0x0A]) = s"
    using nl [of s] nl [of "s @ [CHR 0x0D]"] cr [of s] TrimRightSpace_plain [OF assms(1,3)] by simp_all
  then show "TrimSpace (s @ [CHR 0x0D, CHR 0x0A]) = s" "TrimSpace (s @ [CHR 0x0A]) = s"
    using assms(2) by (simp_all add: TrimSpace_def TrimLeftSpace_plain h)
qed

section \<open>Prefixes, positions, splitting\<close>

definition HasPrefix :: "string \<Rightarrow> string \<Rightarrow> bool" where
  "HasPrefix s p \<longleftrightarrow> take (length p) s = p"

definition TrimPrefix :: "string \<Rightarrow> string \<Rightarrow> string" where
  "TrimPrefix s p = (if take (length p) s = p then drop (length p) s else s)"

text \<open>
  \<open>strings.Index\<close>, \<open>strings.LastIndex\<close> and \<open>strings.Split\<close> for a string of one character;
  no position is \<open>None\<close> where Go returns -1.
\<close>

fun Index :: "string \<Rightarrow> char \<Rightarrow> nat option" where
  "Index [] ch = None"
| "Index (x # s) ch = (if x = ch then Some 0 else map_option Suc (Index s ch))"

fun LastIndex :: "string \<Rightarrow> char \<Rightarrow> nat option" where
  "LastIndex [] ch = None"
| "LastIndex (x # s) ch =
     (case LastIndex s ch of Some i \<Rightarrow> Some (Suc i) | None \<Rightarrow> if x = ch then Some 0 else None)"

fun Split :: "string \<Rightarrow> char \<Rightarrow> string list" where
  "Split [] sep = [[]]"
| "Split (ch # s) sep = (if ch = sep then [] # Split s sep
     else (case Split s sep of p # ps \<Rightarrow> (ch # p) # ps | [] \<Rightarrow> [[ch]]))"

fun Join :: "string list \<Rightarrow> char \<Rightarrow> string" where
  "Join [] sep = []"
| "Join [p] sep = p"
| "Join (p # ps) sep = p @ sep # Join ps sep"

lemma Index_None: "Index s ch = None \<longleftrightarrow> ch \<notin> set s"
  by (induction s) auto

lemma Index_append: "ch \<notin> set s \<Longrightarrow> Index (s @ ch # t) ch = Some (length s)"
  by (induction s) auto

lemma LastIndex_None: "LastIndex s ch = None \<longleftrightarrow> ch \<notin> set s"
  by (induction s) (auto split: option.splits)

lemma LastIndex_append: "ch \<notin> set t \<Longrightarrow> LastIndex (s @ ch # t) ch = Some (length s)"
  by (induction s) (auto simp: LastIndex_None [symmetric])

lemma LastIndex_Some: "LastIndex s ch = Some i \<Longrightarrow> i < length s \<and> s ! i = ch \<and> ch \<notin> set (drop (Suc i) s)"
  by (induction s arbitrary: i) (auto simp: LastIndex_None split: option.splits if_splits)

lemma Split_not_Nil [simp]: "Split s sep \<noteq> []"
  by (cases s) (auto split: list.splits)

lemma Join_Cons: "Join ((ch # p) # ps) sep = ch # Join (p # ps) sep"
  by (cases ps) auto

text \<open>Splitting loses nothing, and joining parts without the separator is undone by it.\<close>

lemma Join_Split: "Join (Split s sep) sep = s"
proof (induction s)
  case (Cons ch s)
  then obtain p ps where p: "Split s sep = p # ps" by (cases "Split s sep") auto
  with Cons show ?case by (simp add: Join_Cons)
qed simp

lemma Split_no_sep: "p \<in> set (Split s sep) \<Longrightarrow> sep \<notin> set p"
  by (induction s arbitrary: p) (auto split: list.splits if_splits)

lemma Split_single: "sep \<notin> set p \<Longrightarrow> Split p sep = [p]"
  by (induction p) auto

lemma Split_append: "sep \<notin> set p \<Longrightarrow> Split (p @ sep # s) sep = p # Split s sep"
  by (induction p) auto

lemma Split_Join: "ps \<noteq> [] \<Longrightarrow> \<forall>p \<in> set ps. sep \<notin> set p \<Longrightarrow> Split (Join ps sep) sep = ps"
  by (induction ps sep rule: Join.induct) (auto simp: Split_single Split_append)

lemma set_Join: "set (Join ps sep) \<subseteq> \<Union> (set ` set ps) \<union> {sep}"
  by (induction ps sep rule: Join.induct) auto

section \<open>Numbers\<close>

definition digit_val :: "char \<Rightarrow> nat option" where
  "digit_val ch = (let n = of_char ch in if 48 \<le> n \<and> n \<le> 57 then Some (n - 48) else None)"

text \<open>The digits read so far; \<open>None\<close> at the first character that is not a digit.\<close>

fun read_digits :: "nat \<Rightarrow> string \<Rightarrow> nat option" where
  "read_digits acc [] = Some acc"
| "read_digits acc (ch # s) = (case digit_val ch of None \<Rightarrow> None | Some d \<Rightarrow> read_digits (acc * 10 + d) s)"

definition ErrSyntax :: goerr where
  "ErrSyntax = Errorf ''invalid syntax''"

definition ErrRange :: goerr where
  "ErrRange = Errorf ''value out of range''"

text \<open>
  \<open>strconv.Atoi\<close> on a 64-bit platform returns a value and an error: zero on a syntax error,
  the nearest representable value when out of range.
\<close>

definition Atoi :: "string \<Rightarrow> int \<times> goerr option" where
  "Atoi s =
     (let neg = (s \<noteq> [] \<and> hd s = CHR ''-'');
          digits = (if s \<noteq> [] \<and> (hd s = CHR ''-'' \<or> hd s = CHR ''+'') then tl s else s)
      in if digits = [] then (0, Some ErrSyntax)
         else (case read_digits 0 digits of
                 None \<Rightarrow> (0, Some ErrSyntax)
               | Some n \<Rightarrow>
                   if neg then (if n \<le> 2 ^ 63 then (- int n, None) else (- (2 ^ 63), Some ErrRange))
                   else (if n < 2 ^ 63 then (int n, None) else (2 ^ 63 - 1, Some ErrRange))))"

text \<open>\<open>%02X\<close> of a byte.\<close>

definition upper_hex :: "nat \<Rightarrow> char" where
  "upper_hex n = (if n < 10 then char_of (48 + n) else char_of (55 + n))"

definition fmt_02X :: "byte \<Rightarrow> string" where
  "fmt_02X b = [upper_hex (unat b div 16), upper_hex (unat b mod 16)]"

text \<open>
  \<open>strings.EqualFold\<close> when one side is ASCII: the runes agree up to the case of ASCII letters,
  where U+212A folds to \<open>k\<close> and U+017F to \<open>s\<close>.
\<close>

definition fold_rune :: "nat \<Rightarrow> nat" where
  "fold_rune r = (if 65 \<le> r \<and> r \<le> 90 then r + 32 else if r = 0x212A then 107 else if r = 0x17F then 115 else r)"

definition EqualFold :: "string \<Rightarrow> string \<Rightarrow> bool" where
  "EqualFold s t \<longleftrightarrow> map fold_rune (runes s) = map fold_rune (runes t)"

lemma digit_val_char [simp]: "d < 10 \<Longrightarrow> digit_val (char_of (48 + d)) = Some d"
  by (simp add: digit_val_def Let_def)

lemma read_digits_append:
  "read_digits acc (s @ t) = (case read_digits acc s of None \<Rightarrow> None | Some n \<Rightarrow> read_digits n t)"
  by (induction s arbitrary: acc) (auto split: option.splits)

lemma read_digits_fmt: "read_digits 0 (fmt_nat n) = Some n"
proof (induction n rule: fmt_nat.induct)
  case (1 n)
  show ?case
  proof (cases "n < 10")
    case True
    then show ?thesis by (simp add: fmt_nat.simps [of n])
  next
    case False
    with 1 show ?thesis by (simp add: fmt_nat.simps [of n] read_digits_append)
  qed
qed

lemma hd_fmt_nat: "fmt_nat n \<noteq> [] \<and> digit_val (hd (fmt_nat n)) \<noteq> None"
proof (induction n rule: fmt_nat.induct)
  case (1 n)
  then show ?case by (cases "n < 10") (auto simp: fmt_nat.simps [of n])
qed

text \<open>\<open>Atoi\<close> reads back what \<open>%d\<close> prints.\<close>

lemma Atoi_fmt_int:
  assumes "- (2 ^ 63) \<le> z" "z < 2 ^ 63"
  shows "Atoi (fmt_int z) = (z, None)"
proof (cases "z < 0")
  case True
  have "nat (- z) \<le> nat (2 ^ 63)" using assms(1) by (intro nat_mono) linarith
  then have "nat (- z) \<le> 2 ^ 63" by (simp add: nat_power_eq)
  with True hd_fmt_nat [of "nat (- z)"] show ?thesis
    by (simp add: fmt_int_def Atoi_def Let_def read_digits_fmt)
next
  case False
  have "nat z < nat (2 ^ 63)" using assms(2) by (subst nat_less_eq_zless) (use False in auto)
  then have b: "nat z < 2 ^ 63" by (simp add: nat_power_eq)
  have "hd (fmt_nat (nat z)) \<noteq> CHR ''-''" "hd (fmt_nat (nat z)) \<noteq> CHR ''+''"
    using hd_fmt_nat [of "nat z"] by (auto simp: digit_val_def)
  with b False hd_fmt_nat [of "nat z"] show ?thesis
    by (simp add: fmt_int_def Atoi_def Let_def read_digits_fmt)
qed

lemma Atoi_range: "fst (Atoi s) \<in> {- (2 ^ 63) ..< 2 ^ 63}"
  by (auto simp: Atoi_def Let_def of_nat_less_iff [of _ "2 ^ 63" , where 'a = int, symmetric]
      of_nat_le_iff [of _ "2 ^ 63" , where 'a = int, symmetric] split: option.splits)

lemma high_nibble: "unat (b :: byte) div 16 < 16"
  using unat_byte [of b] by linarith

lemma fmt_02X_ascii: "is_ascii (fmt_02X b)"
  using high_nibble [of b] by (auto simp: is_ascii_def fmt_02X_def upper_hex_def)

text \<open>Two bytes printed in hexadecimal are equal up to case only if they are the same byte.\<close>

lemma upper_hex_inj: "m < 16 \<Longrightarrow> n < 16 \<Longrightarrow> fold_rune (of_char (upper_hex m)) = fold_rune (of_char (upper_hex n)) \<Longrightarrow> m = n"
  by (auto simp: upper_hex_def fold_rune_def split: if_splits)

lemma EqualFold_hex: "EqualFold (fmt_02X a) (fmt_02X b) \<longleftrightarrow> a = b"
proof
  assume "EqualFold (fmt_02X a) (fmt_02X b)"
  then have "map fold_rune (map of_char (fmt_02X a)) = map fold_rune (map of_char (fmt_02X b))"
    by (simp only: EqualFold_def runes_ascii [OF fmt_02X_ascii])
  then have "fold_rune (of_char (upper_hex (unat a div 16))) = fold_rune (of_char (upper_hex (unat b div 16)))"
    "fold_rune (of_char (upper_hex (unat a mod 16))) = fold_rune (of_char (upper_hex (unat b mod 16)))"
    by (simp_all add: fmt_02X_def)
  moreover have "unat a mod 16 < 16" "unat b mod 16 < 16" by simp_all
  moreover have "unat a div 16 < 16" "unat b div 16 < 16" by (rule high_nibble)+
  ultimately have "unat a div 16 = unat b div 16" "unat a mod 16 = unat b mod 16"
    by (blast intro: upper_hex_inj)+
  then show "a = b" by (metis div_mult_mod_eq word_unat_eq_iff)
qed (simp add: EqualFold_def)

lemma EqualFold_refl [simp]: "EqualFold s s"
  by (simp add: EqualFold_def)

end
