(* ===== verification/Go_Strconv.thy ===== *)
theory Go_Strconv
  imports Go_Strings Go_Float
begin

text \<open>
  \<open>strconv.ParseFloat(s, 64)\<close> and the float64 operations the text protocols use on the
  numbers they parse. The accepted syntax is Go's: decimal and hexadecimal literals with
  optional underscores, and the names of the infinities and of NaN. The value is the exact
  rational rounded once.
\<close>

section \<open>Syntax of a literal\<close>

definition lower_char :: "char \<Rightarrow> char" where
  "lower_char ch = (let n = of_char ch :: nat in if 65 \<le> n \<and> n \<le> 90 then char_of (n + 32) else ch)"

definition hex_val :: "char \<Rightarrow> nat option" where
  "hex_val ch = (case digit_val ch of Some d \<Rightarrow> Some d
     | None \<Rightarrow> (let n = of_char (lower_char ch) :: nat in if 97 \<le> n \<and> n \<le> 102 then Some (n - 87) else None))"

text \<open>
  The mantissa loop of \<open>readFloat\<close>: the value of the digits, how many followed the point,
  whether there was a digit, an underscore, and the rest of the text.
\<close>

fun read_mantissa :: "bool \<Rightarrow> bool \<Rightarrow> nat \<Rightarrow> nat \<Rightarrow> bool \<Rightarrow> bool \<Rightarrow> string \<Rightarrow> nat \<times> nat \<times> bool \<times> bool \<times> string" where
  "read_mantissa hex dot m fr sawd und [] = (m, fr, sawd, und, [])"
| "read_mantissa hex dot m fr sawd und (ch # s) =
     (if ch = CHR ''_'' then read_mantissa hex dot m fr sawd True s
      else if ch = CHR ''.'' then
        (if dot then (m, fr, sawd, und, ch # s) else read_mantissa hex True m fr sawd und s)
      else (case (if hex then hex_val ch else digit_val ch) of
              Some d \<Rightarrow> read_mantissa hex dot (m * (if hex then 16 else 10) + d) (if dot then Suc fr else fr) True und s
            | None \<Rightarrow> (m, fr, sawd, und, ch # s)))"

text \<open>The exponent's digits, which stop counting at ten thousand.\<close>

fun read_exponent :: "nat \<Rightarrow> bool \<Rightarrow> string \<Rightarrow> nat \<times> bool \<times> string" where
  "read_exponent e und [] = (e, und, [])"
| "read_exponent e und (ch # s) =
     (if ch = CHR ''_'' then read_exponent e True s
      else (case digit_val ch of
              Some d \<Rightarrow> read_exponent (if e < 10000 then e * 10 + d else e) und s
            | None \<Rightarrow> (e, und, ch # s)))"

text \<open>\<open>underscoreOK\<close>: what the last character was (a digit, an underscore, something else).\<close>

fun underscores_ok :: "bool \<Rightarrow> char \<Rightarrow> string \<Rightarrow> bool" where
  "underscores_ok hex saw [] = (saw \<noteq> CHR ''_'')"
| "underscores_ok hex saw (ch # s) =
     (if digit_val ch \<noteq> None \<or> hex \<and> hex_val ch \<noteq> None then underscores_ok hex (CHR ''0'') s
      else if ch = CHR ''_'' then (if saw \<noteq> CHR ''0'' then False else underscores_ok hex ch s)
      else if saw = CHR ''_'' then False else underscores_ok hex (CHR ''!'') s)"

definition strip_sign :: "string \<Rightarrow> string" where
  "strip_sign s = (if s \<noteq> [] \<and> (hd s = CHR ''-'' \<or> hd s = CHR ''+'') then tl s else s)"

definition has_hex_prefix :: "string \<Rightarrow> bool" where
  "has_hex_prefix s \<longleftrightarrow> 2 \<le> length s \<and> s ! 0 = CHR ''0'' \<and> lower_char (s ! 1) = CHR ''x''"

definition has_base_prefix :: "string \<Rightarrow> bool" where
  "has_base_prefix s \<longleftrightarrow> 2 \<le> length s \<and> s ! 0 = CHR ''0'' \<and> lower_char (s ! 1) \<in> {CHR ''b'', CHR ''o'', CHR ''x''}"

definition underscoreOK :: "string \<Rightarrow> bool" where
  "underscoreOK s =
     (let t = strip_sign s in
      if has_base_prefix t then underscores_ok (has_hex_prefix t) (CHR ''0'') (drop 2 t)
      else underscores_ok False (CHR ''^'') t)"

text \<open>
  \<open>readFloat\<close> on a whole string: the sign, the mantissa, the exponent of ten or (for a
  hexadecimal literal, which must have an exponent) of two.
\<close>

definition readFloat :: "string \<Rightarrow> (bool \<times> bool \<times> nat \<times> int) option" where
  "readFloat s =
     (let neg = (s \<noteq> [] \<and> hd s = CHR ''-''); t = strip_sign s;
          hex = (has_hex_prefix t \<and> 3 \<le> length t); t1 = (if hex then drop 2 t else t)
      in case read_mantissa hex False 0 0 False False t1 of (m, fr, sawd, und, rest) \<Rightarrow>
           if \<not> sawd then None
           else let e0 = - int fr * (if hex then 4 else 1) in
           if rest \<noteq> [] \<and> lower_char (hd rest) = (if hex then CHR ''p'' else CHR ''e'') then
             (let r1 = tl rest; eneg = (r1 \<noteq> [] \<and> hd r1 = CHR ''-''); r2 = strip_sign r1 in
              if r2 = [] \<or> digit_val (hd r2) = None then None
              else (case read_exponent 0 und r2 of (e, und', rest') \<Rightarrow>
                 if rest' \<noteq> [] \<or> und' \<and> \<not> underscoreOK s then None
                 else Some (neg, hex, m, e0 + (if eneg then - int e else int e))))
           else if hex \<or> rest \<noteq> [] \<or> und \<and> \<not> underscoreOK s then None
           else Some (neg, hex, m, e0))"

section \<open>The value\<close>

definition special :: "string \<Rightarrow> f64 option" where
  "special s =
     (let neg = (s \<noteq> [] \<and> hd s = CHR ''-''); t = map lower_char (strip_sign s) in
      if t = ''inf'' \<or> t = ''infinity'' then Some (if neg then NInf else PInf)
      else if map lower_char s = ''nan'' then Some NaN else None)"

definition ParseFloat :: "string \<Rightarrow> f64 \<times> goerr option" where
  "ParseFloat s =
     (case special s of
        Some x \<Rightarrow> (x, None)
      | None \<Rightarrow>
          (case readFloat s of
             None \<Rightarrow> (Fin 0, Some ErrSyntax)
           | Some (neg, hex, m, e) \<Rightarrow>
               (let q = of_nat m * (if hex then 2 else 10) powi e; x = mk_f64 (if neg then - q else q)
                in (x, if x = PInf \<or> x = NInf then Some ErrRange else None))))"

section \<open>Arithmetic\<close>

fun f64_add :: "f64 \<Rightarrow> f64 \<Rightarrow> f64" where
  "f64_add (Fin a) (Fin b) = mk_f64 (a + b)"
| "f64_add NaN y = NaN"
| "f64_add x NaN = NaN"
| "f64_add PInf NInf = NaN"
| "f64_add NInf PInf = NaN"
| "f64_add PInf y = PInf"
| "f64_add NInf y = NInf"
| "f64_add x y = y"

text \<open>The product with a positive constant, and \<open>math.Round\<close> (half away from zero).\<close>

fun f64_mul_const :: "f64 \<Rightarrow> rat \<Rightarrow> f64" where
  "f64_mul_const (Fin q) k = mk_f64 (q * k)"
| "f64_mul_const x k = x"

definition round_away :: "rat \<Rightarrow> int" where
  "round_away q = (if 0 \<le> q then \<lfloor>q + 1 / 2\<rfloor> else - \<lfloor>- q + 1 / 2\<rfloor>)"

fun f64_round :: "f64 \<Rightarrow> f64" where
  "f64_round (Fin q) = Fin (of_int (round_away q))"
| "f64_round x = x"

text \<open>
  \<open>uint16(x)\<close>: truncation towards zero when the result fits. Otherwise the language leaves the
  value to the implementation, which is an argument.
\<close>

definition trunc_rat :: "rat \<Rightarrow> int" where
  "trunc_rat q = (if 0 \<le> q then \<lfloor>q\<rfloor> else - \<lfloor>- q\<rfloor>)"

fun uint16_of :: "(f64 \<Rightarrow> u16) \<Rightarrow> f64 \<Rightarrow> u16" where
  "uint16_of impl (Fin q) =
     (if 0 \<le> trunc_rat q \<and> trunc_rat q < 2 ^ 16 then word_of_int (trunc_rat q) else impl (Fin q))"
| "uint16_of impl x = impl x"

section \<open>Decimal literals\<close>

text \<open>The form the devices send: digits, a point, digits.\<close>

definition all_digits :: "string \<Rightarrow> bool" where
  "all_digits s \<longleftrightarrow> list_all (\<lambda>ch. digit_val ch \<noteq> None) s"

definition dec_nat :: "string \<Rightarrow> nat" where
  "dec_nat s = foldl (\<lambda>a ch. a * 10 + (of_char ch - 48)) 0 s"

definition dec_val :: "string \<Rightarrow> string \<Rightarrow> rat" where
  "dec_val ip fp = of_nat (dec_nat (ip @ fp)) / 10 ^ length fp"

lemma digit_val_Some: "digit_val ch = Some d \<Longrightarrow> d = of_char ch - 48 \<and> ch \<noteq> CHR ''_'' \<and> ch \<noteq> CHR ''.''"
  by (auto simp: digit_val_def Let_def split: if_splits)

lemma read_mantissa_digits:
  assumes "all_digits ds"
  shows "read_mantissa False dot m fr sawd und (ds @ s) =
    read_mantissa False dot (foldl (\<lambda>a ch. a * 10 + (of_char ch - 48)) m ds)
      (if dot then fr + length ds else fr) (sawd \<or> ds \<noteq> []) und s"
  using assms
proof (induction ds arbitrary: m fr sawd)
  case (Cons ch ds)
  then obtain d where d: "digit_val ch = Some d" and rest: "all_digits ds" by (auto simp: all_digits_def)
  from digit_val_Some [OF d] d Cons.IH [OF rest] show ?case by simp
qed (simp add: all_digits_def)

lemma special_digit:
  assumes "s \<noteq> []" "digit_val (hd s) \<noteq> None \<or> hd s = CHR ''.''"
  shows "special s = None"
proof -
  from assms obtain ch t where s: "s = ch # t" and ch: "digit_val ch \<noteq> None \<or> ch = CHR ''.''" by (cases s) auto
  have "ch \<noteq> CHR ''-''" "ch \<noteq> CHR ''+''" using ch by (auto simp: digit_val_def)
  then have st: "strip_sign s = s" by (simp add: s strip_sign_def)
  have "lower_char ch \<noteq> CHR ''i''" "lower_char ch \<noteq> CHR ''n''"
    using ch by (auto simp: lower_char_def digit_val_def Let_def split: if_splits)
  then show ?thesis by (simp add: special_def Let_def st) (simp add: s)
qed

lemma not_hex_prefix:
  assumes "all_digits ip" "all_digits fp"
  shows "\<not> has_hex_prefix (ip @ fp)" "\<not> has_hex_prefix (ip @ CHR ''.'' # fp)"
proof -
  have x: "lower_char ch \<noteq> CHR ''x''" if "digit_val ch \<noteq> None \<or> ch = CHR ''.''" for ch
    using that by (auto simp: lower_char_def digit_val_def Let_def split: if_splits)
  have "digit_val (s ! i) \<noteq> None \<or> s ! i = CHR ''.''" if "i < length s" "set s \<subseteq> set (ip @ CHR ''.'' # fp)" for s i
  proof -
    have "s ! i \<in> set (ip @ CHR ''.'' # fp)" using that nth_mem [of i s] by blast
    then show ?thesis using assms by (auto simp: all_digits_def list_all_iff)
  qed
  with x have "\<not> has_hex_prefix s" if "set s \<subseteq> set (ip @ CHR ''.'' # fp)" for s
    using that by (auto simp: has_hex_prefix_def)
  from this [of "ip @ fp"] this [of "ip @ CHR ''.'' # fp"]
  show "\<not> has_hex_prefix (ip @ fp)" "\<not> has_hex_prefix (ip @ CHR ''.'' # fp)" by auto
qed

lemma readFloat_decimal:
  assumes "all_digits ip" "all_digits fp" "ip \<noteq> []"
  shows "readFloat (ip @ CHR ''.'' # fp) = Some (False, False, dec_nat (ip @ fp), - int (length fp))"
proof -
  obtain ch t where ip: "ip = ch # t" using assms(3) by (cases ip) auto
  have ch: "digit_val ch \<noteq> None" using assms(1) by (simp add: ip all_digits_def)
  have sg: "ch \<noteq> CHR ''-''" "ch \<noteq> CHR ''+''" using ch by (auto simp: digit_val_def)
  have st: "strip_sign (ip @ CHR ''.'' # fp) = ip @ CHR ''.'' # fp" using sg by (simp add: ip strip_sign_def)
  have "read_mantissa False False 0 0 False False (ip @ CHR ''.'' # fp) =
      (dec_nat (ip @ fp), length fp, True, False, [])"
    using read_mantissa_digits [OF assms(1), of False 0 0 False False "CHR ''.'' # fp"]
      read_mantissa_digits [OF assms(2), of True "foldl (\<lambda>a ch. a * 10 + (of_char ch - 48)) 0 ip" 0 True False "[]"] assms(3)
    by (simp add: dec_nat_def)
  moreover have "hd (ip @ CHR ''.'' # fp) \<noteq> CHR ''-''" using sg by (simp add: ip)
  ultimately show ?thesis
    using not_hex_prefix [OF assms(1,2)] by (simp add: readFloat_def Let_def st)
qed

lemma ParseFloat_decimal:
  assumes "all_digits ip" "all_digits fp" "ip \<noteq> []" "mk_f64 (dec_val ip fp) = Fin q"
  shows "ParseFloat (ip @ CHR ''.'' # fp) = (Fin q, None)"
proof -
  have "special (ip @ CHR ''.'' # fp) = None"
  proof (rule special_digit)
    show "digit_val (hd (ip @ CHR ''.'' # fp)) \<noteq> None \<or> hd (ip @ CHR ''.'' # fp) = CHR ''.''"
      using assms(1,3) by (cases ip) (auto simp: all_digits_def)
  qed simp
  moreover have "of_nat (dec_nat (ip @ fp)) * (10 :: rat) powi (- int (length fp)) = dec_val ip fp"
    by (simp add: dec_val_def power_int_minus field_simps)
  ultimately show ?thesis using assms(4) by (simp add: ParseFloat_def readFloat_decimal [OF assms(1-3)] Let_def)
qed

lemma readFloat_digits:
  assumes "all_digits ds" "ds \<noteq> []"
  shows "readFloat ds = Some (False, False, dec_nat ds, 0)"
proof -
  obtain ch t where ds: "ds = ch # t" using assms(2) by (cases ds) auto
  have ch: "digit_val ch \<noteq> None" using assms(1) by (simp add: ds all_digits_def)
  have sg: "ch \<noteq> CHR ''-''" "ch \<noteq> CHR ''+''" using ch by (auto simp: digit_val_def)
  have st: "strip_sign ds = ds" using sg by (simp add: ds strip_sign_def)
  have "read_mantissa False False 0 0 False False ds = (dec_nat ds, 0, True, False, [])"
    using read_mantissa_digits [OF assms(1), of False 0 0 False False "[]"] assms(2) by (simp add: dec_nat_def)
  moreover have "hd ds \<noteq> CHR ''-''" using sg by (simp add: ds)
  moreover have "\<not> has_hex_prefix ds" using not_hex_prefix(1) [OF assms(1), of "[]"] by (simp add: all_digits_def)
  ultimately show ?thesis by (simp add: readFloat_def Let_def st)
qed

lemma ParseFloat_digits:
  assumes "all_digits ds" "ds \<noteq> []" "dec_nat ds < 2 ^ 53"
  shows "ParseFloat ds = (Fin (of_nat (dec_nat ds)), None)"
proof -
  have "special ds = None"
    using assms(1,2) by (intro special_digit) (simp_all add: all_digits_def list_all_iff)
  moreover have "mk_f64 (of_nat (dec_nat ds)) = Fin (of_nat (dec_nat ds))"
    using f64_of_int_small [of "int (dec_nat ds)"] assms(3)
    by (simp add: f64_of_int_def)
  ultimately show ?thesis by (simp add: ParseFloat_def readFloat_digits [OF assms(1,2)] Let_def)
qed

text \<open>\<open>k\<close> decimal digits of a number, with leading zeros.\<close>

fun pad :: "nat \<Rightarrow> nat \<Rightarrow> string" where
  "pad 0 n = []"
| "pad (Suc k) n = pad k (n div 10) @ [char_of (48 + n mod 10)]"

lemma length_pad [simp]: "length (pad k n) = k"
  by (induction k n rule: pad.induct) auto

lemma pad_Nil_iff [simp]: "pad k n = [] \<longleftrightarrow> k = 0"
  by (metis length_0_conv length_pad)

lemma digit_val_digit [simp]: "digit_val (char_of (48 + n mod 10)) = Some (n mod 10)"
  by (rule digit_val_char) simp

lemma all_digits_pad [simp]: "all_digits (pad k n)"
  by (induction k n rule: pad.induct) (auto simp: all_digits_def)

lemma dec_nat_append: "dec_nat (s @ t) = dec_nat s * 10 ^ length t + dec_nat t"
proof -
  have acc: "foldl (\<lambda>a ch. a * 10 + (of_char ch - 48)) a t = a * 10 ^ length t + dec_nat t" for a
  proof (induction t arbitrary: a)
    case (Cons ch t)
    from Cons [of "a * 10 + (of_char ch - 48)"] Cons [of "of_char ch - 48"] show ?case
      by (simp add: dec_nat_def algebra_simps)
  qed (simp add: dec_nat_def)
  from acc [of "dec_nat s"] show ?thesis by (simp add: dec_nat_def)
qed

lemma mod_10_Suc: "n mod (10 * 10 ^ k) = n div 10 mod 10 ^ k * 10 + n mod (10 :: nat)"
  by (metis mod_mult2_eq mult.commute add.commute)

lemma dec_nat_pad: "dec_nat (pad k n) = n mod 10 ^ k"
proof (induction k n rule: pad.induct)
  case (1 n)
  then show ?case by (simp add: dec_nat_def)
next
  case (2 k n)
  have "dec_nat [char_of (48 + n mod 10)] = n mod 10" by (simp add: dec_nat_def)
  with 2 show ?case by (simp add: dec_nat_append mod_10_Suc)
qed

lemma read_digits_pad: "read_digits 0 (pad k n) = Some (n mod 10 ^ k)"
  by (induction k n rule: pad.induct) (simp_all add: read_digits_append mod_10_Suc)

lemma digits_chars:
  assumes "all_digits s" "ch \<in> set s"
  shows "digit_val ch \<noteq> None" "plain_char ch" "ch \<noteq> CHR ''.''" "ch \<noteq> CHR '',''" "ch \<noteq> CHR '';''" "ch \<noteq> CHR ''-''" "ch \<noteq> CHR ''+''"
proof -
  from assms show d: "digit_val ch \<noteq> None" by (auto simp: all_digits_def list_all_iff)
  then show "plain_char ch" by (auto simp: digit_val_def plain_char_def Let_def split: if_splits)
  from d show "ch \<noteq> CHR ''.''" "ch \<noteq> CHR '',''" "ch \<noteq> CHR '';''" "ch \<noteq> CHR ''-''" "ch \<noteq> CHR ''+''"
    by (auto simp: digit_val_def)
qed

lemma pad_chars [simp]: "CHR ''.'' \<notin> set (pad k n)" "CHR '','' \<notin> set (pad k n)" "CHR '';'' \<notin> set (pad k n)"
  using digits_chars(3-5) [OF all_digits_pad] by blast+

lemma Atoi_pad:
  assumes "n < 10 ^ k" "0 < k" "k \<le> 18"
  shows "Atoi (pad k n) = (int n, None)"
proof -
  have "hd (pad k n) \<in> set (pad k n)" using assms(2) by simp
  from digits_chars(6,7) [OF all_digits_pad this] have "hd (pad k n) \<noteq> CHR ''-''" "hd (pad k n) \<noteq> CHR ''+''" .
  moreover have "n < 2 ^ 63"
  proof -
    have "(10 :: nat) ^ k \<le> 10 ^ 18" using assms(3) by (intro power_increasing) auto
    also have "\<dots> < 2 ^ 63" by simp
    finally show ?thesis using assms(1) by linarith
  qed
  ultimately show ?thesis using assms by (simp add: Atoi_def Let_def read_digits_pad)
qed

end
