(* ===== verification/Text_Numbers.thy ===== *)
theory Text_Numbers
  imports Go_Strconv
begin

text \<open>
  Numbers as the text protocols write them, fixed digits with a decimal point, and what
  \<open>ParseFloat\<close> and the conversion to \<open>uint16\<close> make of them.
\<close>

definition hundredths :: "nat \<Rightarrow> string" where
  "hundredths n = pad 4 (n div 100) @ ''.'' @ pad 2 (n mod 100)"

lemma hd_pad_append: "0 < k \<Longrightarrow> hd (pad k n @ s) \<in> set (pad k n)"
  by (metis hd_append2 hd_in_set length_greater_0_conv length_pad)

lemma last_pad_append: "0 < k \<Longrightarrow> last (s @ pad k n) \<in> set (pad k n)"
  by (metis last_appendR last_in_set length_greater_0_conv length_pad)

lemma TrimSpace_digits:
  assumes "0 < j" "0 < k"
  shows "TrimSpace (pad j m @ s @ pad k n) = pad j m @ s @ pad k n"
proof (rule TrimSpace_plain)
  show "plain_char (hd (pad j m @ s @ pad k n))" using hd_pad_append [OF assms(1)] digits_chars(2) [OF all_digits_pad] by blast
  show "plain_char (last (pad j m @ s @ pad k n))"
    using last_pad_append [OF assms(2), of "pad j m @ s"] digits_chars(2) [OF all_digits_pad] by (metis append.assoc)
qed (use assms in auto)

lemma ParseFloat_pads:
  assumes "0 < j" "n div 10 ^ k < 10 ^ j" "n < 2 ^ 53"
  shows "ParseFloat (pad j (n div 10 ^ k) @ CHR ''.'' # pad k (n mod 10 ^ k)) = (Fin (round64 (of_nat n / 10 ^ k)), None)"
proof -
  have "dec_nat (pad j (n div 10 ^ k) @ pad k (n mod 10 ^ k)) = n div 10 ^ k * 10 ^ k + n mod 10 ^ k"
    using assms(2) by (simp add: dec_nat_append dec_nat_pad)
  then have "dec_nat (pad j (n div 10 ^ k) @ pad k (n mod 10 ^ k)) = n" by (simp only: div_mult_mod_eq)
  then have v: "dec_val (pad j (n div 10 ^ k)) (pad k (n mod 10 ^ k)) = of_nat n / 10 ^ k"
    by (simp add: dec_val_def)
  have "(of_nat n :: rat) < 2 ^ 53" using assms(3) by (metis of_nat_less_iff of_nat_numeral of_nat_power)
  moreover have "of_nat n / 10 ^ k \<le> (of_nat n :: rat)" by (simp add: divide_le_eq mult_le_cancel_left1)
  ultimately have "\<bar>of_nat n / 10 ^ k :: rat\<bar> \<le> 2 ^ 64" by simp
  from mk_f64_finite [OF this] v show ?thesis by (intro ParseFloat_decimal) (simp_all add: assms(1))
qed

lemma hundredths_eq: "hundredths n = pad 4 (n div 10 ^ 2) @ CHR ''.'' # pad 2 (n mod 10 ^ 2)"
  by (simp add: hundredths_def)

lemma ParseFloat_hundredths:
  assumes "n < 1000000"
  shows "ParseFloat (TrimSpace (hundredths n)) = (Fin (round64 (of_nat n / 100)), None)"
  using ParseFloat_pads [of 4 n 2] TrimSpace_digits [of 4 2 "n div 10 ^ 2" "CHR ''.'' # []" "n mod 10 ^ 2"] assms
  by (simp add: hundredths_eq)

lemma round64_nonneg: "0 \<le> q \<Longrightarrow> 0 \<le> round64 q"
proof -
  assume "0 \<le> q"
  then have "0 \<le> q / 2 powi ulp_exp q" by simp
  then have "0 \<le> round_half_even (q / 2 powi ulp_exp q)" by (simp add: round_half_even_def Let_def)
  then show ?thesis by (simp add: round64_def)
qed

lemma hundredth_bound: "n < 1000000 \<Longrightarrow> of_nat n / 100 \<le> (10000 :: rat)"
proof -
  assume "n < 1000000"
  then have "(of_nat n :: rat) \<le> of_nat 1000000" by (simp only: of_nat_le_iff less_imp_le)
  then show ?thesis by simp
qed

lemma uint16_of_floor:
  assumes "0 \<le> q" "q < 65536"
  shows "unat (uint16_of impl (Fin q)) = nat \<lfloor>q\<rfloor>"
proof -
  have f: "0 \<le> \<lfloor>q\<rfloor>" "\<lfloor>q\<rfloor> < 65536" using assms by (auto simp: floor_less_iff)
  have "unat (word_of_nat (nat \<lfloor>q\<rfloor>) :: u16) = nat \<lfloor>q\<rfloor>"
    unfolding unat_of_nat using f by (simp add: nat_less_iff)
  moreover have "uint16_of impl (Fin q) = word_of_nat (nat \<lfloor>q\<rfloor>)" using assms(1) f by (simp add: trunc_rat_def)
  ultimately show ?thesis by (simp only:)
qed

lemma hundredths_floor:
  assumes "n < 1000000"
  shows "unat (uint16_of impl (Fin (round64 (of_nat n / 100)))) = n div 100"
proof -
  define r where "r = round64 (of_nat n / 100)"
  have n: "(of_nat n :: rat) / 100 = of_nat (n div 100) + of_nat (n mod 100) / 100"
  proof -
    have "(of_nat n :: rat) = of_nat (n div 100) * 100 + of_nat (n mod 100)"
      by (metis div_mult_mod_eq of_nat_add of_nat_mult of_nat_numeral)
    then show ?thesis by simp
  qed
  have e: "\<bar>r - of_nat n / 100\<bar> \<le> 10000 / 1000000000000000"
    unfolding r_def by (rule round64_near_decimal) (use hundredth_bound [OF assms] in auto)
  have "(of_nat (n mod 100) :: rat) \<le> of_nat 99" unfolding of_nat_le_iff by simp
  then have "(of_nat (n mod 100) :: rat) \<le> 99" by (simp only: of_nat_numeral)
  then have up: "r < of_nat (n div 100) + 1" using e n by linarith
  have lo: "of_nat (n div 100) \<le> r"
  proof (cases "n mod 100 = 0")
    case True
    have "n div 100 < 2 ^ 53" using assms by simp
    then have "round64 (of_int (int (n div 100))) = of_int (int (n div 100))" by (intro round64_of_int) simp
    with True n show ?thesis by (simp add: r_def)
  next
    case False
    then have "(of_nat 1 :: rat) \<le> of_nat (n mod 100)" unfolding of_nat_le_iff by simp
    then have "(1 :: rat) \<le> of_nat (n mod 100)" by (simp only: of_nat_1)
    with e n show ?thesis by linarith
  qed
  have "\<lfloor>r\<rfloor> = int (n div 100)" by (rule floor_unique) (use lo up in auto)
  moreover have "0 \<le> r" using lo by (meson of_nat_0_le_iff order_trans)
  moreover have "r < 65536" using e hundredth_bound [OF assms] by linarith
  ultimately show ?thesis using uint16_of_floor [of r impl] by (simp add: r_def)
qed

end
