(* ===== verification/Line_Protocol.thy ===== *)
theory Line_Protocol
  imports Server
begin

text \<open>
  The two text protocols (TK103 and AIS140) read a packet the same way: one call of
  \<open>ReadString\<close> on a buffered reader that is made for the call and dropped after it, where an
  end of stream counts as the end of the text. The locale states this shape; what follows
  from it for the parse loop is proved once.
\<close>

definition line_packet ::
  "byte \<Rightarrow> (goerr \<Rightarrow> goerr) \<Rightarrow> (bytes \<Rightarrow> (goerr \<times> bytes, ParsedRecord list \<times> bytes) outcome) \<Rightarrow> parse_io" where
  "line_packet delim read_err parse c =
     (case ReadString delim c of (txt, err, c') \<Rightarrow>
        if (case err of Some e \<Rightarrow> e \<noteq> EOF | None \<Rightarrow> False) then (Err (read_err (the err), []), c')
        else (parse txt, c'))"

text \<open>
  One segment as the network delivers it: a packet, and whatever else came in with it,
  with the records the packet stands for.
\<close>

record segment =
  seg_body :: bytes
  seg_rest :: bytes
  seg_records :: "ParsedRecord list"

definition seg_bytes :: "byte \<Rightarrow> segment \<Rightarrow> bytes" where
  "seg_bytes delim s = seg_body s @ delim # seg_rest s"

definition callbacks :: "string \<Rightarrow> segment list \<Rightarrow> (string \<times> ParsedRecord list) list" where
  "callbacks dev segs =
     concat (map (\<lambda>s. if seg_records s = [] then []
                      else [(dev, map (\<lambda>r. r\<lparr>DeviceID := dev\<rparr>) (seg_records s))]) segs)"

locale line_protocol =
  fixes h :: handler and delim :: byte and read_err :: "goerr \<Rightarrow> goerr"
    and parse :: "bytes \<Rightarrow> (goerr \<times> bytes, ParsedRecord list \<times> bytes) outcome"
    and empty_err :: goerr
  assumes packet: "ParsePacket h = line_packet delim read_err parse"
    and empty_text: "parse [] = Err (empty_err, [])"
begin

text \<open>A segment that fits into the reader's buffer and whose packet parses.\<close>

definition good :: "segment \<Rightarrow> bool" where
  "good s \<longleftrightarrow> delim \<notin> set (seg_body s) \<and> length (seg_bytes delim s) \<le> bufSize \<and>
     (\<exists>raw. parse (seg_body s @ [delim]) = Ok (seg_records s, raw))"

lemma packet_consumes:
  assumes "ParsePacket h c = (Ok x, c')"
  shows "length (pending c') < length (pending c)"
proof -
  obtain t err c1 where r: "ReadString delim c = (t, err, c1)" by (metis prod_cases3)
  with assms have ok: "parse t = Ok x" "c' = c1" by (auto simp: packet line_packet_def split: if_splits)
  with empty_text have "t \<noteq> []" by auto
  with ReadString_consumes [OF r] ok(2) show ?thesis by (cases t) auto
qed

lemma packet_segment:
  assumes "inp c = seg_bytes delim s # segs" "good s"
  shows "\<exists>raw. ParsePacket h c = (Ok (seg_records s, raw), c\<lparr>inp := segs\<rparr>)"
  using ReadString_segment [of c "seg_body s" delim "seg_rest s" segs] assms
  by (auto simp: packet line_packet_def seg_bytes_def good_def)

lemma packet_end: "inp c = [] \<Longrightarrow> ending c = EOF \<Longrightarrow> ParsePacket h c = (Err (empty_err, []), c)"
  by (simp add: packet line_packet_def ReadString_empty empty_text)

text \<open>
  Of every segment the first packet is delivered and the rest is dropped; when the peer
  closes, the loop ends with the parser's error for the empty text.
\<close>

lemma loop_segments:
  assumes "list_all good segs" "inp c = map (seg_bytes delim) segs" "ending c = EOF" "length segs < budget"
  shows "parse_loop h dev budget c =
    ((if isClosedOrEOF empty_err then ConnClosed else ParseError empty_err), callbacks dev segs, c\<lparr>inp := []\<rparr>)"
  using assms
proof (induction segs arbitrary: c budget)
  case Nil
  then obtain b where "budget = Suc b" by (cases budget) auto
  with packet_end [of c] Nil show ?case by (simp add: callbacks_def)
next
  case (Cons s segs)
  then obtain b where b: "budget = Suc b" "length segs < b" by (cases budget) auto
  obtain raw where r: "ParsePacket h c = (Ok (seg_records s, raw), c\<lparr>inp := map (seg_bytes delim) segs\<rparr>)"
    using packet_segment [of c s "map (seg_bytes delim) segs"] Cons.prems by auto
  have "parse_loop h dev b (c\<lparr>inp := map (seg_bytes delim) segs\<rparr>) =
      ((if isClosedOrEOF empty_err then ConnClosed else ParseError empty_err), callbacks dev segs, c\<lparr>inp := []\<rparr>)"
    using Cons.IH [of "c\<lparr>inp := map (seg_bytes delim) segs\<rparr>" b] Cons.prems b(2) by simp
  then show ?case by (simp add: b(1) r callbacks_def)
qed

end

sublocale line_protocol \<subseteq> consuming h
  by unfold_locales (rule packet_consumes)

end
