(* ===== verification/Tk103.thy ===== *)
theory Tk103
  imports Text_Numbers Go_Time Line_Protocol
begin

text \<open>
  The TK103 handler (\<open>protocols/tk103/handler.go\<close>): text messages ended by a semicolon,
  read through a buffered reader that is made for each call. The clock (milliseconds) and
  the conversion of out-of-range floats to \<open>uint16\<close> are arguments.
\<close>

section \<open>Parsing a report\<close>

definition mustAtoi :: "string \<Rightarrow> int" where
  "mustAtoi s = fst (Atoi s)"

text \<open>\<open>parseNMEACoord\<close>: with an error the value is always zero.\<close>

definition parseNMEACoord :: "string \<Rightarrow> (goerr, f64) outcome" where
  "parseNMEACoord s0 =
     (let s = TrimSpace s0 in
      if s = [] then Ok (Fin 0)
      else (case Index s (CHR ''.'') of
        None \<Rightarrow> Err (ErrorfQ ''invalid NMEA coord'' s)
      | Some dotIdx \<Rightarrow>
          if dotIdx < 2 then Err (ErrorfQ ''invalid NMEA coord'' s)
          else bind_o (slice s 0 (dotIdx - 2)) (\<lambda>degStr.
               bind_o (slice s (dotIdx - 2) (length s)) (\<lambda>minStr.
               (case ParseFloat degStr of
                  (_, Some e) \<Rightarrow> Err e
                | (deg, None) \<Rightarrow>
                    (case ParseFloat minStr of
                       (_, Some e) \<Rightarrow> Err e
                     | (mins, None) \<Rightarrow>
                         Ok (f64_div_const
                               (f64_round (f64_mul_const (f64_add deg (f64_div_const mins 60)) 10000000))
                               10000000)))))))"

text \<open>\<open>v, _ := f(x)\<close> for an \<open>f\<close> that returns zero with its errors.\<close>

fun value_or_zero :: "(goerr, f64) outcome \<Rightarrow> (goerr, f64) outcome" where
  "value_or_zero (Ok x) = Ok x"
| "value_or_zero (Err e) = Ok (Fin 0)"
| "value_or_zero Panic = Panic"

definition tk103_timestamp :: "int \<Rightarrow> string \<Rightarrow> (goerr, int) outcome" where
  "tk103_timestamp now dateStr =
     (if 12 \<le> length dateStr then
        bind_o (slice dateStr 0 2) (\<lambda>day.
        bind_o (slice dateStr 2 4) (\<lambda>month.
        bind_o (slice dateStr 4 6) (\<lambda>year.
        bind_o (slice dateStr 6 8) (\<lambda>hour.
        bind_o (slice dateStr 8 10) (\<lambda>minute.
        bind_o (slice dateStr 10 12) (\<lambda>sec.
          Ok (DateUnixMilli (2000 + mustAtoi year) (fst (Atoi month)) (fst (Atoi day))
                (fst (Atoi hour)) (fst (Atoi minute)) (fst (Atoi sec)))))))))
      else Ok now)"

definition knots_to_kmh :: rat where
  "knots_to_kmh = round64 (1852 / 1000)"

definition parseASCIILine :: "(f64 \<Rightarrow> u16) \<Rightarrow> int \<Rightarrow> string \<Rightarrow> (goerr, ParsedRecord) outcome" where
  "parseASCIILine impl now line0 =
     (let line = TrimCut line0 ''();''; parts = Split line (CHR '','') in
      if length parts < 9 then Err (Errorf ''tk103: too few fields'')
      else
        bind_o (idx parts 2) (\<lambda>dateStr.
        bind_o (tk103_timestamp now dateStr) (\<lambda>ts.
        bind_o (idx parts 3) (\<lambda>p3.
        bind_o (bind_o (idx parts 4) (\<lambda>p. value_or_zero (parseNMEACoord p))) (\<lambda>lat.
        bind_o (idx parts 5) (\<lambda>p5.
        bind_o (bind_o (idx parts 6) (\<lambda>p. value_or_zero (parseNMEACoord p))) (\<lambda>lng.
        bind_o (idx parts 7) (\<lambda>p7.
        bind_o (idx parts 8) (\<lambda>p8.
        bind_o (if 9 < length parts then bind_o (idx parts 9) (\<lambda>p9. Ok (uint16_of impl (fst (ParseFloat (TrimSpace p9)))))
                else Ok 0) (\<lambda>heading.
          Ok (zero_record\<lparr>Timestamp := ts, Valid := (TrimSpace p3 = ''A''),
                Lat := (if TrimSpace p5 = ''S'' then f64_neg lat else lat),
                Lng := (if TrimSpace p7 = ''W'' then f64_neg lng else lng),
                Speed := uint16_of impl (f64_mul_const (fst (ParseFloat (TrimSpace p8))) knots_to_kmh),
                Heading := heading\<rparr>)))))))))))"

section \<open>The handler\<close>

definition semicolon :: byte where
  "semicolon = 0x3B"

definition tk103_Detect :: "bytes \<Rightarrow> bool" where
  "tk103_Detect header \<longleftrightarrow> HasPrefix (string_of header) ''##''"

definition tk103_Authenticate :: "(goerr, string) io" where
  "tk103_Authenticate c =
     (case ReadString semicolon c of (txt, err, c') \<Rightarrow>
        (case err of
           Some e \<Rightarrow> (Err (Wrapf ''tk103 login read'' e), c')
         | None \<Rightarrow>
             (let line = TrimSpace (string_of txt); parts = Split line (CHR '','') in
              if \<not> HasPrefix line ''##,imei:'' then (Err (ErrorfQ ''tk103 invalid login'' line), c')
              else if length parts < 3 then (Err (ErrorfQ ''tk103 login malformed'' line), c')
              else bind_io (lift_io (idx parts 1)) (\<lambda>p1.
                   bind_io (wrap_io (Wrapf ''tk103 send LOAD'') (Write (bytes_of ''LOAD''))) (\<lambda>_.
                     ret_io (TrimPrefix p1 ''imei:''))) c')))"

text \<open>An end of stream is not an error here: what was read up to it is parsed.\<close>

definition tk103_ParsePacket :: "(f64 \<Rightarrow> u16) \<Rightarrow> int \<Rightarrow> parse_io" where
  "tk103_ParsePacket impl now c =
     (case ReadString semicolon c of (txt, err, c') \<Rightarrow>
        if (case err of Some e \<Rightarrow> e \<noteq> EOF | None \<Rightarrow> False)
        then (Err (Wrapf ''tk103 read'' (the err), []), c')
        else (case parseASCIILine impl now (TrimSpace (string_of txt)) of
                Ok rec \<Rightarrow> (Ok ([rec], txt), c')
              | Err e \<Rightarrow> (Err (Wrapf ''tk103 parse'' e, txt), c')
              | Panic \<Rightarrow> (Panic, c')))"

definition tk103_BuildACK :: "bytes \<Rightarrow> (goerr, bytes) outcome" where
  "tk103_BuildACK raw = Ok []"

definition tk103_handler :: "(f64 \<Rightarrow> u16) \<Rightarrow> int \<Rightarrow> handler" where
  "tk103_handler impl now =
     \<lparr>Name = ''tk103'', Detect = tk103_Detect, Authenticate = tk103_Authenticate,
      ParsePacket = tk103_ParsePacket impl now, BuildACK = tk103_BuildACK\<rparr>"

section \<open>No panics\<close>

lemma value_or_zero_Panic [simp]: "value_or_zero x = Panic \<longleftrightarrow> x = Panic"
  by (cases x) auto

lemma parseNMEACoord_no_panic: "parseNMEACoord s \<noteq> Panic"
proof -
  have "dotIdx \<le> length t" if "Index t ch = Some dotIdx" for t ch dotIdx
    using that by (induction t arbitrary: dotIdx) (auto split: if_splits)
  then show ?thesis
    by (auto simp: parseNMEACoord_def Let_def slice_def split: option.splits prod.splits)
      (meson diff_le_self le_trans)+
qed

lemma tk103_timestamp_no_panic: "tk103_timestamp now s \<noteq> Panic"
  by (simp add: tk103_timestamp_def slice_def)

lemma parseASCIILine_no_panic: "parseASCIILine impl now line \<noteq> Panic"
  by (auto simp: parseASCIILine_def Let_def bind_o_Panic_iff parseNMEACoord_no_panic tk103_timestamp_no_panic
      split: if_splits)

lemma Write_Panic [simp]: "Write b c \<noteq> (Panic, c')"
  using Write_not_Panic [of b c] by (metis fst_conv)

lemma tk103_never_panics:
  "fst (tk103_Authenticate c) \<noteq> Panic" "fst (tk103_ParsePacket impl now c) \<noteq> Panic"
proof -
  show "fst (tk103_Authenticate c) \<noteq> Panic"
    by (auto simp: tk103_Authenticate_def Let_def fst_bind_io_Panic lift_io_def ret_io_def
        split: prod.splits option.splits)
  show "fst (tk103_ParsePacket impl now c) \<noteq> Panic"
    using parseASCIILine_no_panic by (auto simp: tk103_ParsePacket_def split: prod.splits outcome.splits)
qed

section \<open>The parse loop\<close>

definition tk103_parse :: "(f64 \<Rightarrow> u16) \<Rightarrow> int \<Rightarrow> bytes \<Rightarrow> (goerr \<times> bytes, ParsedRecord list \<times> bytes) outcome" where
  "tk103_parse impl now txt =
     (case parseASCIILine impl now (TrimSpace (string_of txt)) of
        Ok rec \<Rightarrow> Ok ([rec], txt) | Err e \<Rightarrow> Err (Wrapf ''tk103 parse'' e, txt) | Panic \<Rightarrow> Panic)"

definition tk103_too_few :: goerr where
  "tk103_too_few = Wrapf ''tk103 parse'' (Errorf ''tk103: too few fields'')"

lemma tk103_parse_empty: "tk103_parse impl now [] = Err (tk103_too_few, [])"
  by (simp add: tk103_parse_def string_of_def parseASCIILine_def TrimCut_def tk103_too_few_def)

interpretation tk103: line_protocol "tk103_handler impl now" semicolon "Wrapf ''tk103 read''" "tk103_parse impl now" tk103_too_few
proof
  show "ParsePacket (tk103_handler impl now) = line_packet semicolon (Wrapf ''tk103 read'') (tk103_parse impl now)"
    by (auto simp: tk103_handler_def tk103_ParsePacket_def line_packet_def tk103_parse_def fun_eq_iff
        split: prod.splits outcome.splits)
  show "tk103_parse impl now [] = Err (tk103_too_few, [])" by (rule tk103_parse_empty)
qed

section \<open>Reports in the documented format\<close>

text \<open>
  A fix as a device reports it: minutes in units of 1/10000, speed in 1/100 knots, heading in
  1/100 degrees. The encoder below is the specification of the format.
\<close>

record tk103_fix =
  fx_imei :: string
  fx_type :: string
  fx_day :: nat
  fx_month :: nat
  fx_year :: nat
  fx_hour :: nat
  fx_min :: nat
  fx_sec :: nat
  fx_valid :: bool
  fx_lat :: "nat \<times> nat"
  fx_south :: bool
  fx_lng :: "nat \<times> nat"
  fx_west :: bool
  fx_speed :: nat
  fx_heading :: nat

definition nmea :: "nat \<Rightarrow> nat \<times> nat \<Rightarrow> string" where
  "nmea w p = pad w (fst p) @ pad 2 (snd p div 10000) @ ''.'' @ pad 4 (snd p mod 10000)"

definition tk103_fields :: "tk103_fix \<Rightarrow> string list" where
  "tk103_fields f =
     [fx_imei f, fx_type f,
      pad 2 (fx_day f) @ pad 2 (fx_month f) @ pad 2 (fx_year f) @ pad 2 (fx_hour f) @ pad 2 (fx_min f) @ pad 2 (fx_sec f) @ ''.000'',
      (if fx_valid f then ''A'' else ''V''),
      nmea 2 (fx_lat f), (if fx_south f then ''S'' else ''N''),
      nmea 3 (fx_lng f), (if fx_west f then ''W'' else ''E''),
      hundredths (fx_speed f), hundredths (fx_heading f), []]"

definition tk103_report :: "tk103_fix \<Rightarrow> bytes" where
  "tk103_report f = bytes_of (''('' @ Join (tk103_fields f) (CHR '',''))"

definition fix_ok :: "tk103_fix \<Rightarrow> bool" where
  "fix_ok f \<longleftrightarrow>
     set (fx_imei f) \<inter> set '',();'' = {} \<and> set (fx_type f) \<inter> set '',;'' = {} \<and>
     length (fx_imei f) + length (fx_type f) \<le> 1000 \<and>
     list_all (\<lambda>n. n < 100) [fx_day f, fx_month f, fx_year f, fx_hour f, fx_min f, fx_sec f] \<and>
     fst (fx_lat f) < 100 \<and> snd (fx_lat f) < 600000 \<and> fst (fx_lng f) < 1000 \<and> snd (fx_lng f) < 600000 \<and>
     fx_speed f < 1000000 \<and> fx_heading f < 1000000"

text \<open>Degrees with the minutes as a fraction.\<close>

definition degrees :: "nat \<times> nat \<Rightarrow> rat" where
  "degrees p = of_nat (fst p) + of_nat (snd p) / 600000"

lemma round_away_error: "\<bar>of_int (round_away q) - q\<bar> \<le> 1 / 2"
proof -
  have a: "of_int \<lfloor>q + 1 / 2\<rfloor> \<le> q + 1 / 2" "q + 1 / 2 < of_int \<lfloor>q + 1 / 2\<rfloor> + 1" by linarith+
  have b: "of_int \<lfloor>- q + 1 / 2\<rfloor> \<le> - q + 1 / 2" "- q + 1 / 2 < of_int \<lfloor>- q + 1 / 2\<rfloor> + 1" by linarith+
  show ?thesis
  proof (cases "0 \<le> q")
    case True
    then have "round_away q = \<lfloor>q + 1 / 2\<rfloor>" by (simp add: round_away_def)
    with a show ?thesis by linarith
  next
    case False
    then have "round_away q = - \<lfloor>- q + 1 / 2\<rfloor>" by (simp add: round_away_def)
    with b show ?thesis by linarith
  qed
qed

text \<open>The floating-point evaluation of degrees and minutes stays within 1e-7 degrees.\<close>

lemma nmea_rounding:
  assumes "0 \<le> d" "d \<le> 999" "0 \<le> x" "x \<le> 60"
  shows "\<exists>q. f64_div_const (f64_round (f64_mul_const (f64_add (Fin d) (f64_div_const (Fin (round64 x)) 60)) 10000000)) 10000000 = Fin q \<and>
    \<bar>q - (d + x / 60)\<bar> \<le> 1 / 10000000"
proof -
  define b where "b = round64 x"
  define c where "c = round64 (b / 60)"
  define e where "e = round64 (d + c)"
  define f where "f = round64 (e * 10000000)"
  define g where "g = (of_int (round_away f) :: rat)"
  define r where "r = round64 (g / 10000000)"
  have b: "\<bar>b - x\<bar> \<le> 60 / 1000000000000000" unfolding b_def by (rule round64_near_decimal) (use assms in auto)
  then have lb: "\<bar>b / 60\<bar> \<le> 2" using assms(3,4) by linarith
  have c: "\<bar>c - b / 60\<bar> \<le> 2 / 1000000000000000" unfolding c_def by (rule round64_near_decimal [OF lb]) simp
  then have lc: "\<bar>d + c\<bar> \<le> 1003" using assms(1,2) lb by linarith
  have e: "\<bar>e - (d + c)\<bar> \<le> 1003 / 1000000000000000" unfolding e_def by (rule round64_near_decimal [OF lc]) simp
  then have le: "\<bar>e * 10000000\<bar> \<le> 10040000000" using lc by linarith
  have f: "\<bar>f - e * 10000000\<bar> \<le> 10040000000 / 1000000000000000" unfolding f_def by (rule round64_near_decimal [OF le]) simp
  have g: "\<bar>g - f\<bar> \<le> 1 / 2" unfolding g_def by (rule round_away_error)
  have lg: "\<bar>g / 10000000\<bar> \<le> 1005" using f g le by linarith
  have r: "\<bar>r - g / 10000000\<bar> \<le> 1005 / 1000000000000000" unfolding r_def by (rule round64_near_decimal [OF lg]) simp
  have fin: "mk_f64 y = Fin (round64 y)" if "\<bar>y\<bar> \<le> 10040000000" for y :: rat
    using that by (intro mk_f64_finite) simp
  have "mk_f64 (b / 60) = Fin c" "mk_f64 (d + c) = Fin e" "mk_f64 (e * 10000000) = Fin f" "mk_f64 (g / 10000000) = Fin r"
    using fin [of "b / 60"] fin [of "d + c"] fin [OF le] fin [of "g / 10000000"] lb lc lg
    by (simp_all only: c_def [symmetric] e_def [symmetric] f_def [symmetric] r_def [symmetric])
  then have "f64_div_const (f64_round (f64_mul_const (f64_add (Fin d) (f64_div_const (Fin b) 60)) 10000000)) 10000000 = Fin r"
    by (simp add: g_def)
  moreover have "\<bar>r - (d + x / 60)\<bar> \<le> 1 / 10000000"
    using b c e f g r by linarith
  ultimately show ?thesis unfolding b_def by blast
qed

lemma parseNMEACoord_nmea:
  assumes "0 < w" "fst p < 10 ^ w" "fst p < 1000" "snd p < 600000"
  shows "\<exists>q. parseNMEACoord (nmea w p) = Ok (Fin q) \<and> \<bar>q - degrees p\<bar> \<le> 1 / 10000000"
proof -
  obtain deg m where p: "p = (deg, m)" by fastforce
  let ?mm = "pad 2 (m div 10000) @ ''.'' @ pad 4 (m mod 10000)"
  have t: "TrimSpace (nmea w p) = pad w deg @ ?mm"
    using TrimSpace_digits [OF assms(1), of 4 deg "pad 2 (m div 10000) @ ''.''" "m mod 10000"] by (simp add: nmea_def p)
  have "CHR ''.'' \<notin> set (pad w deg @ pad 2 (m div 10000))" by simp
  from Index_append [OF this, of "pad 4 (m mod 10000)"]
  have ix: "Index (pad w deg @ pad 2 (m div 10000) @ CHR ''.'' # pad 4 (m mod 10000)) (CHR ''.'') = Some (w + 2)" by simp
  have d: "ParseFloat (pad w deg) = (Fin (of_nat deg), None)"
    using ParseFloat_digits [of "pad w deg"] assms(1-3) by (simp add: dec_nat_pad p)
  have m: "ParseFloat (pad 2 (m div 10000) @ CHR ''.'' # pad 4 (m mod 10000)) = (Fin (round64 (of_nat m / 10 ^ 4)), None)"
    using ParseFloat_pads [of 2 m 4] assms(4) by (simp add: p)
  have mm: "of_nat m / 10 ^ 4 \<le> (60 :: rat)"
  proof -
    have "(of_nat m :: rat) \<le> of_nat 600000" using assms(4) by (simp only: p snd_conv of_nat_le_iff)
    then show ?thesis by simp
  qed
  have dd: "(of_nat deg :: rat) \<le> 999"
  proof -
    have "(of_nat deg :: rat) \<le> of_nat 999" using assms(3) unfolding of_nat_le_iff by (simp add: p)
    then show ?thesis by simp
  qed
  obtain q where q: "f64_div_const (f64_round (f64_mul_const (f64_add (Fin (of_nat deg)) (f64_div_const (Fin (round64 (of_nat m / 10 ^ 4))) 60)) 10000000)) 10000000 = Fin q"
    and err: "\<bar>q - (of_nat deg + of_nat m / 10 ^ 4 / 60)\<bar> \<le> 1 / 10000000"
    using nmea_rounding [OF _ dd _ mm] by auto
  have "parseNMEACoord (nmea w p) = Ok (Fin q)"
    using q unfolding parseNMEACoord_def t Let_def by (simp add: ix slice_def d m)
  with err show ?thesis by (auto simp: degrees_def p)
qed

lemma speed_close:
  fixes impl :: "f64 \<Rightarrow> u16" and n :: nat
  assumes "n < 1000000"
  defines "v \<equiv> of_nat (unat (uint16_of impl (f64_mul_const (Fin (round64 (of_nat n / 100))) knots_to_kmh))) :: rat"
  shows "v \<le> of_nat n / 100 * 1852 / 1000 + 1 / 1000 \<and> of_nat n / 100 * 1852 / 1000 < v + 1 + 1 / 1000"
proof -
  define x where "x = (of_nat n :: rat) / 100"
  define r where "r = round64 x"
  define y where "y = round64 (r * knots_to_kmh)"
  have x: "0 \<le> x" "x \<le> 10000" using hundredth_bound [OF assms(1)] by (simp_all add: x_def)
  have r: "\<bar>r - x\<bar> \<le> 10000 / 1000000000000000" "0 \<le> r"
    unfolding r_def using round64_near_decimal [of x 10000] round64_nonneg [of x] x by simp_all
  have k: "\<bar>knots_to_kmh - 1852 / 1000\<bar> \<le> 2 / 1000000000000000"
    unfolding knots_to_kmh_def by (rule round64_near_decimal) auto
  have rk: "\<bar>r * knots_to_kmh - x * (1852 / 1000)\<bar> \<le> 1 / 10000"
  proof -
    have "r * knots_to_kmh - x * (1852 / 1000) = r * (knots_to_kmh - 1852 / 1000) + (r - x) * (1852 / 1000)"
      by (simp only: right_diff_distrib left_diff_distrib)
    moreover have "\<bar>r * (knots_to_kmh - 1852 / 1000)\<bar> \<le> 10001 * (2 / 1000000000000000)"
      unfolding abs_mult by (rule mult_mono) (use r x k in linarith)+
    moreover have "\<bar>(r - x) * (1852 / 1000)\<bar> \<le> 10000 / 1000000000000000 * 2"
      unfolding abs_mult by (rule mult_mono) (use r in auto)
    ultimately show ?thesis by linarith
  qed
  have k0: "0 \<le> knots_to_kmh" using k by linarith
  have b: "\<bar>r * knots_to_kmh\<bar> \<le> 20000" using rk x by linarith
  have y: "\<bar>y - r * knots_to_kmh\<bar> \<le> 20000 / 1000000000000000"
    unfolding y_def by (rule round64_near_decimal [OF b]) simp
  have y0: "0 \<le> y" unfolding y_def using r(2) k0 by (intro round64_nonneg) simp
  have "f64_mul_const (Fin r) knots_to_kmh = Fin y"
    using mk_f64_finite [of "r * knots_to_kmh"] b by (simp add: y_def)
  moreover have "y < 65536" using y b by linarith
  ultimately have "v = of_int \<lfloor>y\<rfloor>" using uint16_of_floor [OF y0, of impl] y0 by (simp add: v_def r_def x_def)
  moreover have "of_int \<lfloor>y\<rfloor> \<le> y" "y < of_int \<lfloor>y\<rfloor> + 1" by linarith+
  ultimately show ?thesis using rk y unfolding x_def by linarith
qed

lemma fields_no_sep:
  assumes "fix_ok f"
  shows "\<forall>p \<in> set (tk103_fields f). CHR '','' \<notin> set p"
    "\<forall>p \<in> set (tk103_fields f). CHR '';'' \<notin> set p"
  using assms
  by (auto simp: tk103_fields_def fix_ok_def nmea_def hundredths_def split: if_splits)

lemma Join_fields:
  "Join (tk103_fields f) (CHR '','') = fx_imei f @ CHR '','' # Join (tl (tk103_fields f)) (CHR '','')"
  "last (Join (tk103_fields f) (CHR '','')) = CHR '',''"
  by (simp_all add: tk103_fields_def)

lemma string_of_semicolon: "string_of [semicolon] = '';''"
  by code_simp

lemma report_text:
  assumes "fix_ok f"
  shows "TrimSpace (string_of (tk103_report f @ [semicolon])) = ''('' @ Join (tk103_fields f) (CHR '','') @ '';''"
    "TrimCut (''('' @ Join (tk103_fields f) (CHR '','') @ '';'') ''();'' = Join (tk103_fields f) (CHR '','')"
proof -
  have "string_of (tk103_report f @ [semicolon]) = string_of (tk103_report f) @ string_of [semicolon]"
    by (simp add: string_of_def)
  also have "\<dots> = ''('' @ Join (tk103_fields f) (CHR '','') @ '';''"
    by (simp add: tk103_report_def string_of_semicolon)
  finally show "TrimSpace (string_of (tk103_report f @ [semicolon])) = ''('' @ Join (tk103_fields f) (CHR '','') @ '';''"
    by (simp only:) (rule TrimSpace_plain; simp add: plain_char_def)
  let ?j = "Join (tk103_fields f) (CHR '','')"
  have ne: "?j \<noteq> []" by (simp add: Join_fields(1))
  have "hd ?j \<notin> set ''();''" using assms by (cases "fx_imei f") (auto simp: Join_fields(1) fix_ok_def)
  then have d: "dropWhile (\<lambda>ch. ch \<in> set ''();'') (?j @ '';'') = ?j @ '';''"
    using ne by (cases ?j) auto
  have r: "dropWhile (\<lambda>ch. ch \<in> set ''();'') (rev ?j) = rev ?j"
    using Join_fields(2) [of f] ne by (cases "rev ?j") (auto simp: hd_rev [symmetric])
  show "TrimCut (''('' @ ?j @ '';'') ''();'' = ?j"
    using d r by (simp add: TrimCut_def)
qed

lemma tk103_timestamp_fix:
  assumes "fix_ok f"
  shows "tk103_timestamp now (tk103_fields f ! 2) =
    Ok (DateUnixMilli (2000 + int (fx_year f)) (int (fx_month f)) (int (fx_day f)) (int (fx_hour f)) (int (fx_min f)) (int (fx_sec f)))"
  using assms by (simp add: tk103_timestamp_def tk103_fields_def slice_def mustAtoi_def Atoi_pad fix_ok_def)

text \<open>What the record of a report has to be.\<close>

definition signed_near :: "f64 \<Rightarrow> bool \<Rightarrow> rat \<Rightarrow> bool" where
  "signed_near x negative d \<longleftrightarrow>
     (case x of Fin q \<Rightarrow> \<bar>q - (if negative then - d else d)\<bar> \<le> 1 / 10000000 | _ \<Rightarrow> False)"

definition reports_fix :: "tk103_fix \<Rightarrow> ParsedRecord \<Rightarrow> bool" where
  "reports_fix f r \<longleftrightarrow>
     Timestamp r = DateUnixMilli (2000 + int (fx_year f)) (int (fx_month f)) (int (fx_day f))
                     (int (fx_hour f)) (int (fx_min f)) (int (fx_sec f)) \<and>
     Valid r = fx_valid f \<and>
     signed_near (Lat r) (fx_south f) (degrees (fx_lat f)) \<and>
     signed_near (Lng r) (fx_west f) (degrees (fx_lng f)) \<and>
     of_nat (unat (Speed r)) \<le> of_nat (fx_speed f) / 100 * 1852 / 1000 + (1 / 1000 :: rat) \<and>
     of_nat (fx_speed f) / 100 * 1852 / 1000 < of_nat (unat (Speed r)) + 1 + (1 / 1000 :: rat) \<and>
     unat (Heading r) = fx_heading f div 100 \<and> IOData r = Map.empty"

lemma tk103_parse_report:
  assumes "fix_ok f"
  shows "\<exists>r. tk103_parse impl now (tk103_report f @ [semicolon]) = Ok ([r], tk103_report f @ [semicolon]) \<and> reports_fix f r"
proof -
  obtain lat where lat: "parseNMEACoord (nmea 2 (fx_lat f)) = Ok (Fin lat)" "\<bar>lat - degrees (fx_lat f)\<bar> \<le> 1 / 10000000"
    using parseNMEACoord_nmea [of 2 "fx_lat f"] assms by (auto simp: fix_ok_def)
  obtain lng where lng: "parseNMEACoord (nmea 3 (fx_lng f)) = Ok (Fin lng)" "\<bar>lng - degrees (fx_lng f)\<bar> \<le> 1 / 10000000"
    using parseNMEACoord_nmea [of 3 "fx_lng f"] assms by (auto simp: fix_ok_def)
  have nn: "fx_speed f < 1000000" "fx_heading f < 1000000" using assms by (simp_all add: fix_ok_def)
  have sp: "Split (Join (tk103_fields f) (CHR '','')) (CHR '','') = tk103_fields f"
    using fields_no_sep(1) [OF assms] by (intro Split_Join) (simp_all add: tk103_fields_def)
  have one: "TrimSpace [ch] = [ch]" if "plain_char ch" for ch using that by (intro TrimSpace_plain) auto
  have ps: "TrimSpace (if b then ''A'' else ''V'') = (if b then ''A'' else ''V'')"
    "TrimSpace (if b then ''S'' else ''N'') = (if b then ''S'' else ''N'')"
    "TrimSpace (if b then ''W'' else ''E'') = (if b then ''W'' else ''E'')" for b
    by (simp_all add: one plain_char_def)
  define r where "r = zero_record\<lparr>
     Timestamp := DateUnixMilli (2000 + int (fx_year f)) (int (fx_month f)) (int (fx_day f)) (int (fx_hour f)) (int (fx_min f)) (int (fx_sec f)),
     Valid := fx_valid f, Lat := (if fx_south f then f64_neg (Fin lat) else Fin lat),
     Lng := (if fx_west f then f64_neg (Fin lng) else Fin lng),
     Speed := uint16_of impl (f64_mul_const (Fin (round64 (of_nat (fx_speed f) / 100))) knots_to_kmh),
     Heading := uint16_of impl (Fin (round64 (of_nat (fx_heading f) / 100)))\<rparr>"
  have fs: "length (tk103_fields f) = 11" by (simp add: tk103_fields_def)
  have ix: "tk103_fields f ! 3 = (if fx_valid f then ''A'' else ''V'')" "tk103_fields f ! 4 = nmea 2 (fx_lat f)"
    "tk103_fields f ! 5 = (if fx_south f then ''S'' else ''N'')" "tk103_fields f ! 6 = nmea 3 (fx_lng f)"
    "tk103_fields f ! 7 = (if fx_west f then ''W'' else ''E'')" "tk103_fields f ! 8 = hundredths (fx_speed f)"
    "tk103_fields f ! 9 = hundredths (fx_heading f)"
    by (simp_all add: tk103_fields_def)
  have "parseASCIILine impl now (''('' @ Join (tk103_fields f) (CHR '','') @ '';'') = Ok r"
    unfolding parseASCIILine_def Let_def report_text(2) [OF assms] sp
    by (simp add: fs idx_def tk103_timestamp_fix [OF assms] ix lat(1) lng(1) ps ParseFloat_hundredths nn r_def)
  moreover have "reports_fix f r"
    using lat(2) lng(2) speed_close [OF nn(1), of impl] hundredths_floor [OF nn(2), of impl]
    by (auto simp: reports_fix_def r_def signed_near_def zero_record_def abs_minus_commute)
  ultimately show ?thesis by (simp add: tk103_parse_def report_text(1) [OF assms])
qed

section \<open>A connection\<close>

lemma semicolon_bytes: "semicolon \<in> set (bytes_of s) \<longleftrightarrow> CHR '';'' \<in> set s"
proof -
  have "semicolon = (word_of_nat (of_char ch) :: byte) \<longleftrightarrow> ch = CHR '';''" for ch :: char
  proof
    assume "semicolon = (word_of_nat (of_char ch) :: byte)"
    then have "string_of (bytes_of [ch]) = string_of [semicolon]" by (simp add: bytes_of_def)
    then show "ch = CHR '';''" unfolding string_of_bytes_of string_of_semicolon by simp
  qed (simp add: semicolon_def)
  then show ?thesis by (simp add: bytes_of_def image_iff)
qed

lemma report_no_semicolon: "fix_ok f \<Longrightarrow> semicolon \<notin> set (tk103_report f)"
  using fields_no_sep(2) [of f] set_Join [of "tk103_fields f" "CHR '',''"]
  by (auto simp: tk103_report_def semicolon_bytes)

lemma report_length: "fix_ok f \<Longrightarrow> length (tk103_report f) \<le> 1100"
  by (simp add: tk103_report_def tk103_fields_def nmea_def hundredths_def fix_ok_def)

text \<open>
  C22: a TK103 connection on which every message arrives in a segment of its own, possibly
  with more bytes behind it: of each segment exactly the first report is delivered, labelled
  with the device and with coordinates within 1e-7 degrees, speed within 1 km/h and heading in
  whole degrees; everything behind it in the segment is lost with the reader's buffer. When the
  peer closes, the loop ends with a parse error and not as a closed connection.
\<close>

theorem tk103_session:
  assumes "\<forall>(f, lost) \<in> set items. fix_ok f \<and> length lost \<le> 2000"
    and "inp c = map (\<lambda>(f, lost). tk103_report f @ semicolon # lost) items"
    and "ending c = EOF" "length items < budget"
  shows "\<exists>recs. parse_loop (tk103_handler impl now) dev budget c =
      (ParseError tk103_too_few, map (\<lambda>r. (dev, [r\<lparr>DeviceID := dev\<rparr>])) recs, c\<lparr>inp := []\<rparr>) \<and>
    list_all2 reports_fix (map fst items) recs"
proof -
  obtain R where R: "fix_ok f \<Longrightarrow> tk103_parse impl now (tk103_report f @ [semicolon]) = Ok ([R f], tk103_report f @ [semicolon])"
    and fit: "fix_ok f \<Longrightarrow> reports_fix f (R f)" for f
    using tk103_parse_report [of _ impl now] by metis
  define seg where "seg = (\<lambda>(f, lost). \<lparr>seg_body = tk103_report f, seg_rest = lost, seg_records = [R f]\<rparr>)"
  have good: "tk103.good impl now (seg x)" if x: "x \<in> set items" for x
  proof -
    obtain f lost where "x = (f, lost)" by fastforce
    with x assms(1) have "fix_ok f" "length lost \<le> 2000" "x = (f, lost)" by auto
    with R report_length [of f] report_no_semicolon [of f] show ?thesis
      by (simp add: tk103.good_def seg_def seg_bytes_def bufSize_def)
  qed
  have "inp c = map (seg_bytes semicolon) (map seg items)"
    by (auto simp: assms(2) seg_def seg_bytes_def)
  then have loop: "parse_loop (tk103_handler impl now) dev budget c =
      ((if isClosedOrEOF tk103_too_few then ConnClosed else ParseError tk103_too_few), callbacks dev (map seg items), c\<lparr>inp := []\<rparr>)"
    using assms(3,4) good by (intro tk103.loop_segments) (auto simp: list_all_iff)
  have "\<not> isClosedOrEOF tk103_too_few" by code_simp
  moreover have "callbacks dev (map seg items) = map (\<lambda>r. (dev, [r\<lparr>DeviceID := dev\<rparr>])) (map (\<lambda>(f, lost). R f) items)"
    by (induction items) (auto simp: callbacks_def seg_def)
  moreover have "list_all2 reports_fix (map fst items) (map (\<lambda>(f, lost). R f) items)"
    using assms(1) fit by (induction items) auto
  ultimately show ?thesis
    unfolding loop by (intro exI [of _ "map (\<lambda>(f, lost). R f) items"]) simp
qed

definition sample_fix :: tk103_fix where
  "sample_fix = \<lparr>fx_imei = ''123456789012345'', fx_type = ''normal'', fx_day = 2, fx_month = 6, fx_year = 14, fx_hour = 19,
     fx_min = 58, fx_sec = 56, fx_valid = True, fx_lat = (22, 348197), fx_south = False, fx_lng = (113, 544926),
     fx_west = False, fx_speed = 0, fx_heading = 0\<rparr>"

text \<open>The example of the package comment, twice in one segment.\<close>

theorem tk103_session_witness:
  "\<exists>r. parse_loop (tk103_handler (\<lambda>_. 0) 0) ''x'' 5
      \<lparr>inp = [tk103_report sample_fix @ semicolon # tk103_report sample_fix @ [semicolon]], ending = EOF, wres = [], outp = []\<rparr> =
      (ParseError tk103_too_few, [(''x'', [r\<lparr>DeviceID := ''x''\<rparr>])], \<lparr>inp = [], ending = EOF, wres = [], outp = []\<rparr>) \<and>
    reports_fix sample_fix r"
proof -
  let ?rest = "tk103_report sample_fix @ [semicolon]"
  have "fix_ok sample_fix" by (simp add: fix_ok_def sample_fix_def)
  moreover from report_length [OF this] have "length ?rest \<le> 2000" by simp
  ultimately have "\<exists>recs. parse_loop (tk103_handler (\<lambda>_. 0) 0) ''x'' 5 \<lparr>inp = [tk103_report sample_fix @ semicolon # ?rest], ending = EOF, wres = [], outp = []\<rparr> =
      (ParseError tk103_too_few, map (\<lambda>r. (''x'', [r\<lparr>DeviceID := ''x''\<rparr>])) recs, \<lparr>inp = [], ending = EOF, wres = [], outp = []\<rparr>) \<and>
    list_all2 reports_fix (map fst [(sample_fix, ?rest)]) recs"
    using tk103_session [of "[(sample_fix, ?rest)]"
        "\<lparr>inp = [tk103_report sample_fix @ semicolon # ?rest], ending = EOF, wres = [], outp = []\<rparr>" 5 "\<lambda>_. 0" 0 "''x''"] by simp
  then show ?thesis by (auto simp: list_all2_Cons1)
qed

section \<open>Login\<close>

lemma Split_prefix2:
  "Split (''##,imei:'' @ s) (CHR '','') = ''##'' # (case Split s (CHR '','') of p # ps \<Rightarrow> (''imei:'' @ p) # ps | [] \<Rightarrow> [])"
  by (cases "Split s (CHR '','')") simp_all

lemma login_line:
  "HasPrefix line ''##,imei:'' \<and> 3 \<le> length (Split line (CHR '','')) \<and> TrimPrefix (Split line (CHR '','') ! 1) ''imei:'' = imei
   \<longleftrightarrow> (\<exists>rest. line = ''##,imei:'' @ imei @ '','' @ rest) \<and> CHR '','' \<notin> set imei"
proof
  assume l: "HasPrefix line ''##,imei:'' \<and> 3 \<le> length (Split line (CHR '','')) \<and> TrimPrefix (Split line (CHR '','') ! 1) ''imei:'' = imei"
  then obtain s where s: "line = ''##,imei:'' @ s"
    by (metis HasPrefix_def append_take_drop_id)
  obtain p ps where p: "Split s (CHR '','') = p # ps" by (cases "Split s (CHR '','')") auto
  have parts: "Split line (CHR '','') = ''##'' # (''imei:'' @ p) # ps"
    unfolding s using Split_prefix2 [of s] p by simp
  with l have imei: "imei = p" and ps: "ps \<noteq> []" by (auto simp: TrimPrefix_def)
  have "s = p @ CHR '','' # Join ps (CHR '','')"
    using Join_Split [of s "CHR '',''"] p ps by (cases ps) simp_all
  moreover have "CHR '','' \<notin> set p" using Split_no_sep [of p s "CHR '',''"] p by simp
  ultimately show "(\<exists>rest. line = ''##,imei:'' @ imei @ '','' @ rest) \<and> CHR '','' \<notin> set imei"
    unfolding s imei by auto
next
  assume "(\<exists>rest. line = ''##,imei:'' @ imei @ '','' @ rest) \<and> CHR '','' \<notin> set imei"
  then obtain rest where line: "line = ''##,imei:'' @ imei @ '','' @ rest" and n: "CHR '','' \<notin> set imei" by blast
  have "Split line (CHR '','') = ''##'' # (''imei:'' @ imei) # Split rest (CHR '','')"
    using Split_prefix2 [of "imei @ '','' @ rest"] Split_append [OF n, of rest] by (simp add: line)
  moreover have "1 \<le> length (Split rest (CHR '',''))" by (cases "Split rest (CHR '','')") auto
  ultimately show "HasPrefix line ''##,imei:'' \<and> 3 \<le> length (Split line (CHR '','')) \<and> TrimPrefix (Split line (CHR '','') ! 1) ''imei:'' = imei"
    by (simp add: HasPrefix_def line TrimPrefix_def)
qed

text \<open>
  The TK103 handshake on a connection whose writes succeed yields a device id exactly when
  the text up to the first semicolon, without surrounding space, is \<open>##,imei:\<close>, the id, a comma
  and anything; it is then answered with \<open>LOAD\<close>, and in every other case nothing is written.
\<close>

lemma tk103_login_accepts_iff:
  assumes "ReadString semicolon c = (txt, err, c1)" "wres c = []"
  shows "(tk103_Authenticate c = (Ok imei, c1\<lparr>outp := outp c @ bytes_of ''LOAD''\<rparr>) \<longleftrightarrow>
      err = None \<and> (\<exists>rest. TrimSpace (string_of txt) = ''##,imei:'' @ imei @ '','' @ rest) \<and> CHR '','' \<notin> set imei) \<and>
    ((\<exists>d. fst (tk103_Authenticate c) = Ok d) \<or> outp (snd (tk103_Authenticate c)) = outp c)"
proof -
  have c1: "wres c1 = []" "outp c1 = outp c" using assms by (auto simp: ReadString_def split: prod.splits)
  have w: "Write (bytes_of ''LOAD'') c1 = (Ok (), c1\<lparr>outp := outp c @ bytes_of ''LOAD''\<rparr>)"
    using Write_ok [OF c1(1)] c1(2) by simp
  note run = tk103_Authenticate_def assms(1) Let_def bind_io_def lift_io_def idx_def wrap_io_def ret_io_def w
  have "tk103_Authenticate c = (Ok imei, c1\<lparr>outp := outp c @ bytes_of ''LOAD''\<rparr>) \<longleftrightarrow>
      err = None \<and> (\<exists>rest. TrimSpace (string_of txt) = ''##,imei:'' @ imei @ '','' @ rest) \<and> CHR '','' \<notin> set imei"
    unfolding login_line [symmetric] by (auto simp: run simp del: One_nat_def split: option.splits)
  moreover have "(\<exists>d. fst (tk103_Authenticate c) = Ok d) \<or> outp (snd (tk103_Authenticate c)) = outp c"
    by (auto simp: run c1 simp del: One_nat_def split: option.splits)
  ultimately show ?thesis by blast
qed

lemma tk103_login_accepts_iff_witness:
  "tk103_Authenticate (sample_conn (bytes_of ''##,imei:123456789012345,A;'')) =
     (Ok ''123456789012345'', (sample_conn [])\<lparr>inp := [], outp := bytes_of ''LOAD''\<rparr>)"
proof -
  let ?c = "sample_conn (bytes_of ''##,imei:123456789012345,A;'')"
  let ?c1 = "(sample_conn [])\<lparr>inp := []\<rparr>"
  let ?t = "bytes_of ''##,imei:123456789012345,A;''"
  have r: "ReadString semicolon ?c = (?t, None, ?c1)" by code_simp
  have t: "TrimSpace (string_of ?t) = ''##,imei:'' @ ''123456789012345'' @ '','' @ ''A;''"
    unfolding string_of_bytes_of by (subst TrimSpace_plain) (simp_all add: plain_char_def)
  have "tk103_Authenticate ?c = (Ok ''123456789012345'', ?c1\<lparr>outp := outp ?c @ bytes_of ''LOAD''\<rparr>) \<longleftrightarrow>
      None = (None :: goerr option) \<and> (\<exists>rest. TrimSpace (string_of ?t) = ''##,imei:'' @ ''123456789012345'' @ '','' @ rest)
      \<and> CHR '','' \<notin> set ''123456789012345''"
    using tk103_login_accepts_iff [OF r, of "''123456789012345''"] by simp
  with t show ?thesis by simp
qed

end
