(* ===== verification/Ais140.thy ===== *)
theory Ais140
  imports Text_Numbers Go_Time Line_Protocol
begin

text \<open>
  The AIS140 handler (\<open>protocols/ais140/handler.go\<close>) and the client of the emergency portal
  (\<open>its_client.go\<close>). Packets are lines of comma-separated fields with an exclusive-or checksum.
  The clock, the HTTP transport and the conversion of out-of-range floats are arguments. The
  emergency packets handed to the portal's goroutine are part of the result.
\<close>

section \<open>The emergency portal\<close>

record ITSClient =
  endpoint :: string
  apiKey :: string

text \<open>What an attempt to post a request comes to, and a request as the portal sees it.\<close>

datatype http_result = BadRequest goerr | DoFailed goerr | Responded nat

record its_request =
  its_url :: string
  its_key :: string
  its_body :: string

definition its_stub_endpoint :: string where
  "its_stub_endpoint = ''https://its.example.gov.in/api/emergency''"

definition ForwardEmergency :: "ITSClient \<Rightarrow> (its_request \<Rightarrow> http_result) \<Rightarrow> string \<Rightarrow> goerr option \<times> its_request list" where
  "ForwardEmergency c http rawPacket =
     (if endpoint c = [] \<or> endpoint c = its_stub_endpoint then (None, [])
      else let req = \<lparr>its_url = endpoint c, its_key = apiKey c, its_body = rawPacket\<rparr> in
           (case http req of
              BadRequest e \<Rightarrow> (Some (Wrapf ''its forward request'' e), [])
            | DoFailed e \<Rightarrow> (Some (Wrapf ''its forward'' e), [req])
            | Responded status \<Rightarrow>
                if 300 \<le> status then (Some (Errorf ''its forward status''), [req]) else (None, [req])))"

section \<open>Packets\<close>

text \<open>The loop \<open>for _, c := range s { xor ^= byte(c) }\<close>: over runes, not bytes.\<close>

definition xor_runes :: "string \<Rightarrow> byte" where
  "xor_runes s = foldl (\<lambda>x r. x XOR word_of_nat r) 0 (runes s)"

definition buildPacket :: "string \<Rightarrow> string list \<Rightarrow> string" where
  "buildPacket msgType flds =
     (let body = msgType @ '','' @ Join flds (CHR '','')
      in ''$'' @ body @ ''*'' @ fmt_02X (xor_runes body))"

definition isValidChecksum :: "string \<Rightarrow> (goerr, bool) outcome" where
  "isValidChecksum line0 =
     (let line = TrimPrefix line0 ''$'' in
      case LastIndex line (CHR ''*'') of
        None \<Rightarrow> Ok False
      | Some starIdx \<Rightarrow>
          if length line < starIdx + 3 then Ok False
          else bind_o (slice line 0 starIdx) (\<lambda>data.
               bind_o (slice line (starIdx + 1) (starIdx + 3)) (\<lambda>checksumStr.
                 Ok (EqualFold checksumStr (fmt_02X (xor_runes data))))))"

definition parseAIS140 :: "string \<Rightarrow> (goerr, string list) outcome" where
  "parseAIS140 line0 =
     (let line = TrimPrefix line0 ''$'' in
      bind_o (case LastIndex line (CHR ''*'') of None \<Rightarrow> Ok line | Some i \<Rightarrow> slice line 0 i) (\<lambda>body.
        Ok (Split body (CHR '',''))))"

definition ais140_timestamp :: "int \<Rightarrow> string \<Rightarrow> string \<Rightarrow> (goerr, int) outcome" where
  "ais140_timestamp now dateStr timeStr =
     (if 8 \<le> length dateStr \<and> 6 \<le> length timeStr then
        bind_o (slice dateStr 0 2) (\<lambda>day.
        bind_o (slice dateStr 2 4) (\<lambda>month.
        bind_o (slice dateStr 4 8) (\<lambda>year.
        bind_o (slice timeStr 0 2) (\<lambda>hour.
        bind_o (slice timeStr 2 4) (\<lambda>minute.
        bind_o (slice timeStr 4 6) (\<lambda>sec.
          Ok (DateUnixMilli (fst (Atoi year)) (fst (Atoi month)) (fst (Atoi day))
                (fst (Atoi hour)) (fst (Atoi minute)) (fst (Atoi sec)))))))))
      else Ok now)"

definition parsePosition :: "(f64 \<Rightarrow> u16) \<Rightarrow> int \<Rightarrow> string list \<Rightarrow> (goerr, ParsedRecord) outcome" where
  "parsePosition impl now flds =
     (if length flds < 9 then Err (Errorf ''ais140 NRM too few fields'')
      else
        bind_o (idx flds 1) (\<lambda>dateStr.
        bind_o (idx flds 2) (\<lambda>timeStr.
        bind_o (ais140_timestamp now dateStr timeStr) (\<lambda>ts.
        bind_o (idx flds 3) (\<lambda>f3.
        bind_o (idx flds 4) (\<lambda>f4.
        bind_o (idx flds 5) (\<lambda>f5.
        bind_o (idx flds 6) (\<lambda>f6.
        bind_o (idx flds 7) (\<lambda>f7.
        bind_o (idx flds 8) (\<lambda>f8.
          Ok (zero_record\<lparr>Timestamp := ts,
                Lat := (if f4 = ''S'' then f64_neg (fst (ParseFloat f3)) else fst (ParseFloat f3)),
                Lng := (if f6 = ''W'' then f64_neg (fst (ParseFloat f5)) else fst (ParseFloat f5)),
                Speed := uint16_of impl (fst (ParseFloat f7)),
                Heading := uint16_of impl (fst (ParseFloat f8)),
                Valid := True\<rparr>)))))))))))"

section \<open>The handler\<close>

definition newline :: byte where
  "newline = 0x0A"

definition ais140_Detect :: "bytes \<Rightarrow> bool" where
  "ais140_Detect header \<longleftrightarrow> 0 < length header \<and> header ! 0 = 0x24"

definition ais140_ack :: bytes where
  "ais140_ack = bytes_of (buildPacket ''HBT'' [''1''] @ [CHR 0x0D, CHR 0x0A])"

definition ais140_Authenticate :: "(goerr, string) io" where
  "ais140_Authenticate c =
     (case ReadString newline c of (txt, err, c') \<Rightarrow>
        (case err of
           Some e \<Rightarrow> (Err (Wrapf ''ais140 login read'' e), c')
         | None \<Rightarrow>
             (let line = TrimSpace (string_of txt) in
              bind_io (lift_io (isValidChecksum line)) (\<lambda>valid.
                if \<not> valid then lift_io (Err (ErrorfQ ''ais140 login checksum invalid'' line))
                else bind_io (lift_io (parseAIS140 line)) (\<lambda>flds.
                  if length flds < 3 \<or> flds ! 0 \<noteq> ''HLP''
                  then lift_io (Err (ErrorfQ ''ais140 login unexpected packet'' line))
                  else bind_io (lift_io (idx flds 2)) (\<lambda>deviceID.
                       bind_io (wrap_io (Wrapf ''ais140 send ack'') (Write ais140_ack)) (\<lambda>_.
                         ret_io deviceID)))) c')))"

text \<open>
  What becomes of the text of a packet, and the line handed to \<open>ForwardEmergency\<close> in a
  goroutine of its own, if any.
\<close>

definition ais140_dispatch ::
  "(f64 \<Rightarrow> u16) \<Rightarrow> int \<Rightarrow> bytes \<Rightarrow> (goerr \<times> bytes, ParsedRecord list \<times> bytes) outcome \<times> string option" where
  "ais140_dispatch impl now raw =
     (let line = TrimSpace (string_of raw) in
      case isValidChecksum line of
        Panic \<Rightarrow> (Panic, None)
      | Err e \<Rightarrow> (Err (e, raw), None)
      | Ok valid \<Rightarrow>
          if \<not> valid then (Err (ErrorfQ ''ais140 checksum invalid'' line, raw), None)
          else (case parseAIS140 line of
            Panic \<Rightarrow> (Panic, None)
          | Err e \<Rightarrow> (Err (e, raw), None)
          | Ok flds \<Rightarrow>
              if length flds = 0 then (Err (Errorf ''ais140 empty packet'', raw), None)
              else let msgType = flds ! 0 in
                if msgType = ''NRM'' \<or> msgType = ''TRP'' then
                  (case parsePosition impl now flds of
                     Ok rec \<Rightarrow> (Ok ([rec], raw), None) | Err e \<Rightarrow> (Err (e, raw), None) | Panic \<Rightarrow> (Panic, None))
                else if msgType = ''SOS'' \<or> msgType = ''EMR'' then
                  (case parsePosition impl now flds of
                     Ok rec \<Rightarrow> (Ok ([rec\<lparr>IOData := (IOData rec)(236 \<mapsto> 1)\<rparr>], raw), Some line)
                   | Err e \<Rightarrow> (Err (e, raw), None) | Panic \<Rightarrow> (Panic, None))
                else if msgType = ''HBT'' then (Ok ([], raw), None)
                else (Err (ErrorfQ ''ais140 unknown message type'' msgType, raw), None)))"

definition ais140_ParsePacket :: "(f64 \<Rightarrow> u16) \<Rightarrow> int \<Rightarrow> parse_io" where
  "ais140_ParsePacket impl now c =
     (case ReadString newline c of (txt, err, c') \<Rightarrow>
        if (case err of Some e \<Rightarrow> e \<noteq> EOF | None \<Rightarrow> False)
        then (Err (Wrapf ''ais140 read'' (the err), []), c')
        else (fst (ais140_dispatch impl now txt), c'))"

definition ais140_BuildACK :: "bytes \<Rightarrow> (goerr, bytes) outcome" where
  "ais140_BuildACK raw = Ok []"

definition ais140_handler :: "(f64 \<Rightarrow> u16) \<Rightarrow> int \<Rightarrow> handler" where
  "ais140_handler impl now =
     \<lparr>Name = ''ais140'', Detect = ais140_Detect, Authenticate = ais140_Authenticate,
      ParsePacket = ais140_ParsePacket impl now, BuildACK = ais140_BuildACK\<rparr>"

section \<open>No panics\<close>

lemma isValidChecksum_Ok: "\<exists>b. isValidChecksum line = Ok b"
  using LastIndex_Some [of "TrimPrefix line ''$''" "CHR ''*''"]
  by (cases "LastIndex (TrimPrefix line ''$'') (CHR ''*'')") (auto simp: isValidChecksum_def Let_def slice_def)

lemma parseAIS140_Ok: "\<exists>fs. parseAIS140 line = Ok fs \<and> fs \<noteq> []"
  using LastIndex_Some [of "TrimPrefix line ''$''" "CHR ''*''"]
  by (cases "LastIndex (TrimPrefix line ''$'') (CHR ''*'')") (auto simp: parseAIS140_def Let_def slice_def)

lemma parsePosition_no_panic: "parsePosition impl now fs \<noteq> Panic"
  by (auto simp: parsePosition_def ais140_timestamp_def bind_o_Panic_iff slice_def split: if_splits)

lemma ais140_never_panics:
  "fst (ais140_Authenticate c) \<noteq> Panic" "fst (ais140_dispatch impl now raw) \<noteq> Panic"
  "fst (ais140_ParsePacket impl now c) \<noteq> Panic"
proof -
  have v: "isValidChecksum line \<noteq> Panic" and p: "parseAIS140 line \<noteq> Panic" for line
    using isValidChecksum_Ok [of line] parseAIS140_Ok [of line] by auto
  show "fst (ais140_Authenticate c) \<noteq> Panic"
    by (auto simp: ais140_Authenticate_def Let_def fst_bind_io_Panic lift_io_def ret_io_def v p
        split: prod.splits option.splits if_splits)
  show d: "fst (ais140_dispatch impl now raw) \<noteq> Panic" for raw
    using v p parsePosition_no_panic by (auto simp: ais140_dispatch_def Let_def split: outcome.splits)
  show "fst (ais140_ParsePacket impl now c) \<noteq> Panic"
    using d by (auto simp: ais140_ParsePacket_def split: prod.splits)
qed

section \<open>The parse loop\<close>

definition ais140_no_checksum :: goerr where
  "ais140_no_checksum = ErrorfQ ''ais140 checksum invalid'' []"

interpretation ais140: line_protocol "ais140_handler impl now" newline "Wrapf ''ais140 read''"
  "\<lambda>raw. fst (ais140_dispatch impl now raw)" ais140_no_checksum
proof
  show "ParsePacket (ais140_handler impl now) =
      line_packet newline (Wrapf ''ais140 read'') (\<lambda>raw. fst (ais140_dispatch impl now raw))"
    by (auto simp: ais140_handler_def ais140_ParsePacket_def line_packet_def fun_eq_iff split: prod.splits)
  show "fst (ais140_dispatch impl now []) = Err (ais140_no_checksum, [])"
    by (simp add: ais140_dispatch_def string_of_def isValidChecksum_def TrimPrefix_def ais140_no_checksum_def)
qed

section \<open>Building and checking packets\<close>

lemma star_in_hex: "CHR ''*'' \<notin> set (fmt_02X b)"
  using high_nibble [of b] by (auto simp: fmt_02X_def upper_hex_def dest!: arg_cong [where f = "of_char :: char \<Rightarrow> nat"])

lemma length_fmt_02X [simp]: "length (fmt_02X b) = 2"
  by (simp add: fmt_02X_def)

text \<open>A line with any body and any checksum byte is valid exactly when the byte is the body's.\<close>

lemma isValidChecksum_line: "isValidChecksum (''$'' @ body @ ''*'' @ fmt_02X b) = Ok (b = xor_runes body)"
proof -
  have t: "TrimPrefix (''$'' @ s) ''$'' = s" for s by (simp add: TrimPrefix_def)
  have l: "LastIndex (body @ ''*'' @ fmt_02X b) (CHR ''*'') = Some (length body)"
    using LastIndex_append [OF star_in_hex, of body b] by simp
  have "take 2 (fmt_02X b) = fmt_02X b" by simp
  then show ?thesis
    unfolding isValidChecksum_def t Let_def l by (simp add: slice_def EqualFold_hex)
qed

lemma parseAIS140_line: "parseAIS140 (''$'' @ body @ ''*'' @ fmt_02X b) = Ok (Split body (CHR '',''))"
proof -
  have t: "TrimPrefix (''$'' @ s) ''$'' = s" for s by (simp add: TrimPrefix_def)
  have l: "LastIndex (body @ ''*'' @ fmt_02X b) (CHR ''*'') = Some (length body)"
    using LastIndex_append [OF star_in_hex, of body b] by simp
  show ?thesis unfolding parseAIS140_def t Let_def l by (simp add: slice_def)
qed

definition packet_body :: "string \<Rightarrow> string list \<Rightarrow> string" where
  "packet_body msgType flds = msgType @ '','' @ Join flds (CHR '','')"

lemma buildPacket_eq: "buildPacket t fs = ''$'' @ packet_body t fs @ ''*'' @ fmt_02X (xor_runes (packet_body t fs))"
  by (simp add: buildPacket_def packet_body_def Let_def)

lemma buildPacket_roundtrip:
  assumes "fs \<noteq> []" "\<forall>p \<in> set (t # fs). CHR '','' \<notin> set p"
  shows "isValidChecksum (buildPacket t fs) = Ok True" "parseAIS140 (buildPacket t fs) = Ok (t # fs)"
proof -
  show "isValidChecksum (buildPacket t fs) = Ok True" unfolding buildPacket_eq isValidChecksum_line by simp
  have "Split (packet_body t fs) (CHR '','') = t # fs"
    using assms Split_append [of "CHR '',''" t] Split_Join [of fs "CHR '',''"] by (simp add: packet_body_def)
  then show "parseAIS140 (buildPacket t fs) = Ok (t # fs)" unfolding buildPacket_eq parseAIS140_line by simp
qed

text \<open>
  What \<open>buildPacket\<close> makes, \<open>isValidChecksum\<close> accepts, and \<open>parseAIS140\<close> takes apart into
  the message type and the fields it was made of; letter case of the checksum aside, no other
  checksum is accepted for the same body.
\<close>

lemma ais140_packet_roundtrip:
  assumes "fs \<noteq> []" "\<forall>p \<in> set (t # fs). CHR '','' \<notin> set p"
  shows "isValidChecksum (buildPacket t fs) = Ok True \<and> parseAIS140 (buildPacket t fs) = Ok (t # fs) \<and>
    (\<forall>b. isValidChecksum (''$'' @ t @ '','' @ Join fs (CHR '','') @ ''*'' @ fmt_02X b) =
         Ok (b = xor_runes (t @ '','' @ Join fs (CHR '',''))))"
  using buildPacket_roundtrip [OF assms] isValidChecksum_line [of "packet_body t fs"] by (simp add: packet_body_def)

lemma ais140_packet_roundtrip_witness:
  "isValidChecksum (buildPacket ''HBT'' [''1'']) = Ok True \<and> parseAIS140 (buildPacket ''HBT'' [''1'']) = Ok [''HBT'', ''1'']"
  using ais140_packet_roundtrip [of "[''1'']" "''HBT''"] by simp

section \<open>Damaged packets\<close>

lemma runes_append_ascii: "is_ascii pre \<Longrightarrow> runes (pre @ s) = map of_char pre @ runes s"
  by (induction pre) (simp_all add: is_ascii_def DecodeRune_ascii)

text \<open>A byte outside ASCII between ASCII bytes is one invalid rune.\<close>

lemma DecodeRune_alone:
  assumes "\<not> of_char b < (0x80 :: nat)" "is_ascii post"
  shows "DecodeRune (b # post) = (RuneError, 1)"
  using assms
  by (cases post) (auto simp: DecodeRune_def is_ascii_def second_ok_def is_cont_def split: list.splits)

definition rune_at :: "char \<Rightarrow> nat" where
  "rune_at b = (if of_char b < (0x80 :: nat) then of_char b else RuneError)"

lemma runes_one_byte:
  assumes "is_ascii pre" "is_ascii post"
  shows "runes (pre @ b # post) = map of_char pre @ rune_at b # map of_char post"
  using assms DecodeRune_alone [of b post] DecodeRune_ascii [of b post]
  by (simp add: runes_append_ascii runes_ascii rune_at_def)

lemma foldl_xor: "foldl (\<lambda>x r. x XOR word_of_nat r) a rs = a XOR foldl (\<lambda>x r. x XOR word_of_nat r) (0 :: byte) rs"
proof (induction rs arbitrary: a)
  case (Cons r rs)
  show ?case
    unfolding foldl_Cons Cons.IH [of "a XOR word_of_nat r"] Cons.IH [of "0 XOR word_of_nat r"]
    by (simp add: xor.assoc)
qed simp

lemma xor_runes_one_byte:
  assumes "is_ascii pre" "is_ascii post"
  shows "xor_runes (pre @ b # post) = xor_runes pre XOR word_of_nat (rune_at b) XOR xor_runes post"
  using assms
  by (simp add: xor_runes_def runes_one_byte runes_ascii foldl_xor [of "_ XOR _"] xor.assoc)

text \<open>
  C24: a packet with an ASCII body in which one byte was replaced by any other byte, ASCII or
  not, fails the checksum test.
\<close>

theorem ais140_detects_substitution:
  assumes "is_ascii (pre @ a # post)" "b \<noteq> a"
  shows "isValidChecksum (''$'' @ (pre @ b # post) @ ''*'' @ fmt_02X (xor_runes (pre @ a # post))) = Ok False"
proof -
  have asc: "is_ascii pre" "is_ascii post" "of_char a < (0x80 :: nat)" using assms(1) by (simp_all add: is_ascii_def)
  have "(word_of_nat (rune_at b) :: byte) \<noteq> word_of_nat (rune_at a)"
  proof
    assume "(word_of_nat (rune_at b) :: byte) = word_of_nat (rune_at a)"
    then have "rune_at b mod 256 = rune_at a mod 256" by (metis unat_byte_of_nat)
    with asc(3) have "of_char b = (of_char a :: nat)" by (auto simp: rune_at_def RuneError_def split: if_splits)
    with assms(2) show False by simp
  qed
  then have "xor_runes (pre @ a # post) \<noteq> xor_runes (pre @ b # post)"
    by (simp add: xor_runes_one_byte [OF asc(1,2)] xor_left_cancel xor_right_cancel)
  then show ?thesis by (simp only: isValidChecksum_line)
qed

theorem ais140_detects_substitution_witness:
  "isValidChecksum (''$'' @ (''NRM,1'' @ CHR ''9'' # '',x'') @ ''*'' @ fmt_02X (xor_runes (''NRM,1'' @ CHR ''7'' # '',x''))) = Ok False"
  by (rule ais140_detects_substitution) (simp_all add: is_ascii_def)

section \<open>Messages in the documented format\<close>

text \<open>
  A position with coordinates in millionths of a degree and speed and heading in hundredths;
  whatever fields the device appends.
\<close>

record ais_fix =
  ax_day :: nat
  ax_month :: nat
  ax_year :: nat
  ax_hour :: nat
  ax_min :: nat
  ax_sec :: nat
  ax_lat :: nat
  ax_south :: bool
  ax_lng :: nat
  ax_west :: bool
  ax_speed :: nat
  ax_heading :: nat
  ax_more :: "string list"

datatype ais_msg = Tracking bool ais_fix | Emergency bool ais_fix | Heartbeat

definition micro :: "nat \<Rightarrow> nat \<Rightarrow> string" where
  "micro w n = pad w (n div 10 ^ 6) @ CHR ''.'' # pad 6 (n mod 10 ^ 6)"

definition ais_fields :: "ais_fix \<Rightarrow> string list" where
  "ais_fields x =
     [pad 2 (ax_day x) @ pad 2 (ax_month x) @ pad 4 (ax_year x), pad 2 (ax_hour x) @ pad 2 (ax_min x) @ pad 2 (ax_sec x),
      micro 2 (ax_lat x), (if ax_south x then ''S'' else ''N''), micro 3 (ax_lng x), (if ax_west x then ''W'' else ''E''),
      hundredths (ax_speed x), hundredths (ax_heading x)] @ ax_more x"

fun ais_packet :: "ais_msg \<Rightarrow> string" where
  "ais_packet (Tracking trip x) = buildPacket (if trip then ''TRP'' else ''NRM'') (ais_fields x)"
| "ais_packet (Emergency emr x) = buildPacket (if emr then ''EMR'' else ''SOS'') (ais_fields x)"
| "ais_packet Heartbeat = buildPacket ''HBT'' [''1'']"

definition ais_line :: "ais_msg \<Rightarrow> bytes" where
  "ais_line m = bytes_of (ais_packet m @ [CHR 0x0D])"

definition ais_fix_ok :: "ais_fix \<Rightarrow> bool" where
  "ais_fix_ok x \<longleftrightarrow>
     list_all (\<lambda>n. n < 100) [ax_day x, ax_month x, ax_hour x, ax_min x, ax_sec x] \<and> ax_year x < 10000 \<and>
     ax_lat x < 10 ^ 8 \<and> ax_lng x < 10 ^ 9 \<and> ax_speed x < 1000000 \<and> ax_heading x < 1000000 \<and>
     (\<forall>p \<in> set (ax_more x). CHR '','' \<notin> set p \<and> CHR 0x0A \<notin> set p) \<and> length (Join (ax_more x) (CHR '','')) \<le> 1000"

fun ais_msg_ok :: "ais_msg \<Rightarrow> bool" where
  "ais_msg_ok (Tracking trip x) = ais_fix_ok x"
| "ais_msg_ok (Emergency emr x) = ais_fix_ok x"
| "ais_msg_ok Heartbeat = True"

text \<open>The record a position stands for: correctly rounded coordinates, whole speed and heading.\<close>

definition ais_record :: "ais_fix \<Rightarrow> ParsedRecord" where
  "ais_record x = zero_record\<lparr>
     Timestamp := DateUnixMilli (int (ax_year x)) (int (ax_month x)) (int (ax_day x)) (int (ax_hour x)) (int (ax_min x)) (int (ax_sec x)),
     Lat := Fin (if ax_south x then - round64 (of_nat (ax_lat x) / 10 ^ 6) else round64 (of_nat (ax_lat x) / 10 ^ 6)),
     Lng := Fin (if ax_west x then - round64 (of_nat (ax_lng x) / 10 ^ 6) else round64 (of_nat (ax_lng x) / 10 ^ 6)),
     Speed := word_of_nat (ax_speed x div 100), Heading := word_of_nat (ax_heading x div 100), Valid := True\<rparr>"

fun ais_records :: "ais_msg \<Rightarrow> ParsedRecord list" where
  "ais_records (Tracking trip x) = [ais_record x]"
| "ais_records (Emergency emr x) = [(ais_record x)\<lparr>IOData := [236 \<mapsto> 1]\<rparr>]"
| "ais_records Heartbeat = []"

lemma uint16_hundredths:
  "n < 1000000 \<Longrightarrow> uint16_of impl (Fin (round64 (of_nat n / 100))) = word_of_nat (n div 100)"
proof -
  assume n: "n < 1000000"
  then have "n div 100 < 65536" by simp
  then have "unat (word_of_nat (n div 100) :: u16) = n div 100" by (simp add: unat_of_nat)
  with hundredths_floor [OF n, of impl] show ?thesis by (metis word_unat_eq_iff)
qed

lemma parsePosition_fields:
  assumes "ais_fix_ok x"
  shows "parsePosition impl now (t # ais_fields x) = Ok (ais_record x)"
proof -
  have sp: "ax_speed x < 1000000" "ax_heading x < 1000000" using assms by (simp_all add: ais_fix_ok_def)
  have h: "ParseFloat (hundredths n) = (Fin (round64 (of_nat n / 100)), None)" if "n < 1000000" for n
    using ParseFloat_pads [of 4 n 2] that by (simp add: hundredths_eq)
  have la: "ParseFloat (micro 2 (ax_lat x)) = (Fin (round64 (of_nat (ax_lat x) / 10 ^ 6)), None)"
    using ParseFloat_pads [of 2 "ax_lat x" 6] assms by (simp add: micro_def ais_fix_ok_def less_mult_imp_div_less)
  have lo: "ParseFloat (micro 3 (ax_lng x)) = (Fin (round64 (of_nat (ax_lng x) / 10 ^ 6)), None)"
    using ParseFloat_pads [of 3 "ax_lng x" 6] assms by (simp add: micro_def ais_fix_ok_def less_mult_imp_div_less)
  define fs where "fs = t # ais_fields x"
  have ts: "ais140_timestamp now (fs ! 1) (fs ! 2) = Ok (Timestamp (ais_record x))"
    using assms by (simp add: fs_def ais140_timestamp_def ais_fields_def slice_def Atoi_pad ais_fix_ok_def ais_record_def)
  have ix: "fs ! 3 = micro 2 (ax_lat x)" "fs ! 4 = (if ax_south x then ''S'' else ''N'')"
    "fs ! 5 = micro 3 (ax_lng x)" "fs ! 6 = (if ax_west x then ''W'' else ''E'')"
    "fs ! 7 = hundredths (ax_speed x)" "fs ! 8 = hundredths (ax_heading x)"
    and len: "9 \<le> length fs"
    by (simp_all add: fs_def ais_fields_def)
  have "parsePosition impl now fs = Ok (ais_record x)"
    using len unfolding parsePosition_def
    by (simp add: idx_def ts ix la lo h sp uint16_hundredths del: uint16_of.simps One_nat_def)
      (simp add: ais_record_def zero_record_def)
  then show ?thesis by (simp add: fs_def)
qed

lemma ais_fields_clean:
  assumes "ais_fix_ok x" "p \<in> set (ais_fields x)"
  shows "CHR '','' \<notin> set p" "CHR 0x0A \<notin> set p"
proof -
  have n: "CHR 0x0A \<notin> set (pad k n)" for k n using digits_chars(2) [OF all_digits_pad, of "CHR 0x0A" k n] by (auto simp: plain_char_def)
  show "CHR '','' \<notin> set p" "CHR 0x0A \<notin> set p"
    using assms n by (auto simp: ais_fields_def ais_fix_ok_def micro_def hundredths_def split: if_splits)
qed

lemma ais_fields_not_Nil [simp]: "ais_fields x \<noteq> []"
  by (simp add: ais_fields_def)

lemma buildPacket_ends: "buildPacket t fs \<noteq> []" "hd (buildPacket t fs) = CHR ''$''" "plain_char (last (buildPacket t fs))"
proof -
  have "plain_char (last (fmt_02X b))" for b by (auto simp: fmt_02X_def upper_hex_def plain_char_def)
  then show "buildPacket t fs \<noteq> []" "hd (buildPacket t fs) = CHR ''$''" "plain_char (last (buildPacket t fs))"
    by (auto simp: buildPacket_def Let_def) (metis append_Nil2 length_fmt_02X list.size(3) zero_neq_numeral)
qed

lemma newline_string: "string_of [newline] = [CHR 0x0A]"
  by code_simp

lemma newline_bytes: "newline \<in> set (bytes_of s) \<longleftrightarrow> CHR 0x0A \<in> set s"
proof -
  have "newline = (word_of_nat (of_char ch) :: byte) \<longleftrightarrow> ch = CHR 0x0A" for ch :: char
  proof
    assume "newline = (word_of_nat (of_char ch) :: byte)"
    then have "string_of (bytes_of [ch]) = string_of [newline]" by (simp add: bytes_of_def)
    then show "ch = CHR 0x0A" unfolding string_of_bytes_of newline_string by simp
  qed (simp add: newline_def)
  then show ?thesis by (simp add: bytes_of_def image_iff)
qed

lemma line_text: "TrimSpace (string_of (bytes_of (buildPacket t fs @ [CHR 0x0D]) @ [newline])) = buildPacket t fs"
proof -
  have "string_of (bytes_of (buildPacket t fs @ [CHR 0x0D]) @ [newline]) =
      string_of (bytes_of (buildPacket t fs @ [CHR 0x0D])) @ string_of [newline]" by (simp add: string_of_def)
  also have "\<dots> = buildPacket t fs @ [CHR 0x0D, CHR 0x0A]" unfolding string_of_bytes_of newline_string by simp
  finally show ?thesis
    using TrimSpace_crlf(1) [OF buildPacket_ends(1) _ buildPacket_ends(3), of t fs] buildPacket_ends(2) [of t fs]
    by (simp add: plain_char_def)
qed

lemma ais140_dispatch_packet:
  assumes "fs \<noteq> []" "\<forall>p \<in> set (t # fs). CHR '','' \<notin> set p"
  defines "raw \<equiv> bytes_of (buildPacket t fs @ [CHR 0x0D]) @ [newline]"
  shows "ais140_dispatch impl now raw =
    (if t = ''NRM'' \<or> t = ''TRP'' then
       (case parsePosition impl now (t # fs) of Ok rec \<Rightarrow> (Ok ([rec], raw), None) | Err e \<Rightarrow> (Err (e, raw), None) | Panic \<Rightarrow> (Panic, None))
     else if t = ''SOS'' \<or> t = ''EMR'' then
       (case parsePosition impl now (t # fs) of
          Ok rec \<Rightarrow> (Ok ([rec\<lparr>IOData := (IOData rec)(236 \<mapsto> 1)\<rparr>], raw), Some (buildPacket t fs))
        | Err e \<Rightarrow> (Err (e, raw), None) | Panic \<Rightarrow> (Panic, None))
     else if t = ''HBT'' then (Ok ([], raw), None)
     else (Err (ErrorfQ ''ais140 unknown message type'' t, raw), None))"
  unfolding ais140_dispatch_def raw_def line_text Let_def buildPacket_roundtrip [OF assms(1,2)] by simp

lemma ais140_dispatch_msg:
  assumes "ais_msg_ok m"
  shows "ais140_dispatch impl now (ais_line m @ [newline]) =
    (Ok (ais_records m, ais_line m @ [newline]), (case m of Emergency e x \<Rightarrow> Some (ais_packet m) | _ \<Rightarrow> None))"
proof (cases m)
  case (Tracking trip x)
  then have "ais_fix_ok x" using assms by simp
  from ais_fields_clean(1) [OF this] parsePosition_fields [OF this, of impl now] Tracking show ?thesis
    using ais140_dispatch_packet [OF ais_fields_not_Nil, of "if trip then ''TRP'' else ''NRM''" x impl now]
    by (auto simp: ais_line_def)
next
  case (Emergency emr x)
  then have "ais_fix_ok x" using assms by simp
  from ais_fields_clean(1) [OF this] parsePosition_fields [OF this, of impl now] Emergency show ?thesis
    using ais140_dispatch_packet [OF ais_fields_not_Nil, of "if emr then ''EMR'' else ''SOS''" x impl now]
    by (auto simp: ais_line_def ais_record_def zero_record_def)
next
  case Heartbeat
  then show ?thesis
    using ais140_dispatch_packet [of "[''1'']" "''HBT''" impl now] by (simp add: ais_line_def)
qed

lemma fmt_02X_clean: "CHR 0x0A \<notin> set (fmt_02X b)"
  using high_nibble [of b] by (auto simp: fmt_02X_def upper_hex_def dest!: arg_cong [where f = "of_char :: char \<Rightarrow> nat"])

lemma ais_line_clean:
  assumes "ais_msg_ok m"
  shows "newline \<notin> set (ais_line m)" "length (ais_line m) \<le> 1200"
proof -
  have p: "CHR 0x0A \<notin> set (buildPacket t fs)" if "CHR 0x0A \<notin> set t" "\<forall>p \<in> set fs. CHR 0x0A \<notin> set p" for t fs
    using that set_Join [of fs "CHR '',''"] by (auto simp: buildPacket_def Let_def fmt_02X_clean)
  show "newline \<notin> set (ais_line m)"
    using assms ais_fields_clean(2) p by (cases m) (auto simp: ais_line_def newline_bytes)
  have j: "length (Join (a # b) (CHR '','')) \<le> length a + 1 + length (Join b (CHR '',''))" for a b by (cases b) auto
  have l: "length (Join (ais_fields x) (CHR '','')) \<le> 1100" if "ais_fix_ok x" for x
    using that j [of "hundredths (ax_heading x)" "ax_more x"]
    by (auto simp: ais_fields_def ais_fix_ok_def micro_def hundredths_def)
  show "length (ais_line m) \<le> 1200"
    using assms l by (cases m) (fastforce simp: ais_line_def buildPacket_def Let_def)+
qed

lemma ais140_loop_items:
  assumes "\<forall>(m, lost) \<in> set items. ais_msg_ok m \<and> length lost \<le> 2000"
    and "inp c = map (\<lambda>(m, lost). ais_line m @ newline # lost) items"
    and "ending c = EOF" "length items < budget"
  shows "parse_loop (ais140_handler impl now) dev budget c =
      (ParseError ais140_no_checksum,
       concat (map (\<lambda>(m, lost). if ais_records m = [] then [] else [(dev, map (\<lambda>r. r\<lparr>DeviceID := dev\<rparr>) (ais_records m))]) items),
       c\<lparr>inp := []\<rparr>)"
proof -
  define seg where "seg = (\<lambda>(m, lost). \<lparr>seg_body = ais_line m, seg_rest = lost, seg_records = ais_records m\<rparr>)"
  have good: "ais140.good impl now (seg x)" if x: "x \<in> set items" for x
  proof -
    obtain m lost where "x = (m, lost)" by fastforce
    with x assms(1) have "ais_msg_ok m" "length lost \<le> 2000" "x = (m, lost)" by auto
    with ais140_dispatch_msg [of m impl now] ais_line_clean [of m] show ?thesis
      by (simp add: ais140.good_def seg_def seg_bytes_def bufSize_def)
  qed
  have "inp c = map (seg_bytes newline) (map seg items)" by (auto simp: assms(2) seg_def seg_bytes_def)
  then have loop: "parse_loop (ais140_handler impl now) dev budget c =
      ((if isClosedOrEOF ais140_no_checksum then ConnClosed else ParseError ais140_no_checksum), callbacks dev (map seg items), c\<lparr>inp := []\<rparr>)"
    using assms(3,4) good by (intro ais140.loop_segments) (auto simp: list_all_iff)
  have "\<not> isClosedOrEOF ais140_no_checksum" by code_simp
  moreover have "callbacks dev (map seg items) =
      concat (map (\<lambda>(m, lost). if ais_records m = [] then [] else [(dev, map (\<lambda>r. r\<lparr>DeviceID := dev\<rparr>) (ais_records m))]) items)"
    by (induction items) (auto simp: callbacks_def seg_def)
  ultimately show ?thesis using loop by simp
qed

text \<open>
  C21: an AIS140 connection on which each message arrives in a segment of its own: tracking and
  emergency packets yield exactly the positions they encode, correctly rounded, emergencies with
  the SOS element set, heartbeats nothing; what follows a packet in its segment is lost with the
  reader's buffer, and the peer's close is taken for a packet with a bad checksum.
\<close>

theorem ais140_session:
  assumes "\<forall>(m, lost) \<in> set items. ais_msg_ok m \<and> length lost \<le> 2000"
    and "inp c = map (\<lambda>(m, lost). ais_line m @ newline # lost) items"
    and "ending c = EOF" "length items < budget"
  shows "parse_loop (ais140_handler impl now) dev budget c =
      (ParseError ais140_no_checksum,
       concat (map (\<lambda>(m, lost). if ais_records m = [] then [] else [(dev, map (\<lambda>r. r\<lparr>DeviceID := dev\<rparr>) (ais_records m))]) items),
       c\<lparr>inp := []\<rparr>)"
  using assms by (rule ais140_loop_items)

definition sample_ais_fix :: ais_fix where
  "sample_ais_fix = \<lparr>ax_day = 14, ax_month = 3, ax_year = 2024, ax_hour = 9, ax_min = 30, ax_sec = 5, ax_lat = 28613939,
     ax_south = False, ax_lng = 77209021, ax_west = False, ax_speed = 4250, ax_heading = 18000, ax_more = [''1'']\<rparr>"

theorem ais140_session_witness:
  "parse_loop (ais140_handler (\<lambda>_. 0) 0) ''x'' 5
     \<lparr>inp = [ais_line Heartbeat @ [newline], ais_line (Emergency False sample_ais_fix) @ newline # ais_line Heartbeat], ending = EOF, wres = [], outp = []\<rparr> =
     (ParseError ais140_no_checksum,
      [(''x'', [(ais_record sample_ais_fix)\<lparr>IOData := [236 \<mapsto> 1], DeviceID := ''x''\<rparr>])], \<lparr>inp = [], ending = EOF, wres = [], outp = []\<rparr>)"
proof -
  have "ais_msg_ok (Emergency False sample_ais_fix)" by (simp add: ais_fix_ok_def sample_ais_fix_def)
  moreover have "length (ais_line Heartbeat) \<le> 2000" using ais_line_clean(2) [of Heartbeat] by simp
  ultimately show ?thesis
    using ais140_session [of "[(Heartbeat, []), (Emergency False sample_ais_fix, ais_line Heartbeat)]"
      "\<lparr>inp = [ais_line Heartbeat @ [newline], ais_line (Emergency False sample_ais_fix) @ newline # ais_line Heartbeat], ending = EOF, wres = [], outp = []\<rparr>"
      5 "\<lambda>_. 0" 0 "''x''"] by simp
qed

section \<open>Emergencies\<close>

lemma parsePosition_cases:
  "(\<exists>rec. parsePosition impl now fs = Ok rec \<and> IOData rec = Map.empty \<and> 9 \<le> length fs) \<or>
   (\<exists>e. parsePosition impl now fs = Err e \<and> length fs < 9)"
proof (cases "length fs < 9")
  case True
  then show ?thesis by (simp add: parsePosition_def)
next
  case False
  have ts: "\<exists>t. ais140_timestamp now a b = Ok t" for a b by (simp add: ais140_timestamp_def slice_def)
  from ts [of "fs ! 1" "fs ! 2"] obtain t where "ais140_timestamp now (fs ! 1) (fs ! 2) = Ok t" by blast
  with False show ?thesis by (simp add: parsePosition_def idx_def zero_record_def del: One_nat_def)
qed

text \<open>
  Exactly the packets with a valid checksum, type \<open>SOS\<close> or \<open>EMR\<close> and at least nine fields
  are handed to the emergency portal, as the text of the line; and a packet is handed over
  exactly when the record it yields carries the SOS element.
\<close>

lemma ais140_emergency_forwarded_iff:
  "(snd (ais140_dispatch impl now raw) = Some line \<longleftrightarrow>
      line = TrimSpace (string_of raw) \<and> isValidChecksum line = Ok True \<and>
      (\<exists>fs. parseAIS140 line = Ok fs \<and> fs ! 0 \<in> {''SOS'', ''EMR''} \<and> 9 \<le> length fs)) \<and>
   (snd (ais140_dispatch impl now raw) \<noteq> None \<longleftrightarrow>
      (\<exists>rec. fst (ais140_dispatch impl now raw) = Ok ([rec], raw) \<and> IOData rec 236 = Some 1))"
proof -
  let ?l = "TrimSpace (string_of raw)"
  obtain v where v: "isValidChecksum ?l = Ok v" using isValidChecksum_Ok [of ?l] by blast
  obtain fs where fs: "parseAIS140 ?l = Ok fs" "fs \<noteq> []" using parseAIS140_Ok [of ?l] by blast
  from parsePosition_cases [of impl now fs] show ?thesis
    by (elim disjE exE conjE) (auto simp: ais140_dispatch_def Let_def v fs)
qed

text \<open>An emergency reaches a configured portal with the device's line as its body.\<close>

lemma ForwardEmergency_posts:
  assumes "endpoint c \<noteq> []" "endpoint c \<noteq> its_stub_endpoint" "\<And>r. \<exists>s. http r = Responded s"
  shows "snd (ForwardEmergency c http raw) = [\<lparr>its_url = endpoint c, its_key = apiKey c, its_body = raw\<rparr>]"
  using assms(1,2) assms(3) [of "\<lparr>its_url = endpoint c, its_key = apiKey c, its_body = raw\<rparr>"]
  by (auto simp: ForwardEmergency_def Let_def)

section \<open>Login\<close>

text \<open>
  A login packet (\<open>HLP\<close> with registration number and IMEI) that arrives first yields the
  IMEI and is answered with one heartbeat packet; what came in with it is lost.
\<close>

lemma ais140_login:
  assumes "\<forall>p \<in> set (vrn # imei # rest). CHR '','' \<notin> set p \<and> CHR 0x0A \<notin> set p" "wres c = []"
    and "inp c = (bytes_of (buildPacket ''HLP'' (vrn # imei # rest) @ [CHR 0x0D]) @ newline # lost) # segs"
    and "length (buildPacket ''HLP'' (vrn # imei # rest)) + length lost + 2 \<le> bufSize"
  shows "ais140_Authenticate c =
    (Ok imei, c\<lparr>inp := segs, outp := outp c @ bytes_of (''$HBT,1*43'' @ [CHR 0x0D, CHR 0x0A])\<rparr>)"
proof -
  let ?p = "buildPacket ''HLP'' (vrn # imei # rest)"
  have n: "newline \<notin> set (bytes_of (?p @ [CHR 0x0D]))"
    using assms(1) set_Join [of "vrn # imei # rest" "CHR '',''"]
    by (auto simp: newline_bytes buildPacket_def Let_def fmt_02X_clean)
  have r: "ReadString newline c = (bytes_of (?p @ [CHR 0x0D]) @ [newline], None, c\<lparr>inp := segs\<rparr>)"
    by (rule ReadString_segment [OF assms(3) n]) (use assms(4) in simp)
  have ok: "isValidChecksum ?p = Ok True" "parseAIS140 ?p = Ok (''HLP'' # vrn # imei # rest)"
    by (rule buildPacket_roundtrip; use assms(1) in auto)+
  have ack: "ais140_ack = bytes_of (''$HBT,1*43'' @ [CHR 0x0D, CHR 0x0A])" by code_simp
  show ?thesis
    unfolding ais140_Authenticate_def r prod.case option.case line_text Let_def ok
    using assms(2) by (simp add: bind_io_def lift_io_def idx_def wrap_io_def ret_io_def Write_def ack)
qed

lemma ais140_login_witness:
  "ais140_Authenticate (sample_conn (bytes_of (buildPacket ''HLP'' [''DL01AB1234'', ''123456789012345'', ''1.0''] @ [CHR 0x0D]) @ [newline])) =
     (Ok ''123456789012345'', (sample_conn [])\<lparr>inp := [], outp := bytes_of (''$HBT,1*43'' @ [CHR 0x0D, CHR 0x0A])\<rparr>)"
proof -
  let ?b = "bytes_of (buildPacket ''HLP'' [''DL01AB1234'', ''123456789012345'', ''1.0''] @ [CHR 0x0D])"
  have "length (buildPacket ''HLP'' [''DL01AB1234'', ''123456789012345'', ''1.0'']) + length ([] :: bytes) + 2 \<le> bufSize"
    by (simp add: buildPacket_def Let_def bufSize_def)
  from ais140_login [OF _ _ _ this, of "sample_conn (?b @ [newline])" "[]"] show ?thesis
    by (simp add: sample_conn_def)
qed

end
