(* ===== verification/Config.thy ===== *)
theory Config
  imports Go_Strings
begin

text \<open>
  The configuration of the ingestion service (\<open>ingestion-service/config/config.go\<close>). The
  environment is an argument: \<open>os.Getenv\<close> is a function that yields the empty string for
  a variable that is not set.
\<close>

record Config =
  PortGT06 :: int
  PortTK103 :: int
  PortJT808 :: int
  PortAIS140 :: int
  PortTeltonikaTC :: int
  PortTeltonikaUDP :: int
  NATSUrl :: string
  LogLevel :: string
  OTELEndpoint :: string
  ReadTimeout :: int
  WriteTimeout :: int
  AIS140ITSEndpoint :: string
  AIS140ITSAPIKey :: string

definition envStr :: "(string \<Rightarrow> string) \<Rightarrow> string \<Rightarrow> string \<Rightarrow> string" where
  "envStr Getenv key def = (let v = Getenv key in if v \<noteq> [] then v else def)"

definition envInt :: "(string \<Rightarrow> string) \<Rightarrow> string \<Rightarrow> int \<Rightarrow> int" where
  "envInt Getenv key def =
     (let v = Getenv key in
      if v \<noteq> [] then (case Atoi v of (n, None) \<Rightarrow> n | (n, Some err) \<Rightarrow> def) else def)"

text \<open>A \<open>time.Duration\<close> counts nanoseconds.\<close>

definition Second :: int where
  "Second = 1000000000"

definition Load :: "(string \<Rightarrow> string) \<Rightarrow> Config" where
  "Load Getenv =
     \<lparr>PortGT06 = envInt Getenv ''PORT_GT06'' 5001,
      PortTK103 = envInt Getenv ''PORT_TK103'' 5002,
      PortJT808 = envInt Getenv ''PORT_JT808'' 5003,
      PortAIS140 = envInt Getenv ''PORT_AIS140'' 5004,
      PortTeltonikaTC = envInt Getenv ''PORT_TELTONIKA_TCP'' 5027,
      PortTeltonikaUDP = envInt Getenv ''PORT_TELTONIKA_UDP'' 5028,
      NATSUrl = envStr Getenv ''NATS_URL'' ''nats://localhost:4222'',
      LogLevel = envStr Getenv ''LOG_LEVEL'' ''info'',
      OTELEndpoint = envStr Getenv ''OTEL_EXPORTER_OTLP_ENDPOINT'' '''',
      ReadTimeout = 60 * Second,
      WriteTimeout = 10 * Second,
      AIS140ITSEndpoint = envStr Getenv ''AIS140_ITS_ENDPOINT'' '''',
      AIS140ITSAPIKey = envStr Getenv ''AIS140_ITS_API_KEY'' ''''\<rparr>"

lemma fmt_int_not_Nil: "fmt_int z \<noteq> []"
proof -
  have "fmt_nat n \<noteq> []" for n by (simp add: fmt_nat.simps [of n])
  then show ?thesis by (simp add: fmt_int_def)
qed

text \<open>A variable that prints a 64-bit number is read back as that number.\<close>

lemma envInt_set:
  assumes "Getenv key = fmt_int z" "z \<in> {- (2 ^ 63) ..< 2 ^ 63}"
  shows "envInt Getenv key d = z"
  using assms fmt_int_not_Nil [of z] by (simp add: envInt_def Atoi_fmt_int)

lemma envInt_unset: "Getenv key = [] \<Longrightarrow> envInt Getenv key d = d"
  by (simp add: envInt_def)

lemma envInt_invalid: "snd (Atoi (Getenv key)) \<noteq> None \<Longrightarrow> envInt Getenv key d = d"
  by (auto simp: envInt_def Let_def split: prod.splits option.splits)

lemma envInt_range:
  assumes "d \<in> {- (2 ^ 63) ..< 2 ^ 63}"
  shows "envInt Getenv key d \<in> {- (2 ^ 63) ..< 2 ^ 63}"
  using assms Atoi_range [of "Getenv key"]
  by (auto simp: envInt_def Let_def split: prod.splits option.splits)

end
