(* ===== verification/Ingestion.thy ===== *)
theory Ingestion
  imports Server Teltonika_Wire Gt06 Jt808 Tk103 Ais140 Config
begin

text \<open>
  The ingestion service put together (\<open>ingestion-service/cmd/main.go\<close>,
  \<open>pkg/nats/client.go\<close>): the record callback that publishes to JetStream, and what the TCP
  server does with the protocol handlers. JetStream is a third-party service: its publish
  operation is an argument over an abstract broker state.
\<close>

section \<open>Publishing\<close>

definition SubjectRawAVL :: string where
  "SubjectRawAVL = ''gpsgo.avl.raw''"

type_synonym 'j js_publish = "string \<Rightarrow> string \<Rightarrow> bytes \<Rightarrow> 'j \<Rightarrow> (goerr, unit) outcome \<times> 'j"

definition nats_Publish :: "'j js_publish \<Rightarrow> 'j js_publish" where
  "nats_Publish js subject msgID' data = js subject msgID' data"

definition record_msgID :: "string \<Rightarrow> ParsedRecord \<Rightarrow> string" where
  "record_msgID deviceID rec = deviceID @ ''-'' @ fmt_int (Timestamp rec)"

text \<open>A record that cannot be marshalled is skipped; a failed publish is only logged.\<close>

fun onRecord :: "(ParsedRecord \<Rightarrow> bytes option) \<Rightarrow> 'j js_publish \<Rightarrow> string \<Rightarrow> ParsedRecord list \<Rightarrow> 'j \<Rightarrow> 'j" where
  "onRecord marshal js deviceID [] j = j"
| "onRecord marshal js deviceID (rec # records) j =
     (case marshal rec of
        None \<Rightarrow> onRecord marshal js deviceID records j
      | Some data \<Rightarrow>
          onRecord marshal js deviceID records
            (snd (nats_Publish js SubjectRawAVL (record_msgID deviceID rec) data j)))"

text \<open>A connection's callbacks run in order while its parse loop runs.\<close>

definition ingest_conn ::
  "(ParsedRecord \<Rightarrow> bytes option) \<Rightarrow> 'j js_publish \<Rightarrow> handler \<Rightarrow> nat \<Rightarrow> conn \<Rightarrow> 'j \<Rightarrow> conn_end \<times> conn \<times> 'j" where
  "ingest_conn marshal js h budget c j =
     (case handleConn h budget c of
        (e, dev, calls, c') \<Rightarrow> (e, c', foldl (\<lambda>j (d, records). onRecord marshal js d records j) j calls))"

section \<open>Protocol handlers and their ports\<close>

text \<open>
  The servers that \<open>main\<close> starts: a port of the configuration with the handler that serves
  it. \<open>impl\<close> is what the platform makes of a float that does not fit a \<open>uint16\<close>, \<open>now\<close> the
  clock. The AIS 140 handler keeps a client of the ITS portal beside its parser.
\<close>

record portHandler =
  port :: int
  port_handler :: handler

definition main_handlers :: "Config \<Rightarrow> (f64 \<Rightarrow> u16) \<Rightarrow> int \<Rightarrow> portHandler list" where
  "main_handlers cfg impl now =
     [\<lparr>port = PortGT06 cfg, port_handler = gt06_handler\<rparr>,
      \<lparr>port = PortTK103 cfg, port_handler = tk103_handler impl now\<rparr>,
      \<lparr>port = PortJT808 cfg, port_handler = jt808_handler now\<rparr>,
      \<lparr>port = PortAIS140 cfg, port_handler = ais140_handler impl now\<rparr>,
      \<lparr>port = PortTeltonikaTC cfg, port_handler = teltonika_handler\<rparr>]"

definition main_its :: "Config \<Rightarrow> ITSClient" where
  "main_its cfg = \<lparr>endpoint = AIS140ITSEndpoint cfg, apiKey = AIS140ITSAPIKey cfg\<rparr>"

lemmas handler_defs = gt06_handler_def tk103_handler_def jt808_handler_def ais140_handler_def teltonika_handler_def

text \<open>The first byte of a connection tells the protocols apart.\<close>

lemma detect_first_byte:
  "gt06_Detect header \<Longrightarrow> header \<noteq> [] \<and> hd header = 0x78"
  "tk103_Detect header \<Longrightarrow> header \<noteq> [] \<and> hd header = 0x23"
  "jt808_Detect header \<Longrightarrow> header \<noteq> [] \<and> hd header = 0x7E"
  "ais140_Detect header \<Longrightarrow> header \<noteq> [] \<and> hd header = 0x24"
  "teltonika_Detect header \<Longrightarrow> header \<noteq> [] \<and> hd header = 0"
proof -
  show "header \<noteq> [] \<and> hd header = 0x78" if "gt06_Detect header"
    using that by (cases header) (auto simp: gt06_Detect_def gt06_consts split: if_splits)
  show "header \<noteq> [] \<and> hd header = 0x23" if d: "tk103_Detect header"
  proof (cases header)
    case (Cons b bs)
    with d have "char_of (unat b) = CHR ''#''" by (simp add: tk103_Detect_def HasPrefix_def string_of_def)
    then have "of_char (char_of (unat b)) = (of_char (CHR ''#'') :: nat)" by (rule arg_cong)
    moreover have "unat b < 256" using unsigned_less [of b, where 'a = nat] by simp
    ultimately have "unat b = unat (0x23 :: byte)" by simp
    with Cons show ?thesis by (simp only: word_unat_eq_iff [symmetric] list.sel list.simps simp_thms)
  qed (use d in \<open>simp add: tk103_Detect_def HasPrefix_def string_of_def\<close>)
  show "header \<noteq> [] \<and> hd header = 0x7E" if "jt808_Detect header"
    using that by (cases header) (auto simp: jt808_Detect_def jt808_consts)
  show "header \<noteq> [] \<and> hd header = 0x24" if "ais140_Detect header"
    using that by (cases header) (auto simp: ais140_Detect_def)
  show "header \<noteq> [] \<and> hd header = 0" if d: "teltonika_Detect header"
  proof -
    from d obtain b1 b2 bs where h: "header = b1 # b2 # bs"
      by (cases header; cases "tl header") (auto simp: teltonika_Detect_def)
    with d have "unat b1 * 256 + unat b2 \<le> 17" by (simp add: teltonika_Detect_def Let_def be_nat_def)
    then have "unat b1 = 0" by simp
    with h show ?thesis by (simp add: unat_eq_0)
  qed
qed

definition service_handlers :: "(f64 \<Rightarrow> u16) \<Rightarrow> int \<Rightarrow> handler set" where
  "service_handlers impl now = {gt06_handler, tk103_handler impl now, jt808_handler now, ais140_handler impl now, teltonika_handler}"

lemma main_handlers_set: "port_handler ` set (main_handlers cfg impl now) = service_handlers impl now"
  by (auto simp: main_handlers_def service_handlers_def)

lemma service_names: "inj_on Name (service_handlers impl now)"
  by (auto simp: inj_on_def service_handlers_def handler_defs)

lemma detection_exclusive:
  assumes "g \<in> service_handlers impl now" "h \<in> service_handlers impl now" "Detect g header" "Detect h header"
  shows "g = h"
proof -
  have "Name g = Name h"
    using assms detect_first_byte [of header] by (auto simp: service_handlers_def handler_defs)
  with service_names assms(1,2) show ?thesis by (auto dest: inj_onD)
qed

definition register_all :: "handler list \<Rightarrow> registry" where
  "register_all hs = foldl (\<lambda>r h. snd (Registry_Register h r)) NewRegistry hs"

lemma register_all_entries:
  assumes "inj_on Name (set hs)"
  shows "registry_inv (register_all hs) \<and> set (handlers (register_all hs)) = set hs"
  using assms
proof (induction hs rule: rev_induct)
  case Nil
  then show ?case by (simp add: register_all_def) (simp add: NewRegistry_def)
next
  case (snoc h hs)
  then have inv: "registry_inv (register_all hs)" and hs: "set (handlers (register_all hs)) = set hs"
    by (auto simp: inj_on_def)
  have step: "register_all (hs @ [h]) = snd (Registry_Register h (register_all hs))" by (simp add: register_all_def)
  have "h \<in> set hs" if "Name h \<in> Name ` set hs" using that snoc.prems by (auto dest: inj_onD)
  then show ?case by (auto simp: step reg.inv_add inv reg.add_entries hs)
qed

text \<open>
  C34: detection by the first bytes is unambiguous: in whatever order (and however often)
  handlers of the served protocols are registered, the registry finds a handler for a
  header exactly when that handler is registered and claims the header.
\<close>

theorem detection_unambiguous:
  assumes "set hs \<subseteq> port_handler ` set (main_handlers cfg impl now)"
  shows "Registry_Detect (register_all hs) header = Some h \<longleftrightarrow> h \<in> set hs \<and> Detect h header"
proof -
  have sub: "set hs \<subseteq> service_handlers impl now" using assms by (simp add: main_handlers_set)
  then have inv: "registry_inv (register_all hs)" and hs: "set (handlers (register_all hs)) = set hs"
    using register_all_entries inj_on_subset [OF service_names] by blast+
  have excl: "g = h" if "g \<in> set hs" "h \<in> set hs" "Detect g header" "Detect h header" for g h
    using detection_exclusive that sub by blast
  show ?thesis
  proof (cases "find (\<lambda>h. Detect h header) (handlers (register_all hs))")
    case None
    then have "\<not> (h \<in> set hs \<and> Detect h header)" using hs by (auto simp: find_None_iff)
    with None show ?thesis by (simp add: reg.detect_first [OF inv])
  next
    case (Some g)
    then have "g \<in> set hs \<and> Detect g header" using hs by (auto simp: find_Some_iff in_set_conv_nth [symmetric] intro: nth_mem)
    with Some excl show ?thesis by (auto simp: reg.detect_first [OF inv])
  qed
qed

theorem detection_unambiguous_witness:
  "Registry_Detect (register_all [ais140_handler (\<lambda>_. 0) 0, gt06_handler]) [0x78, 0x78] = Some gt06_handler"
  using detection_unambiguous [of "[ais140_handler (\<lambda>_. 0) 0, gt06_handler]" "Load (\<lambda>_. [])" "\<lambda>_. 0" 0 "[0x78, 0x78]" gt06_handler]
  by (simp add: main_handlers_set service_handlers_def gt06_handler_def gt06_Detect_def gt06_consts)

section \<open>The handlers take bytes off the connection\<close>

interpretation teltonika: consuming teltonika_handler
proof
  fix c c' :: conn and x
  assume "ParsePacket teltonika_handler c = (Ok x, c')"
  then have "teltonika_ParsePacket c = (Ok (fst x, snd x), c')" by (simp add: teltonika_handler_def)
  from ParsePacket_accepts [OF this] show "length (pending c') < length (pending c)" by auto
qed

interpretation gt06: consuming gt06_handler
proof
  fix c c' :: conn and x
  assume "ParsePacket gt06_handler c = (Ok x, c')"
  then obtain pkt c1 where r: "gt06_readPacket c = (Ok pkt, c1)" and same: "pending c' = pending c1"
    by (auto simp: gt06_handler_def gt06_ParsePacket_def ret_io_def lift_io_def write_discard_def
        elim!: bind_io_OkE split: if_splits)
  from readPacket_reaches_check [OF r] same show "length (pending c') < length (pending c)" by auto
qed

lemma skip_to_frame_consumes:
  "skip_to_frame c = (Ok (), c') \<Longrightarrow> length (pending c') < length (pending c)"
proof (induction c rule: skip_to_frame.induct)
  case (1 c)
  obtain r c1 where r: "ReadFull 1 c = (r, c1)" by fastforce
  show ?case
  proof (cases r)
    case (Ok buf)
    have less: "length (pending c1) < length (pending c)" using ReadFull_1_pending [OF r [unfolded Ok]] by auto
    show ?thesis
    proof (cases "buf ! 0 = frameByte")
      case True
      then show ?thesis using "1.prems" less by (simp add: skip_to_frame.simps [of c] r Ok del: One_nat_def)
    next
      case False
      then have "skip_to_frame c1 = (Ok (), c')" using "1.prems" by (simp add: skip_to_frame.simps [of c] r Ok del: One_nat_def)
      with "1.IH" [OF r [symmetric] Ok False] less show ?thesis by simp
    qed
  qed (use "1.prems" r in \<open>simp_all add: skip_to_frame.simps [of c] del: One_nat_def\<close>)
qed

lemma read_escaped_consumes:
  "read_escaped acc c = (Ok e, c') \<Longrightarrow> length (pending c') < length (pending c)"
proof (induction acc c rule: read_escaped.induct)
  case (1 acc c)
  obtain r c1 where r: "ReadFull 1 c = (r, c1)" by fastforce
  show ?case
  proof (cases r)
    case (Ok buf)
    have less: "length (pending c1) < length (pending c)" using ReadFull_1_pending [OF r [unfolded Ok]] by auto
    show ?thesis
    proof (cases "buf ! 0 = frameByte")
      case True
      then show ?thesis using "1.prems" less by (simp add: read_escaped.simps [of _ c] r Ok del: One_nat_def)
    next
      case False
      then have "read_escaped (acc @ [buf ! 0]) c1 = (Ok e, c')"
        using "1.prems" by (simp add: read_escaped.simps [of _ c] r Ok del: One_nat_def)
      with "1.IH" [OF r [symmetric] Ok False] less show ?thesis by simp
    qed
  qed (use "1.prems" r in \<open>simp_all add: read_escaped.simps [of _ c] del: One_nat_def\<close>)
qed

interpretation jt808: consuming "jt808_handler now"
proof
  fix c c' :: conn and x
  assume "ParsePacket (jt808_handler now) c = (Ok x, c')"
  then obtain pkt c1 where r: "readFrame c = (Ok pkt, c1)" and same: "pending c' = pending c1"
    by (auto simp: jt808_handler_def jt808_ParsePacket_def ret_io_def lift_io_def write_discard_def
        elim!: bind_io_OkE split: if_splits)
  from r obtain c2 e where "skip_to_frame c = (Ok (), c2)" "read_escaped [] c2 = (Ok e, c1)"
    by (auto simp: readFrame_def lift_io_def elim!: bind_io_OkE)
  with skip_to_frame_consumes [of c c2] read_escaped_consumes [of "[]" c2 e c1] same
  show "length (pending c') < length (pending c)" by simp
qed

text \<open>
  C33: the parse loop of a connection needs no cancellation to end: with every handler that
  the service serves it stops after at most as many iterations as there are bytes on the
  connection, and its outcome does not depend on when a later cancellation would come.
\<close>

theorem parse_loop_terminates:
  assumes "ph \<in> set (main_handlers cfg impl now)" "length (pending c) < budget"
  shows "fst (parse_loop (port_handler ph) d budget c) \<noteq> CtxDone \<and>
    parse_loop (port_handler ph) d (budget + k) c = parse_loop (port_handler ph) d budget c"
proof -
  have more: "length (pending c) < budget + k" using assms(2) by simp
  from assms(1) consider "port_handler ph = gt06_handler" | "port_handler ph = tk103_handler impl now"
    | "port_handler ph = jt808_handler now" | "port_handler ph = ais140_handler impl now"
    | "port_handler ph = teltonika_handler" by (auto simp: main_handlers_def)
  then show ?thesis
    by cases (simp_all only: gt06.loop_ends tk103.loop_ends jt808.loop_ends ais140.loop_ends teltonika.loop_ends
      gt06.loop_budget_irrelevant [OF more assms(2)] tk103.loop_budget_irrelevant [OF more assms(2)]
      jt808.loop_budget_irrelevant [OF more assms(2)] ais140.loop_budget_irrelevant [OF more assms(2)]
      teltonika.loop_budget_irrelevant [OF more assms(2)] assms(2) not_False_eq_True simp_thms)
qed

theorem parse_loop_terminates_witness:
  "fst (parse_loop gt06_handler ''dev'' 4 (sample_conn [0x78, 0x78, 0x05])) \<noteq> CtxDone"
  using parse_loop_terminates [of "\<lparr>port = 5001, port_handler = gt06_handler\<rparr>" "Load (\<lambda>_. [])" "\<lambda>_. 0" 0
      "sample_conn [0x78, 0x78, 0x05]" 4 "''dev''" 0]
  by (simp add: main_handlers_def Load_def envInt_unset)

section \<open>Which connections can crash the service\<close>

interpretation teltonika: panic_free teltonika_handler
  by unfold_locales (simp_all add: teltonika_handler_def teltonika_never_panics)

interpretation jt808: panic_free "jt808_handler now"
  by unfold_locales (simp_all add: jt808_handler_def jt808_never_panics)

interpretation tk103: panic_free "tk103_handler impl now"
  by unfold_locales (simp_all add: tk103_handler_def tk103_never_panics)

interpretation ais140: panic_free "ais140_handler impl now"
  by unfold_locales (simp_all add: ais140_handler_def ais140_never_panics)

text \<open>
  C20: whatever a peer sends and however the connection ends, a connection can crash the
  service (an unrecovered panic in its goroutine) only on the port of the GT06 handler: no
  login and no data on the TK103, JT/T 808, AIS 140 or Teltonika ports does.
\<close>

theorem only_gt06_connections_crash:
  assumes "ph \<in> set (main_handlers cfg impl now)" "fst (handleConn (port_handler ph) budget c) = Crashed"
  shows "port_handler ph = gt06_handler \<and> port ph = PortGT06 cfg"
  using assms teltonika.never_crashes jt808.never_crashes tk103.never_crashes ais140.never_crashes
  by (auto simp: main_handlers_def)

lemma gt06_crash_example: "fst (handleConn gt06_handler 1 (sample_conn [0x78, 0x78, 0, 0x0D, 0x0A])) = Crashed"
proof -
  have "pending (sample_conn [0x78, 0x78, 0, 0x0D, 0x0A]) = [0x78, 0x78] @ [word_of_nat (length [])] @ [] @ [0x0D, 0x0A] @ []"
    by simp
  moreover have "gt06_check (word_of_nat (length [])) [] [0x0D, 0x0A] = Panic"
    by (simp add: gt06_check_panics_iff)
  ultimately obtain c' where "gt06_readPacket (sample_conn [0x78, 0x78, 0, 0x0D, 0x0A]) = (Panic, c')"
    using readPacket_on_frame [of "sample_conn [0x78, 0x78, 0, 0x0D, 0x0A]" "[]" "[0x0D, 0x0A]" "[]"] by auto
  then show ?thesis by (simp add: handleConn_def gt06_handler_def gt06_Authenticate_def bind_io_def wrap_io_def)
qed

theorem only_gt06_connections_crash_witness:
  "fst (handleConn gt06_handler 1 (sample_conn [0x78, 0x78, 0, 0x0D, 0x0A])) = Crashed \<and> PortGT06 (Load (\<lambda>_. [])) = 5001"
  using only_gt06_connections_crash [of "\<lparr>port = 5001, port_handler = gt06_handler\<rparr>" "Load (\<lambda>_. [])" "\<lambda>_. 0" 0 1] gt06_crash_example
  by (simp add: main_handlers_def Load_def envInt_unset)

section \<open>A Teltonika session\<close>

text \<open>A packet as the device means it: its codec and its records with generation times.\<close>

type_synonym tpacket = "codec \<times> (nat \<times> avl) list"

definition packet_bytes :: "tpacket \<Rightarrow> bytes" where
  "packet_bytes p = teltonika_frame (enc_payload (fst p) (snd p))"

definition wf_packet :: "tpacket \<Rightarrow> bool" where
  "wf_packet p \<longleftrightarrow> length (snd p) < 256 \<and> list_all (\<lambda>r. wf_avl (fst p = C8E) (snd r)) (snd p) \<and>
     length (enc_payload (fst p) (snd p)) \<le> 65536"

definition packet_records :: "string \<Rightarrow> tpacket \<Rightarrow> ParsedRecord list" where
  "packet_records imei p =
     map (\<lambda>r. (avl_record (fst p = C8E) (snd r))\<lparr>RawCodec := codec_id (fst p), DeviceID := imei\<rparr>) (snd p)"

definition session_calls :: "string \<Rightarrow> tpacket list \<Rightarrow> (string \<times> ParsedRecord list) list" where
  "session_calls imei pkts = map (\<lambda>p. (imei, packet_records imei p)) (filter (\<lambda>p. snd p \<noteq> []) pkts)"

lemma ParsePacket_at_end:
  assumes "pending c = []" "ending c = EOF"
  shows "\<exists>c'. teltonika_ParsePacket c = (Err (Wrapf ''teltonika: read preamble'' EOF, []), c') \<and> outp c' = outp c"
proof -
  have "fst (read_full 4 (inp c)) = []" using read_full_take [of 4 "inp c"] assms(1) by (simp add: pending_def)
  then have "ReadFull 4 c = (Err EOF, c\<lparr>inp := snd (read_full 4 (inp c))\<rparr>)"
    using assms(2) by (cases "read_full 4 (inp c)") (simp add: ReadFull_def)
  then have "read_uint 4 c = (Err EOF, c\<lparr>inp := snd (read_full 4 (inp c))\<rparr>)"
    by (simp add: read_uint_def bind_io_def)
  then show ?thesis by (simp add: teltonika_ParsePacket_def bind_wrap_Err [of "read_uint 4"])
qed

lemma parse_loop_packets:
  "pending c = concat (map packet_bytes pkts) \<Longrightarrow> ending c = EOF \<Longrightarrow> list_all wf_packet pkts \<Longrightarrow>
   length pkts < budget \<Longrightarrow>
   \<exists>c'. parse_loop teltonika_handler imei budget c = (ConnClosed, session_calls imei pkts, c') \<and> outp c' = outp c"
proof (induction pkts arbitrary: c budget)
  case Nil
  then obtain b where b: "budget = Suc b" by (cases budget) auto
  from ParsePacket_at_end [of c] Nil obtain c' where
    "teltonika_ParsePacket c = (Err (Wrapf ''teltonika: read preamble'' EOF, []), c')" "outp c' = outp c" by auto
  then show ?case by (simp add: b teltonika_handler_def isClosedOrEOF_wrap session_calls_def)
next
  case (Cons p pkts)
  then obtain b where b: "budget = Suc b" by (cases budget) auto
  have wf: "wf_packet p" "list_all wf_packet pkts" using Cons.prems(3) by auto
  have "pending c = teltonika_frame (enc_payload (fst p) (snd p)) @ concat (map packet_bytes pkts)"
    using Cons.prems(1) by (simp add: packet_bytes_def [of p])
  from ParsePacket_enc [OF this] wf(1) obtain c1 where
    r: "teltonika_ParsePacket c = (Ok (map (\<lambda>r. (avl_record (fst p = C8E) (snd r))\<lparr>RawCodec := codec_id (fst p)\<rparr>) (snd p),
         teltonika_frame (enc_payload (fst p) (snd p))), c1)" and
    c1: "pending c1 = concat (map packet_bytes pkts)" "outp c1 = outp c" "ending c1 = EOF"
    using Cons.prems(2) by (auto simp: wf_packet_def)
  from Cons.IH [OF c1(1,3) wf(2), of b] Cons.prems(4) c1(2) b obtain c' where
    "parse_loop teltonika_handler imei b c1 = (ConnClosed, session_calls imei pkts, c')" "outp c' = outp c" by auto
  with r show ?case
    by (simp add: b teltonika_handler_def session_calls_def packet_records_def comp_def)
qed

text \<open>
  C2: end to end, a Teltonika device that logs in, sends any number of well-formed packets
  in any segmentation and closes the connection is served completely: the callback
  receives exactly the records of the non-empty packets, in order and labelled with the
  device's IMEI, the device is registered under its IMEI, the connection is recognised as
  closed, and the only byte ever sent back is the login acknowledgement.
\<close>

theorem teltonika_session:
  assumes "pending c = put_be 2 (length imei) @ bytes_of imei @ concat (map packet_bytes pkts)"
    "15 \<le> length imei" "length imei \<le> 17" "list_all is_digit imei" "list_all wf_packet pkts"
    "wres c = []" "ending c = EOF" "length pkts < budget"
  shows "\<exists>c'. handleConn teltonika_handler budget c = (ConnClosed, Some imei, session_calls imei pkts, c') \<and>
     outp c' = outp c @ [1]"
proof -
  from Authenticate_on_login [OF assms(1-4,6)] assms(7) obtain c1 where
    c1: "teltonika_Authenticate c = (Ok imei, c1)" "pending c1 = concat (map packet_bytes pkts)"
      "outp c1 = outp c @ [1]" "ending c1 = EOF" by auto
  from parse_loop_packets [OF c1(2,4) assms(5,8), of imei] c1 obtain c' where
    "parse_loop teltonika_handler imei budget c1 = (ConnClosed, session_calls imei pkts, c')" "outp c' = outp c @ [1]"
    by auto
  moreover have "Authenticate teltonika_handler = teltonika_Authenticate" by (simp add: teltonika_handler_def)
  ultimately show ?thesis using c1(1) by (simp add: handleConn_def)
qed

theorem teltonika_session_witness:
  "\<exists>c'. handleConn teltonika_handler 2 (sample_conn (put_be 2 15 @ bytes_of ''352093081452246'' @
      packet_bytes (C8, [(0, sample_avl)]))) =
    (ConnClosed, Some ''352093081452246'',
     [(''352093081452246'', [(avl_record False sample_avl)\<lparr>RawCodec := 8, DeviceID := ''352093081452246''\<rparr>])], c')"
proof -
  let ?imei = "''352093081452246''" and ?pkts = "[(C8, [(0, sample_avl)])]"
  have len: "length ?imei = 15" by simp
  have p: "pending (sample_conn (put_be 2 15 @ bytes_of ?imei @ packet_bytes (C8, [(0, sample_avl)]))) =
    put_be 2 (length ?imei) @ bytes_of ?imei @ concat (map packet_bytes ?pkts)"
    by (simp only: pending_sample len list.map concat.simps append_Nil2)
  have wf: "list_all wf_packet ?pkts"
    by (simp add: wf_packet_def wf_avl_def wf_group_def sample_avl_def num_width_def enc_payload_def enc_timed_def
        enc_record_def enc_gps_def enc_io_def enc_group_def enc_elem_def)
  have dig: "list_all is_digit ?imei" by (simp add: is_digit_def)
  have calls: "session_calls ?imei ?pkts =
      [(?imei, [(avl_record False sample_avl)\<lparr>RawCodec := 8, DeviceID := ?imei\<rparr>])]"
    by (simp add: session_calls_def packet_records_def Codec8_def)
  have "ending (sample_conn b) = EOF" for b by (simp add: sample_conn_def)
  from teltonika_session [OF p _ _ dig wf wres_sample this, of 2] show ?thesis
    unfolding calls len by auto
qed

section \<open>Idempotency keys\<close>

text \<open>Reading back a printed number.\<close>

definition digits_value :: "string \<Rightarrow> nat" where
  "digits_value s = foldl (\<lambda>a ch. a * 10 + (of_char ch - 48)) 0 s"

lemma digits_value_fmt_nat: "digits_value (fmt_nat n) = n"
proof (induction n rule: fmt_nat.induct)
  case (1 n)
  show ?case
  proof (cases "n < 10")
    case True
    then show ?thesis by (simp add: fmt_nat.simps [of n] digits_value_def)
  next
    case False
    then show ?thesis using "1.IH" [OF False]
      by (simp add: fmt_nat.simps [of n] digits_value_def)
  qed
qed

lemma fmt_nat_digits: "list_all is_digit (fmt_nat n)"
proof (induction n rule: fmt_nat.induct)
  case (1 n)
  have dig: "is_digit (char_of (48 + m))" if "m < 10" for m :: nat using that by (simp add: is_digit_def)
  show ?case
  proof (cases "n < 10")
    case True
    then show ?thesis using dig by (simp add: fmt_nat.simps [of n])
  next
    case False
    then show ?thesis using "1.IH" [OF False] dig [of "n mod 10"] by (simp add: fmt_nat.simps [of n])
  qed
qed

lemma fmt_int_inj: "fmt_int a = fmt_int b \<Longrightarrow> a = b"
proof -
  assume eq: "fmt_int a = fmt_int b"
  have nd: "\<not> is_digit (CHR ''-'')" by (simp add: is_digit_def)
  have head: "fmt_nat n \<noteq> CHR ''-'' # s" for n s
  proof
    assume "fmt_nat n = CHR ''-'' # s"
    then show False using fmt_nat_digits [of n] nd by simp
  qed
  have inj: "fmt_nat m = fmt_nat n \<Longrightarrow> m = n" for m n by (metis digits_value_fmt_nat)
  show ?thesis
  proof (cases "a < 0"; cases "b < 0")
    assume "a < 0" "b < 0"
    then show ?thesis using eq inj [of "nat (- a)" "nat (- b)"] by (simp add: fmt_int_def)
  next
    assume "a < 0" "\<not> b < 0"
    then show ?thesis using eq head [of "nat b" "fmt_nat (nat (- a))"] by (simp add: fmt_int_def)
  next
    assume "\<not> a < 0" "b < 0"
    then show ?thesis using eq head [of "nat a"] by (simp add: fmt_int_def)
  next
    assume "\<not> a < 0" "\<not> b < 0"
    then show ?thesis using eq inj [of "nat a" "nat b"] by (simp add: fmt_int_def)
  qed
qed

text \<open>
  The idempotency key under which a record is published determines the device and the
  device timestamp: for numeric device ids two records get the same key exactly when they
  come from the same device with the same timestamp in milliseconds. Records of different
  devices never collide; two records of one device taken within a millisecond do.
\<close>

lemma message_id_identifies_record:
  assumes "list_all is_digit d" "list_all is_digit d'"
  shows "record_msgID d r = record_msgID d' r' \<longleftrightarrow> d = d' \<and> Timestamp r = Timestamp r'"
proof -
  have nd: "\<not> is_digit (CHR ''-'')" by (simp add: is_digit_def)
  have tw: "takeWhile is_digit (x @ CHR ''-'' # y) = x" if "list_all is_digit x" for x y
    using that nd by (induction x) auto
  have "d = d' \<and> fmt_int (Timestamp r) = fmt_int (Timestamp r')" if "record_msgID d r = record_msgID d' r'"
    using that tw [OF assms(1), of "fmt_int (Timestamp r)"] tw [OF assms(2), of "fmt_int (Timestamp r')"]
    by (simp add: record_msgID_def)
  then show ?thesis by (auto simp: record_msgID_def dest: fmt_int_inj)
qed

lemma message_id_identifies_record_witness:
  "record_msgID ''352093081452246'' zero_record \<noteq> record_msgID ''352093081452247'' zero_record"
  using message_id_identifies_record [of "''352093081452246''" "''352093081452247''" zero_record zero_record]
  by (simp add: is_digit_def)

end
