(* ===== verification/Stream_Processor.thy ===== *)
theory Stream_Processor
  imports Protocol Go_Float
begin

text \<open>
  The stream processor (\<open>stream-processor/\<close>): enrichment pipeline, trip state machine,
  alert evaluator, geofence check, the database and Redis writers and the message handler.
  PostgreSQL, Redis and JetStream are outside the program: each is an operation of the
  record \<open>services\<close>, over an arbitrary state, and a statement or command is a value with
  the arguments the code passes. The trace lists what was sent to them, in order.
\<close>

section \<open>The enriched record\<close>

record EnrichedRecord =
  er_DeviceID :: string
  er_TenantID :: string
  er_MessageID :: string
  er_Timestamp :: int
  er_ReceivedAt :: int
  er_Lat :: f64
  er_Lng :: f64
  er_Altitude :: int
  er_Speed :: u16
  er_Heading :: u16
  er_Satellites :: byte
  er_Valid :: bool
  er_Priority :: byte
  er_Ignition :: bool
  er_Movement :: bool
  er_ExternalVoltage :: f64
  er_BatteryVoltage :: f64
  er_BatteryLevel :: int
  er_GNSSStatus :: int
  er_GSMSignal :: int
  er_Speed_CAN :: int
  er_EngineRPM :: int
  er_FuelLevel :: int
  er_Temperature1 :: f64
  er_UserID :: string
  er_SOSEvent :: bool
  er_IOData :: iodata
  er_RawCodec :: byte

section \<open>What is sent out\<close>

text \<open>The statements, by their parameters.\<close>

datatype sql =
    SelectTenant string
  | InsertTrip string string int f64 f64
  | EndTrip int f64 f64 string
  | SelectGeofences string f64 f64
  | InsertAlert string string string string string f64 f64 u16 int
  | InsertAVL EnrichedRecord string
  | UpdateLastSeen int string

datatype redis_cmd = RGet string | RSet string string nat | RDel string | RPublish string string

datatype redis_reply = RNil | RVal string | RErr goerr

datatype effect =
    Sql sql
  | Redis redis_cmd
  | JsPublish string string string
  | Ack
  | Nak

record 'w services =
  sql_op :: "sql \<Rightarrow> 'w \<Rightarrow> (goerr + string list list) \<times> 'w"
  redis_op :: "redis_cmd \<Rightarrow> 'w \<Rightarrow> redis_reply \<times> 'w"
  js_op :: "string \<Rightarrow> string \<Rightarrow> string \<Rightarrow> 'w \<Rightarrow> (goerr, unit) outcome \<times> 'w"

record 'w sys =
  ext :: 'w
  trace :: "effect list"

definition run_sql :: "'w services \<Rightarrow> sql \<Rightarrow> 'w sys \<Rightarrow> (goerr + string list list) \<times> 'w sys" where
  "run_sql svc q s = (case sql_op svc q (ext s) of (r, w) \<Rightarrow> (r, \<lparr>ext = w, trace = trace s @ [Sql q]\<rparr>))"

definition run_redis :: "'w services \<Rightarrow> redis_cmd \<Rightarrow> 'w sys \<Rightarrow> redis_reply \<times> 'w sys" where
  "run_redis svc cmd s = (case redis_op svc cmd (ext s) of (r, w) \<Rightarrow> (r, \<lparr>ext = w, trace = trace s @ [Redis cmd]\<rparr>))"

definition run_publish :: "'w services \<Rightarrow> string \<Rightarrow> string \<Rightarrow> string \<Rightarrow> 'w sys \<Rightarrow> (goerr, unit) outcome \<times> 'w sys" where
  "run_publish svc subject mid data s =
     (case js_op svc subject mid data (ext s) of (r, w) \<Rightarrow> (r, \<lparr>ext = w, trace = trace s @ [JsPublish subject mid data]\<rparr>))"

definition emit :: "effect \<Rightarrow> 'w sys \<Rightarrow> 'w sys" where
  "emit e s = s\<lparr>trace := trace s @ [e]\<rparr>"

text \<open>\<open>QueryRow(...).Scan(&x)\<close>: the first column of the first row, or an error.\<close>

fun scan1 :: "goerr + string list list \<Rightarrow> goerr + string" where
  "scan1 (Inr ((x # cols) # rows)) = Inr x"
| "scan1 (Inr rows) = Inl (Errorf ''no rows in result set'')"
| "scan1 (Inl e) = Inl e"

section \<open>Trip state machine\<close>

definition StateIdle :: string where "StateIdle = ''IDLE''"
definition StateActive :: string where "StateActive = ''ACTIVE''"

definition stateKey :: "string \<Rightarrow> string" where
  "stateKey dev = ''gpsgo:tripstate:'' @ dev"

definition tripIdKey :: "string \<Rightarrow> string" where
  "tripIdKey dev = ''gpsgo:tripstate:'' @ dev @ '':tripid''"

text \<open>The state read: a missing key counts as idle, any other failure leaves it empty.\<close>

fun reply_state :: "redis_reply \<Rightarrow> string" where
  "reply_state RNil = StateIdle"
| "reply_state (RVal v) = v"
| "reply_state (RErr e) = []"

fun reply_text :: "redis_reply \<Rightarrow> string" where
  "reply_text (RVal v) = v"
| "reply_text RNil = []"
| "reply_text (RErr e) = []"

definition TripMachine_Process :: "'w services \<Rightarrow> EnrichedRecord \<Rightarrow> 'w sys \<Rightarrow> 'w sys" where
  "TripMachine_Process svc rec s =
     (case run_redis svc (RGet (stateKey (er_DeviceID rec))) s of (r, s1) \<Rightarrow>
      let state = reply_state r in
      if state = StateIdle \<and> 5 < er_Speed rec then
        (case run_sql svc (InsertTrip (er_TenantID rec) (er_DeviceID rec) (er_Timestamp rec) (er_Lat rec) (er_Lng rec)) s1 of
           (q, s2) \<Rightarrow>
             (case scan1 q of
                Inr newTripID \<Rightarrow>
                  snd (run_redis svc (RSet (tripIdKey (er_DeviceID rec)) newTripID 0)
                    (snd (run_redis svc (RSet (stateKey (er_DeviceID rec)) StateActive 0) s2)))
              | Inl err \<Rightarrow> s2))
      else if state = StateActive \<and> er_Speed rec < 2 then
        (case run_redis svc (RGet (tripIdKey (er_DeviceID rec))) s1 of (t, s2) \<Rightarrow>
         let tripID = reply_text t;
             s3 = (if tripID \<noteq> [] then snd (run_sql svc (EndTrip (er_Timestamp rec) (er_Lat rec) (er_Lng rec) tripID) s2) else s2)
         in snd (run_redis svc (RDel (tripIdKey (er_DeviceID rec)))
              (snd (run_redis svc (RSet (stateKey (er_DeviceID rec)) StateIdle 0) s3))))
      else s1)"

section \<open>Geofences and alerts\<close>

text \<open>Rows found are only logged.\<close>

definition GeofenceEngine_Check :: "'w services \<Rightarrow> EnrichedRecord \<Rightarrow> 'w sys \<Rightarrow> 'w sys" where
  "GeofenceEngine_Check svc rec s =
     snd (run_sql svc (SelectGeofences (er_TenantID rec) (er_Lng rec) (er_Lat rec)) s)"

definition alert_row :: "string \<Rightarrow> string \<Rightarrow> string \<Rightarrow> EnrichedRecord \<Rightarrow> sql" where
  "alert_row kind severity message rec =
     InsertAlert (er_TenantID rec) (er_DeviceID rec) kind severity message (er_Lat rec) (er_Lng rec) (er_Speed rec) (er_Timestamp rec)"

definition AlertEvaluator_Evaluate :: "'w services \<Rightarrow> EnrichedRecord \<Rightarrow> 'w sys \<Rightarrow> 'w sys" where
  "AlertEvaluator_Evaluate svc rec s =
     (let s1 = (if 120 < er_Speed rec
                then snd (run_sql svc (alert_row ''overspeed'' ''warning'' ''Vehicle exceeded 120km/h'' rec) s) else s)
      in if er_SOSEvent rec
         then snd (run_sql svc (alert_row ''sos'' ''critical'' ''SOS Button Pressed!'' rec) s1) else s1)"

section \<open>Pipeline\<close>

fun hex_digit :: "nat \<Rightarrow> char" where
  "hex_digit n = char_of (if n < 10 then 48 + n else 55 + n)"

fun fmt_hex_nat :: "nat \<Rightarrow> string" where
  "fmt_hex_nat n = (if n < 16 then [hex_digit n] else fmt_hex_nat (n div 16) @ [hex_digit (n mod 16)])"

declare fmt_hex_nat.simps [simp del]

text \<open>\<open>%X\<close> of a signed integer.\<close>

definition fmt_hex :: "int \<Rightarrow> string" where
  "fmt_hex i = (if i < 0 then ''-'' @ fmt_hex_nat (nat (- i)) else fmt_hex_nat (nat i))"

text \<open>Applies an update when the IO element is present.\<close>

definition on_io :: "int \<Rightarrow> (int \<Rightarrow> EnrichedRecord \<Rightarrow> EnrichedRecord) \<Rightarrow> EnrichedRecord \<Rightarrow> EnrichedRecord" where
  "on_io k f rec = (case er_IOData rec k of Some v \<Rightarrow> f v rec | None \<Rightarrow> rec)"

definition enrichIOFields :: "EnrichedRecord \<Rightarrow> EnrichedRecord" where
  "enrichIOFields rec0 =
     (let rec1 = (case er_IOData rec0 239 of
                    Some v \<Rightarrow> rec0\<lparr>er_Ignition := v = 1\<rparr>
                  | None \<Rightarrow> (case er_IOData rec0 1 of Some v \<Rightarrow> rec0\<lparr>er_Ignition := v = 1\<rparr> | None \<Rightarrow> rec0));
          rec2 = on_io 240 (\<lambda>v r. r\<lparr>er_Movement := v = 1\<rparr>) rec1;
          rec3 = on_io 66 (\<lambda>v r. r\<lparr>er_ExternalVoltage := f64_div_const (f64_of_int v) 1000\<rparr>) rec2;
          rec4 = on_io 67 (\<lambda>v r. r\<lparr>er_BatteryVoltage := f64_div_const (f64_of_int v) 1000\<rparr>) rec3;
          rec5 = on_io 113 (\<lambda>v r. r\<lparr>er_BatteryLevel := v\<rparr>) rec4;
          rec6 = on_io 69 (\<lambda>v r. r\<lparr>er_GNSSStatus := v\<rparr>) rec5;
          rec7 = on_io 21 (\<lambda>v r. r\<lparr>er_GSMSignal := v\<rparr>) rec6;
          rec8 = on_io 263 (\<lambda>v r. r\<lparr>er_EngineRPM := v\<rparr>) rec7;
          rec9 = on_io 327 (\<lambda>v r. r\<lparr>er_EngineRPM := v\<rparr>) rec8;
          rec10 = on_io 274 (\<lambda>v r. r\<lparr>er_FuelLevel := v\<rparr>) rec9;
          rec11 = on_io 72 (\<lambda>v r. r\<lparr>er_Temperature1 := f64_div_const (f64_of_int v) 10\<rparr>) rec10;
          rec12 = on_io 238 (\<lambda>v r. r\<lparr>er_UserID := fmt_hex v\<rparr>) rec11;
          rec13 = on_io 236 (\<lambda>v r. r\<lparr>er_SOSEvent := v = 1\<rparr>) rec12
      in on_io 320 (\<lambda>v r. r\<lparr>er_Speed_CAN := v\<rparr>) rec13)"

text \<open>The record before the enrichers run; \<open>now\<close> is the processor's clock.\<close>

definition initial_record :: "int \<Rightarrow> string \<Rightarrow> ParsedRecord \<Rightarrow> EnrichedRecord" where
  "initial_record now tenantID raw =
     \<lparr>er_DeviceID = DeviceID raw, er_TenantID = tenantID, er_MessageID = [],
      er_Timestamp = Timestamp raw, er_ReceivedAt = now, er_Lat = Lat raw, er_Lng = Lng raw,
      er_Altitude = Altitude raw, er_Speed = Speed raw, er_Heading = Heading raw,
      er_Satellites = Satellites raw, er_Valid = Valid raw, er_Priority = Priority raw,
      er_Ignition = False, er_Movement = False, er_ExternalVoltage = Fin 0, er_BatteryVoltage = Fin 0,
      er_BatteryLevel = 0, er_GNSSStatus = 0, er_GSMSignal = 0, er_Speed_CAN = 0, er_EngineRPM = 0,
      er_FuelLevel = 0, er_Temperature1 = Fin 0, er_UserID = [], er_SOSEvent = False,
      er_IOData = IOData raw, er_RawCodec = RawCodec raw\<rparr>"

text \<open>\<open>Pipeline.Process\<close>: tenant lookup, then the four enrichers in their order.\<close>

definition lookup_tenant :: "'w services \<Rightarrow> ParsedRecord \<Rightarrow> 'w sys \<Rightarrow> string \<times> 'w sys" where
  "lookup_tenant svc raw s =
     (if DeviceID raw \<noteq> [] then
        (case run_sql svc (SelectTenant (DeviceID raw)) s of (r, s1) \<Rightarrow>
           ((case scan1 r of Inr t \<Rightarrow> t | Inl err \<Rightarrow> []), s1))
      else ([], s))"

text \<open>An enricher updates the record in place and may talk to the services.\<close>

type_synonym 'w Enricher = "EnrichedRecord \<Rightarrow> 'w sys \<Rightarrow> EnrichedRecord \<times> 'w sys"

definition enrichTripState :: "'w services \<Rightarrow> 'w Enricher" where
  "enrichTripState svc rec s = (rec, TripMachine_Process svc rec s)"

definition enrichGeofence :: "'w services \<Rightarrow> 'w Enricher" where
  "enrichGeofence svc rec s = (rec, GeofenceEngine_Check svc rec s)"

definition enrichAlerts :: "'w services \<Rightarrow> 'w Enricher" where
  "enrichAlerts svc rec s = (rec, AlertEvaluator_Evaluate svc rec s)"

definition enrichers :: "'w services \<Rightarrow> 'w Enricher list" where
  "enrichers svc = [\<lambda>rec s. (enrichIOFields rec, s), enrichTripState svc, enrichGeofence svc, enrichAlerts svc]"

definition Pipeline_Process :: "'w services \<Rightarrow> int \<Rightarrow> ParsedRecord \<Rightarrow> 'w sys \<Rightarrow> EnrichedRecord \<times> 'w sys" where
  "Pipeline_Process svc now raw s =
     (case lookup_tenant svc raw s of (tenantID, s1) \<Rightarrow>
      foldl (\<lambda>(rec, s) enrich. enrich rec s) (initial_record now tenantID raw, s1) (enrichers svc))"

lemma Pipeline_Process_eq:
  "Pipeline_Process svc now raw s =
     (case lookup_tenant svc raw s of (tenantID, s1) \<Rightarrow>
      let rec = enrichIOFields (initial_record now tenantID raw)
      in (rec, AlertEvaluator_Evaluate svc rec (GeofenceEngine_Check svc rec (TripMachine_Process svc rec s1))))"
  by (simp add: Pipeline_Process_def enrichers_def enrichTripState_def enrichGeofence_def enrichAlerts_def Let_def split: prod.split)

section \<open>Writers\<close>

datatype jval = JStr string | JInt int | JFloat f64 | JBool bool

type_synonym json_marshal = "(string \<times> jval) list \<Rightarrow> string option"

definition KeyDeviceLive :: "string \<Rightarrow> string \<Rightarrow> string" where
  "KeyDeviceLive tenantID deviceID = ''device:live:'' @ tenantID @ '':'' @ deviceID"

definition KeyPubSubDevice :: "string \<Rightarrow> string" where
  "KeyPubSubDevice tenantID = ''pubsub:device:'' @ tenantID"

definition live_snapshot :: "EnrichedRecord \<Rightarrow> (string \<times> jval) list" where
  "live_snapshot rec =
     [(''device_id'', JStr (er_DeviceID rec)), (''tenant_id'', JStr (er_TenantID rec)),
      (''timestamp'', JInt (er_Timestamp rec)), (''lat'', JFloat (er_Lat rec)), (''lng'', JFloat (er_Lng rec)),
      (''altitude'', JInt (er_Altitude rec)), (''speed'', JInt (uint (er_Speed rec))),
      (''heading'', JInt (uint (er_Heading rec))), (''satellites'', JInt (uint (er_Satellites rec))),
      (''valid'', JBool (er_Valid rec)), (''ignition'', JBool (er_Ignition rec)),
      (''movement'', JBool (er_Movement rec)), (''external_voltage'', JFloat (er_ExternalVoltage rec)),
      (''battery_level'', JInt (er_BatteryLevel rec)), (''gsm_signal'', JInt (er_GSMSignal rec)),
      (''sos_event'', JBool (er_SOSEvent rec))]"

definition live_message :: "EnrichedRecord \<Rightarrow> (string \<times> jval) list" where
  "live_message rec =
     [(''type'', JStr ''position''), (''device_id'', JStr (er_DeviceID rec)),
      (''tenant_id'', JStr (er_TenantID rec)), (''timestamp'', JInt (er_Timestamp rec)),
      (''lat'', JFloat (er_Lat rec)), (''lng'', JFloat (er_Lng rec)), (''speed'', JInt (uint (er_Speed rec))),
      (''heading'', JInt (uint (er_Heading rec))), (''ignition'', JBool (er_Ignition rec)),
      (''sos_event'', JBool (er_SOSEvent rec))]"

fun reply_err :: "redis_reply \<Rightarrow> (goerr, unit) outcome" where
  "reply_err (RErr e) = Err e"
| "reply_err r = Ok ()"

definition UpdateLive :: "'w services \<Rightarrow> json_marshal \<Rightarrow> EnrichedRecord \<Rightarrow> 'w sys \<Rightarrow> (goerr, unit) outcome \<times> 'w sys" where
  "UpdateLive svc marshal rec s =
     (case marshal (live_snapshot rec) of
        None \<Rightarrow> (Err (Errorf ''marshal live snapshot''), s)
      | Some data \<Rightarrow>
          (case run_redis svc (RSet (KeyDeviceLive (er_TenantID rec) (er_DeviceID rec)) data 60) s of
             (r, s1) \<Rightarrow> (reply_err r, s1)))"

definition PublishLive :: "'w services \<Rightarrow> json_marshal \<Rightarrow> EnrichedRecord \<Rightarrow> 'w sys \<Rightarrow> (goerr, unit) outcome \<times> 'w sys" where
  "PublishLive svc marshal rec s =
     (case marshal (live_message rec) of
        None \<Rightarrow> (Err (Errorf ''marshal pubsub message''), s)
      | Some data \<Rightarrow>
          (case run_redis svc (RPublish (KeyPubSubDevice (er_TenantID rec)) data) s of
             (r, s1) \<Rightarrow> (reply_err r, s1)))"

text \<open>\<open>io_json\<close> is the marshalled IO map; the second statement's failure is only logged.\<close>

definition TimescaleWriter_Write :: "'w services \<Rightarrow> (iodata \<Rightarrow> string) \<Rightarrow> EnrichedRecord \<Rightarrow> 'w sys \<Rightarrow> (goerr + unit) \<times> 'w sys" where
  "TimescaleWriter_Write svc io_json rec s =
     (case run_sql svc (InsertAVL rec (io_json (er_IOData rec))) s of
        (Inr rows, s1) \<Rightarrow> (Inr (), snd (run_sql svc (UpdateLastSeen (er_Timestamp rec) (er_DeviceID rec)) s1))
      | (Inl e, s1) \<Rightarrow> (Inl (Wrapf ''avl_records insert'' e), s1))"

section \<open>Messages\<close>

definition SubjectEnrichedAVL :: string where
  "SubjectEnrichedAVL = ''gpsgo.avl.enriched''"

text \<open>The serialisers the handler uses (\<open>encoding/json\<close> on the three shapes).\<close>

record codecs =
  unmarshal_raw :: "string \<Rightarrow> ParsedRecord option"
  marshal_enriched :: "EnrichedRecord \<Rightarrow> string option"
  marshal_map :: json_marshal
  marshal_io :: "iodata \<Rightarrow> string"

definition enriched_msgID :: "EnrichedRecord \<Rightarrow> string" where
  "enriched_msgID rec = er_DeviceID rec @ ''-'' @ fmt_int (er_Timestamp rec) @ ''-enriched''"

definition processMessage :: "'w services \<Rightarrow> codecs \<Rightarrow> int \<Rightarrow> string \<Rightarrow> 'w sys \<Rightarrow> 'w sys" where
  "processMessage svc cd now data s =
     (case unmarshal_raw cd data of
        None \<Rightarrow> emit Ack s
      | Some raw \<Rightarrow>
          (case Pipeline_Process svc now raw s of (rec, s1) \<Rightarrow>
           if er_TenantID rec = [] then emit Ack s1
           else (case TimescaleWriter_Write svc (marshal_io cd) rec s1 of
                   (Inr u, s2) \<Rightarrow>
                     (let s3 = snd (UpdateLive svc (marshal_map cd) rec s2);
                          s4 = (case marshal_enriched cd rec of
                                  Some d \<Rightarrow> snd (run_publish svc SubjectEnrichedAVL (enriched_msgID rec) d s3)
                                | None \<Rightarrow> s3);
                          s5 = snd (PublishLive svc (marshal_map cd) rec s4)
                      in emit Ack s5)
                 | (Inl err, s2) \<Rightarrow> emit Nak s2)))"

section \<open>Traces only grow\<close>

definition is_answer :: "effect \<Rightarrow> bool" where
  "is_answer e \<longleftrightarrow> e = Ack \<or> e = Nak"

text \<open>The effects added between two states, none of them an answer to the broker.\<close>

definition extends :: "'w sys \<Rightarrow> 'w sys \<Rightarrow> bool" where
  "extends s s' \<longleftrightarrow> (\<exists>es. trace s' = trace s @ es \<and> list_all (\<lambda>e. \<not> is_answer e) es)"

lemma extends_refl [simp]: "extends s s"
  by (simp add: extends_def)

lemma extends_trans: "extends s t \<Longrightarrow> extends t u \<Longrightarrow> extends s u"
  by (auto simp: extends_def)

lemma trace_run_sql [simp]: "trace (snd (run_sql svc q s)) = trace s @ [Sql q]"
  by (simp add: run_sql_def split: prod.splits)

lemma run_sql_trace: "run_sql svc q s = (r, s') \<Longrightarrow> trace s' = trace s @ [Sql q]"
  by (metis snd_conv trace_run_sql)

lemma trace_run_redis [simp]: "trace (snd (run_redis svc q s)) = trace s @ [Redis q]"
  by (simp add: run_redis_def split: prod.splits)

lemma trace_run_publish [simp]: "trace (snd (run_publish svc a b c s)) = trace s @ [JsPublish a b c]"
  by (simp add: run_publish_def split: prod.splits)

lemma extends_ops:
  "extends s t \<Longrightarrow> extends s (snd (run_sql svc q t))"
  "extends s t \<Longrightarrow> extends s (snd (run_redis svc cmd t))"
  "extends s t \<Longrightarrow> extends s (snd (run_publish svc a b c t))"
  by (auto simp: extends_def is_answer_def)

lemma extends_TripMachine: "extends s (TripMachine_Process svc rec s)"
  unfolding TripMachine_Process_def
  by (auto simp: case_prod_unfold Let_def intro!: extends_ops split: sum.splits)

lemma extends_pipeline: "extends s (snd (Pipeline_Process svc now raw s))"
proof -
  have l: "extends s (snd (lookup_tenant svc raw s))"
    by (auto simp: lookup_tenant_def case_prod_unfold intro!: extends_ops)
  show ?thesis
    unfolding Pipeline_Process_eq AlertEvaluator_Evaluate_def GeofenceEngine_Check_def
    by (auto simp: case_prod_unfold Let_def intro!: extends_ops extends_trans [OF l extends_TripMachine])
qed

lemma trace_write:
  "TimescaleWriter_Write svc io rec s = (r, s') \<Longrightarrow>
   trace s' = trace s @ [Sql (InsertAVL rec (io (er_IOData rec)))] @
     (if r = Inr () then [Sql (UpdateLastSeen (er_Timestamp rec) (er_DeviceID rec))] else [])"
  by (auto simp: TimescaleWriter_Write_def dest!: run_sql_trace split: prod.splits sum.splits)

lemma trace_UpdateLive:
  "trace (snd (UpdateLive svc m rec s)) = trace s @
   (case m (live_snapshot rec) of None \<Rightarrow> []
    | Some d \<Rightarrow> [Redis (RSet (KeyDeviceLive (er_TenantID rec) (er_DeviceID rec)) d 60)])"
  by (simp add: UpdateLive_def case_prod_unfold split: option.splits)

lemma trace_PublishLive:
  "trace (snd (PublishLive svc m rec s)) = trace s @
   (case m (live_message rec) of None \<Rightarrow> [] | Some d \<Rightarrow> [Redis (RPublish (KeyPubSubDevice (er_TenantID rec)) d)])"
  by (simp add: PublishLive_def case_prod_unfold split: option.splits)

lemma trace_emit [simp]: "trace (emit e s) = trace s @ [e]"
  by (simp add: emit_def)

text \<open>What is sent after the pipeline for a record that was stored.\<close>

definition stored_effects :: "codecs \<Rightarrow> EnrichedRecord \<Rightarrow> effect list" where
  "stored_effects cd rec =
     [Sql (InsertAVL rec (marshal_io cd (er_IOData rec))), Sql (UpdateLastSeen (er_Timestamp rec) (er_DeviceID rec))] @
     (case marshal_map cd (live_snapshot rec) of None \<Rightarrow> []
      | Some d \<Rightarrow> [Redis (RSet (KeyDeviceLive (er_TenantID rec) (er_DeviceID rec)) d 60)]) @
     (case marshal_enriched cd rec of None \<Rightarrow> [] | Some d \<Rightarrow> [JsPublish SubjectEnrichedAVL (enriched_msgID rec) d]) @
     (case marshal_map cd (live_message rec) of None \<Rightarrow> []
      | Some d \<Rightarrow> [Redis (RPublish (KeyPubSubDevice (er_TenantID rec)) d)])"

lemma processMessage_cases:
  assumes "unmarshal_raw cd data = Some raw" "Pipeline_Process svc now raw s = (rec, s1)"
  shows "trace (processMessage svc cd now data s) = trace s1 @
    (if er_TenantID rec = [] then [Ack]
     else if fst (TimescaleWriter_Write svc (marshal_io cd) rec s1) = Inr () then stored_effects cd rec @ [Ack]
     else [Sql (InsertAVL rec (marshal_io cd (er_IOData rec))), Nak])"
proof (cases "er_TenantID rec = []")
  case True
  then show ?thesis using assms by (simp add: processMessage_def)
next
  case False
  obtain r s2 where w: "TimescaleWriter_Write svc (marshal_io cd) rec s1 = (r, s2)" by fastforce
  note t = trace_write [OF w]
  show ?thesis
  proof (cases r)
    case (Inr u)
    show ?thesis using False t
      by (simp add: processMessage_def assms w Inr Let_def trace_PublishLive stored_effects_def)
        (simp add: trace_UpdateLive split: option.splits)
  qed (use False t in \<open>simp_all add: processMessage_def assms w\<close>)
qed

text \<open>
  Every message taken from the broker is answered exactly once, and the answer is the
  last thing the processor does with it.
\<close>

lemma message_answered_once:
  "\<exists>es a. trace (processMessage svc cd now data s) = trace s @ es @ [a] \<and> a \<in> {Ack, Nak} \<and>
     list_all (\<lambda>e. e \<noteq> Ack \<and> e \<noteq> Nak) es"
proof (cases "unmarshal_raw cd data")
  case None
  then show ?thesis by (simp add: processMessage_def)
next
  case (Some raw)
  obtain rec s1 where p: "Pipeline_Process svc now raw s = (rec, s1)" by fastforce
  with extends_pipeline [of s svc now raw] obtain es where
    es: "trace s1 = trace s @ es" "list_all (\<lambda>e. e \<noteq> Ack \<and> e \<noteq> Nak) es"
    by (auto simp: extends_def is_answer_def)
  have "list_all (\<lambda>e. e \<noteq> Ack \<and> e \<noteq> Nak) (stored_effects cd rec)"
    by (auto simp: stored_effects_def split: option.splits)
  then show ?thesis using processMessage_cases [OF Some p] es
    by (cases "er_TenantID rec = []"; cases "fst (TimescaleWriter_Write svc (marshal_io cd) rec s1) = Inr ()") auto
qed

text \<open>
  C10: a record of a known device is acknowledged exactly when it was stored, and the live
  position, the enriched event and the publication to the tenant's channel are sent after
  the record was stored and only then; when storing fails the message is given back to
  the broker and nothing is published.
\<close>

theorem nothing_published_before_stored:
  assumes "unmarshal_raw cd data = Some raw" "Pipeline_Process svc now raw s = (rec, s1)" "er_TenantID rec \<noteq> []"
  shows "trace (processMessage svc cd now data s) = trace s1 @
    (if \<exists>rows. fst (run_sql svc (InsertAVL rec (marshal_io cd (er_IOData rec))) s1) = Inr rows
     then stored_effects cd rec @ [Ack]
     else [Sql (InsertAVL rec (marshal_io cd (er_IOData rec))), Nak])"
proof -
  have "fst (TimescaleWriter_Write svc (marshal_io cd) rec s1) = Inr () \<longleftrightarrow>
    (\<exists>rows. fst (run_sql svc (InsertAVL rec (marshal_io cd (er_IOData rec))) s1) = Inr rows)"
    by (auto simp: TimescaleWriter_Write_def split: prod.splits sum.splits)
  then show ?thesis using processMessage_cases [OF assms(1,2)] assms(3) by simp
qed

section \<open>A working set of services\<close>

text \<open>
  What the code relies on of Redis, as documented: a key holds the value last set, until it
  is deleted; other commands and the database leave it alone. \<open>kv\<close> reads the keys off the
  state of the services.
\<close>

definition redis_view :: "'w services \<Rightarrow> ('w \<Rightarrow> string \<rightharpoonup> string) \<Rightarrow> bool" where
  "redis_view svc kv \<longleftrightarrow>
     (\<forall>k w. fst (redis_op svc (RGet k) w) = (case kv w k of Some v \<Rightarrow> RVal v | None \<Rightarrow> RNil) \<and>
            kv (snd (redis_op svc (RGet k) w)) = kv w) \<and>
     (\<forall>k v ttl w. kv (snd (redis_op svc (RSet k v ttl) w)) = (kv w)(k \<mapsto> v)) \<and>
     (\<forall>k w. kv (snd (redis_op svc (RDel k) w)) = (kv w)(k := None)) \<and>
     (\<forall>q w. kv (snd (sql_op svc q w)) = kv w)"

text \<open>Inserting a trip returns an id, which is not empty, or fails.\<close>

definition trip_ids :: "'w services \<Rightarrow> bool" where
  "trip_ids svc \<longleftrightarrow> (\<forall>t d ts la lo w x. scan1 (fst (sql_op svc (InsertTrip t d ts la lo) w)) = Inr x \<longrightarrow> x \<noteq> [])"

text \<open>Such services exist: keys in a map, a database that accepts everything.\<close>

definition sample_services :: "(string \<rightharpoonup> string) services" where
  "sample_services =
     \<lparr>sql_op = (\<lambda>q w. (case q of InsertTrip t d ts la lo \<Rightarrow> Inr [[''trip-1'']]
                        | SelectTenant d \<Rightarrow> (if d = ''known'' then Inr [[''tenant-a'']] else Inr []) | _ \<Rightarrow> Inr [], w)),
      redis_op = (\<lambda>cmd w. (case cmd of
          RGet k \<Rightarrow> ((case w k of Some v \<Rightarrow> RVal v | None \<Rightarrow> RNil), w)
        | RSet k v ttl \<Rightarrow> (RNil, w(k \<mapsto> v))
        | RDel k \<Rightarrow> (RNil, w(k := None))
        | RPublish ch v \<Rightarrow> (RNil, w))),
      js_op = (\<lambda>a b c w. (Ok (), w))\<rparr>"

lemma sample_services_ok: "redis_view sample_services (\<lambda>w. w)" "trip_ids sample_services"
  by (auto simp: redis_view_def trip_ids_def sample_services_def)

lemma kv_run:
  assumes "redis_view svc kv"
  shows "fst (run_redis svc (RGet k) s) = (case kv (ext s) k of Some v \<Rightarrow> RVal v | None \<Rightarrow> RNil)"
    "kv (ext (snd (run_redis svc (RGet k) s))) = kv (ext s)"
    "kv (ext (snd (run_redis svc (RSet k v ttl) s))) = (kv (ext s))(k \<mapsto> v)"
    "kv (ext (snd (run_redis svc (RDel k) s))) = (kv (ext s))(k := None)"
    "kv (ext (snd (run_sql svc q s))) = kv (ext s)"
  using assms by (auto simp: redis_view_def run_redis_def run_sql_def case_prod_unfold)

section \<open>Trips\<close>

text \<open>
  The specification: a device is idle or in a trip with an id. A record may start a trip
  (its insertion may fail), end the current one, or leave things as they are; the output is
  the statements on the trips table.
\<close>

datatype trip = Idle | InTrip string

inductive trip_step :: "trip \<Rightarrow> EnrichedRecord \<Rightarrow> sql list \<Rightarrow> trip \<Rightarrow> bool" where
  start: "5 < er_Speed rec \<Longrightarrow> tid \<noteq> [] \<Longrightarrow> trip_step Idle rec
     [InsertTrip (er_TenantID rec) (er_DeviceID rec) (er_Timestamp rec) (er_Lat rec) (er_Lng rec)] (InTrip tid)"
| start_failed: "5 < er_Speed rec \<Longrightarrow> trip_step Idle rec
     [InsertTrip (er_TenantID rec) (er_DeviceID rec) (er_Timestamp rec) (er_Lat rec) (er_Lng rec)] Idle"
| parked: "\<not> 5 < er_Speed rec \<Longrightarrow> trip_step Idle rec [] Idle"
| stop: "er_Speed rec < 2 \<Longrightarrow> trip_step (InTrip tid) rec
     [EndTrip (er_Timestamp rec) (er_Lat rec) (er_Lng rec) tid] Idle"
| driving: "\<not> er_Speed rec < 2 \<Longrightarrow> trip_step (InTrip tid) rec [] (InTrip tid)"

inductive trip_run :: "trip \<Rightarrow> EnrichedRecord list \<Rightarrow> sql list \<Rightarrow> trip \<Rightarrow> bool" where
  none_left: "trip_run t [] [] t"
| more: "trip_step t rec out1 t1 \<Longrightarrow> trip_run t1 recs out2 t2 \<Longrightarrow> trip_run t (rec # recs) (out1 @ out2) t2"

text \<open>How the keys of a device represent its state.\<close>

fun represents :: "(string \<rightharpoonup> string) \<Rightarrow> string \<Rightarrow> trip \<Rightarrow> bool" where
  "represents m d Idle \<longleftrightarrow> m (stateKey d) = None \<or> m (stateKey d) = Some StateIdle"
| "represents m d (InTrip tid) \<longleftrightarrow> m (stateKey d) = Some StateActive \<and> m (tripIdKey d) = Some tid \<and> tid \<noteq> []"

definition trip_sqls :: "effect list \<Rightarrow> sql list" where
  "trip_sqls es = concat (map (\<lambda>e. case e of Sql q \<Rightarrow>
     (case q of InsertTrip t d ts la lo \<Rightarrow> [q] | EndTrip ts la lo i \<Rightarrow> [q] | _ \<Rightarrow> []) | _ \<Rightarrow> []) es)"

lemma keys_differ [simp]: "stateKey d \<noteq> tripIdKey d" "tripIdKey d \<noteq> stateKey d"
  by (auto simp: stateKey_def tripIdKey_def)

lemma states_differ [simp]: "StateIdle \<noteq> StateActive" "StateActive \<noteq> StateIdle"
  by (auto simp: StateIdle_def StateActive_def)

lemma trip_step_refines:
  assumes kv: "redis_view svc kv" and ids: "trip_ids svc" and rep: "represents (kv (ext s)) (er_DeviceID rec) t"
  shows "\<exists>t' out es. trip_step t rec out t' \<and> represents (kv (ext (TripMachine_Process svc rec s))) (er_DeviceID rec) t' \<and>
     trace (TripMachine_Process svc rec s) = trace s @ es \<and> trip_sqls es = out"
proof (cases t)
  case Idle
  let ?s1 = "snd (run_redis svc (RGet (stateKey (er_DeviceID rec))) s)"
  let ?q = "InsertTrip (er_TenantID rec) (er_DeviceID rec) (er_Timestamp rec) (er_Lat rec) (er_Lng rec)"
  have st: "reply_state (fst (run_redis svc (RGet (stateKey (er_DeviceID rec))) s)) = StateIdle"
    using rep Idle by (auto simp: kv_run [OF kv])
  show ?thesis
  proof (cases "5 < er_Speed rec")
    case False
    then have "TripMachine_Process svc rec s = ?s1" by (simp add: TripMachine_Process_def case_prod_unfold st Let_def)
    moreover have "trip_step t rec [] Idle" using False Idle by (simp add: trip_step.parked)
    ultimately show ?thesis using rep Idle
      by (intro exI [of _ Idle] exI [of _ "[]"] exI [of _ "[Redis (RGet (stateKey (er_DeviceID rec)))]"])
        (simp add: kv_run [OF kv] trip_sqls_def)
  next
    case fast: True
    let ?s2 = "snd (run_sql svc ?q ?s1)"
    show ?thesis
    proof (cases "scan1 (fst (run_sql svc ?q ?s1))")
      case (Inr tid)
      have "tid \<noteq> []" using ids Inr by (auto simp: trip_ids_def run_sql_def case_prod_unfold)
      moreover have "TripMachine_Process svc rec s = snd (run_redis svc (RSet (tripIdKey (er_DeviceID rec)) tid 0)
          (snd (run_redis svc (RSet (stateKey (er_DeviceID rec)) StateActive 0) ?s2)))"
        using fast Inr by (simp add: TripMachine_Process_def case_prod_unfold st Let_def)
      ultimately show ?thesis using Idle fast
        by (intro exI [of _ "InTrip tid"] exI [of _ "[?q]"])
          (simp add: kv_run [OF kv] trip_sqls_def trip_step.start)
    next
      case (Inl e)
      then have "TripMachine_Process svc rec s = ?s2"
        using fast by (simp add: TripMachine_Process_def case_prod_unfold st Let_def)
      then show ?thesis using rep Idle fast
        by (intro exI [of _ Idle] exI [of _ "[?q]"]) (simp add: kv_run [OF kv] trip_sqls_def trip_step.start_failed)
    qed
  qed
next
  case (InTrip tid)
  have ne: "tid \<noteq> []"
    using rep InTrip by (auto simp: kv_run [OF kv])
  show ?thesis
  proof (cases "er_Speed rec < 2")
    case False
    then show ?thesis using rep InTrip
      by (intro exI [of _ "InTrip tid"] exI [of _ "[]"] exI [of _ "[Redis (RGet (stateKey (er_DeviceID rec)))]"])
        (simp add: TripMachine_Process_def case_prod_unfold Let_def kv_run [OF kv] trip_sqls_def trip_step.driving)
  next
    case True
    then show ?thesis using rep InTrip ne
      by (intro exI [of _ Idle] exI [of _ "[EndTrip (er_Timestamp rec) (er_Lat rec) (er_Lng rec) tid]"])
        (simp add: TripMachine_Process_def case_prod_unfold Let_def kv_run [OF kv] trip_sqls_def trip_step.stop)
  qed
qed

lemma trip_sqls_append: "trip_sqls (xs @ ys) = trip_sqls xs @ trip_sqls ys"
  by (simp add: trip_sqls_def)

text \<open>
  Over any sequence of records of one device, with a Redis that keeps what it is given
  and a database whose statements may fail at any time, the trip machine is the two-state
  machine of the specification: the statements it issues on the trips table are those of a
  run in which a trip is started above 5 km/h while idle, ended below 2 km/h with the id it
  was started with, and left alone otherwise, and the keys represent the state reached.
\<close>

lemma trip_machine_refines:
  assumes "redis_view svc kv" "trip_ids svc" "represents (kv (ext s)) d t" "list_all (\<lambda>r. er_DeviceID r = d) recs"
  shows "\<exists>t' out es. trip_run t recs out t' \<and>
     represents (kv (ext (foldl (\<lambda>s r. TripMachine_Process svc r s) s recs))) d t' \<and>
     trace (foldl (\<lambda>s r. TripMachine_Process svc r s) s recs) = trace s @ es \<and> trip_sqls es = out"
  using assms(3,4)
proof (induction recs arbitrary: s t)
  case Nil
  then show ?case by (auto intro: trip_run.none_left simp: trip_sqls_def)
next
  case (Cons r recs)
  let ?s1 = "TripMachine_Process svc r s"
  from trip_step_refines [OF assms(1,2), of s r t] Cons.prems obtain t1 out1 es1 where
    st: "trip_step t r out1 t1" "represents (kv (ext ?s1)) d t1" "trace ?s1 = trace s @ es1" "trip_sqls es1 = out1"
    by auto
  from Cons.IH [OF st(2)] Cons.prems(2) obtain t' out2 es2 where
    "trip_run t1 recs out2 t'" "represents (kv (ext (foldl (\<lambda>s r. TripMachine_Process svc r s) ?s1 recs))) d t'"
    "trace (foldl (\<lambda>s r. TripMachine_Process svc r s) ?s1 recs) = trace ?s1 @ es2" "trip_sqls es2 = out2" by auto
  with st show ?case
    by (intro exI [of _ t'] exI [of _ "out1 @ out2"] exI [of _ "es1 @ es2"])
      (auto intro: trip_run.more simp: trip_sqls_append)
qed

definition sample_rec :: "u16 \<Rightarrow> EnrichedRecord" where
  "sample_rec v = (initial_record 0 ''tenant-a'' (zero_record\<lparr>DeviceID := ''known'', Speed := v\<rparr>))"

lemma trip_machine_refines_witness:
  "\<exists>t' out. trip_run Idle [sample_rec 40, sample_rec 0] out t' \<and>
     represents (ext (foldl (\<lambda>s r. TripMachine_Process sample_services r s) \<lparr>ext = Map.empty, trace = []\<rparr>
       [sample_rec 40, sample_rec 0])) ''known'' t'"
proof -
  let ?s = "\<lparr>ext = Map.empty :: string \<rightharpoonup> string, trace = []\<rparr>"
  have "represents (ext ?s) ''known'' Idle" by simp
  moreover have "list_all (\<lambda>r. er_DeviceID r = ''known'') [sample_rec 40, sample_rec 0]"
    by (simp add: sample_rec_def initial_record_def)
  ultimately show ?thesis
    using trip_machine_refines [OF sample_services_ok, of ?s "''known''" Idle "[sample_rec 40, sample_rec 0]"] by blast
qed

section \<open>Unknown devices\<close>

lemma rec_of_pipeline:
  "fst (Pipeline_Process svc now raw s) = enrichIOFields (initial_record now (fst (lookup_tenant svc raw s)) raw)"
  by (simp add: Pipeline_Process_eq case_prod_unfold Let_def)

lemma on_io_keeps [simp]:
  "(\<And>v r. er_TenantID (f v r) = er_TenantID r) \<Longrightarrow> er_TenantID (on_io k f r) = er_TenantID r"
  "(\<And>v r. er_Speed (f v r) = er_Speed r) \<Longrightarrow> er_Speed (on_io k f r) = er_Speed r"
  "(\<And>v r. er_DeviceID (f v r) = er_DeviceID r) \<Longrightarrow> er_DeviceID (on_io k f r) = er_DeviceID r"
  "(\<And>v r. er_Timestamp (f v r) = er_Timestamp r) \<Longrightarrow> er_Timestamp (on_io k f r) = er_Timestamp r"
  "(\<And>v r. er_Lat (f v r) = er_Lat r) \<Longrightarrow> er_Lat (on_io k f r) = er_Lat r"
  "(\<And>v r. er_Lng (f v r) = er_Lng r) \<Longrightarrow> er_Lng (on_io k f r) = er_Lng r"
  "(\<And>v r. er_IOData (f v r) = er_IOData r) \<Longrightarrow> er_IOData (on_io k f r) = er_IOData r"
  "(\<And>v r. er_SOSEvent (f v r) = er_SOSEvent r) \<Longrightarrow> er_SOSEvent (on_io k f r) = er_SOSEvent r"
  by (auto simp: on_io_def split: option.splits)

text \<open>Enrichment does not touch identity, time, position or speed.\<close>

lemma enrichIOFields_keeps [simp]:
  "er_TenantID (enrichIOFields r) = er_TenantID r" "er_Speed (enrichIOFields r) = er_Speed r"
  "er_DeviceID (enrichIOFields r) = er_DeviceID r" "er_Timestamp (enrichIOFields r) = er_Timestamp r"
  "er_Lat (enrichIOFields r) = er_Lat r" "er_Lng (enrichIOFields r) = er_Lng r"
  by (auto simp: enrichIOFields_def Let_def split: option.splits)

lemma initial_fields [simp]:
  "er_TenantID (initial_record now t raw) = t" "er_Speed (initial_record now t raw) = Speed raw"
  "er_DeviceID (initial_record now t raw) = DeviceID raw" "er_Timestamp (initial_record now t raw) = Timestamp raw"
  "er_Lat (initial_record now t raw) = Lat raw" "er_Lng (initial_record now t raw) = Lng raw"
  "er_IOData (initial_record now t raw) = IOData raw"
  by (simp_all add: initial_record_def)

lemma alert_in_trace:
  assumes "120 < er_Speed rec"
  shows "Sql (alert_row ''overspeed'' ''warning'' ''Vehicle exceeded 120km/h'' rec) \<in> set (trace (AlertEvaluator_Evaluate svc rec s))"
  using assms by (auto simp: AlertEvaluator_Evaluate_def Let_def)

text \<open>The SOS element of a record raises a critical alert, whatever else the pipeline does.\<close>

lemma enrich_sos: "er_IOData r 236 = Some 1 \<Longrightarrow> er_SOSEvent (enrichIOFields r)"
  by (auto simp: enrichIOFields_def Let_def on_io_def [of 236] split: option.splits)

lemma message_raises_sos:
  assumes "unmarshal_raw cd data = Some raw" "IOData raw 236 = Some 1"
  shows "Sql (InsertAlert (fst (lookup_tenant svc raw s)) (DeviceID raw) ''sos'' ''critical'' ''SOS Button Pressed!''
    (Lat raw) (Lng raw) (Speed raw) (Timestamp raw)) \<in> set (trace (processMessage svc cd now data s))"
proof -
  obtain rec s1 where p: "Pipeline_Process svc now raw s = (rec, s1)" by fastforce
  have rec: "rec = enrichIOFields (initial_record now (fst (lookup_tenant svc raw s)) raw)"
    using rec_of_pipeline [of svc now raw s] p by simp
  then have sos: "er_SOSEvent rec" using assms(2) by (simp add: enrich_sos)
  have "s1 = AlertEvaluator_Evaluate svc rec (GeofenceEngine_Check svc rec (TripMachine_Process svc rec (snd (lookup_tenant svc raw s))))"
    using p by (simp add: Pipeline_Process_eq case_prod_unfold Let_def split: prod.splits) auto
  then have "Sql (alert_row ''sos'' ''critical'' ''SOS Button Pressed!'' rec) \<in> set (trace s1)"
    using sos by (simp add: AlertEvaluator_Evaluate_def Let_def)
  moreover have "set (trace s1) \<subseteq> set (trace (processMessage svc cd now data s))"
    using processMessage_cases [OF assms(1) p] by auto
  ultimately show ?thesis by (auto simp: alert_row_def rec)
qed


definition sample_codecs :: "ParsedRecord \<Rightarrow> codecs" where
  "sample_codecs r = \<lparr>unmarshal_raw = (\<lambda>_. Some r), marshal_enriched = (\<lambda>_. Some ''{}''),
     marshal_map = (\<lambda>_. Some ''{}''), marshal_io = (\<lambda>_. ''{}'')\<rparr>"


theorem nothing_published_before_stored_witness:
  "\<exists>rec s1. Pipeline_Process sample_services 0 (zero_record\<lparr>DeviceID := ''known''\<rparr>) \<lparr>ext = Map.empty, trace = []\<rparr> = (rec, s1) \<and>
     trace (processMessage sample_services (sample_codecs (zero_record\<lparr>DeviceID := ''known''\<rparr>)) 0 [] \<lparr>ext = Map.empty, trace = []\<rparr>) =
     trace s1 @ stored_effects (sample_codecs (zero_record\<lparr>DeviceID := ''known''\<rparr>)) rec @ [Ack]"
proof -
  let ?raw = "zero_record\<lparr>DeviceID := ''known''\<rparr>" and ?s = "\<lparr>ext = Map.empty :: string \<rightharpoonup> string, trace = []\<rparr>"
  obtain rec s1 where p: "Pipeline_Process sample_services 0 ?raw ?s = (rec, s1)" by fastforce
  have "fst (lookup_tenant sample_services ?raw ?s) = ''tenant-a''"
    by (simp add: lookup_tenant_def run_sql_def sample_services_def)
  then have t: "er_TenantID rec \<noteq> []" using rec_of_pipeline [of sample_services 0 ?raw ?s] p by simp
  have u: "unmarshal_raw (sample_codecs ?raw) [] = Some ?raw" by (simp add: sample_codecs_def)
  have ins: "fst (run_sql sample_services (InsertAVL rec (marshal_io (sample_codecs ?raw) (er_IOData rec))) s1) = Inr []"
    by (simp add: run_sql_def sample_services_def)
  from nothing_published_before_stored [OF u p t] p show ?thesis unfolding ins by simp
qed

end
