(* ===== verification/Io_Registry.thy ===== *)
theory Io_Registry
  imports Stream_Processor
begin

text \<open>
  The table of known IO elements (\<open>pkg/avl/io_registry.go\<close>) and its lookup, as an
  association list in the order of the source. Text outside ASCII is in UTF-8.
\<close>

record IOParam =
  io_ID :: int
  io_Name :: string
  io_Unit :: string
  io_Description :: string

definition io_Registry :: "(int \<times> IOParam) list" where
  "io_Registry =
    [(1, \<lparr>io_ID = 1, io_Name = ''digital_input_1'', io_Unit = '''', io_Description = ''Digital Input 1 / Ignition''\<rparr>),
     (2, \<lparr>io_ID = 2, io_Name = ''digital_input_2'', io_Unit = '''', io_Description = ''Digital Input 2''\<rparr>),
     (3, \<lparr>io_ID = 3, io_Name = ''digital_input_3'', io_Unit = '''', io_Description = ''Digital Input 3''\<rparr>),
     (4, \<lparr>io_ID = 4, io_Name = ''digital_input_4'', io_Unit = '''', io_Description = ''Digital Input 4''\<rparr>),
     (9, \<lparr>io_ID = 9, io_Name = ''analog_input_1'', io_Unit = ''mV'', io_Description = ''Analog Input 1''\<rparr>),
     (10, \<lparr>io_ID = 10, io_Name = ''analog_input_2'', io_Unit = ''mV'', io_Description = ''Analog Input 2''\<rparr>),
     (11, \<lparr>io_ID = 11, io_Name = ''iccid_1'', io_Unit = '''', io_Description = ''ICCID 1''\<rparr>),
     (12, \<lparr>io_ID = 12, io_Name = ''fuel_used_gps'', io_Unit = ''mL'', io_Description = ''Fuel Used GPS''\<rparr>),
     (13, \<lparr>io_ID = 13, io_Name = ''fuel_rate_gps'', io_Unit = ''mL/h'', io_Description = ''Fuel Rate GPS''\<rparr>),
     (17, \<lparr>io_ID = 17, io_Name = ''rssi'', io_Unit = ''dBm'', io_Description = ''GSM RSSI''\<rparr>),
     (21, \<lparr>io_ID = 21, io_Name = ''gsm_signal'', io_Unit = '''', io_Description = ''GSM Signal Strength''\<rparr>),
     (66, \<lparr>io_ID = 66, io_Name = ''external_voltage'', io_Unit = ''mV'', io_Description = ''External Power Voltage''\<rparr>),
     (67, \<lparr>io_ID = 67, io_Name = ''battery_voltage'', io_Unit = ''mV'', io_Description = ''Internal Battery Voltage''\<rparr>),
     (68, \<lparr>io_ID = 68, io_Name = ''battery_current'', io_Unit = ''mA'', io_Description = ''Battery Current''\<rparr>),
     (69, \<lparr>io_ID = 69, io_Name = ''gnss_status'', io_Unit = '''', io_Description = ''GNSS Status (0=OFF,1=ON,2=Sleep,3=Fail)''\<rparr>),
     (113, \<lparr>io_ID = 113, io_Name = ''battery_level'', io_Unit = ''%'', io_Description = ''Battery Level''\<rparr>),
     (175, \<lparr>io_ID = 175, io_Name = ''auto_geofence'', io_Unit = '''', io_Description = ''Auto Geofence''\<rparr>),
     (179, \<lparr>io_ID = 179, io_Name = ''digital_output_1'', io_Unit = '''', io_Description = ''Digital Output 1''\<rparr>),
     (180, \<lparr>io_ID = 180, io_Name = ''digital_output_2'', io_Unit = '''', io_Description = ''Digital Output 2''\<rparr>),
     (238, \<lparr>io_ID = 238, io_Name = ''user_id'', io_Unit = '''', io_Description = ''User ID (iButton / RFID UID)''\<rparr>),
     (239, \<lparr>io_ID = 239, io_Name = ''ignition'', io_Unit = '''', io_Description = ''Ignition (0=OFF, 1=ON)''\<rparr>),
     (240, \<lparr>io_ID = 240, io_Name = ''movement'', io_Unit = '''', io_Description = ''Movement Sensor (0=no, 1=yes)''\<rparr>),
     (241, \<lparr>io_ID = 241, io_Name = ''active_gsm_operator'', io_Unit = '''', io_Description = ''Active GSM Operator (MCC+MNC)''\<rparr>),
     (16, \<lparr>io_ID = 16, io_Name = ''total_odometer'', io_Unit = ''m'', io_Description = ''Total Odometer''\<rparr>),
     (199, \<lparr>io_ID = 199, io_Name = ''trip_odometer'', io_Unit = ''m'', io_Description = ''Trip Odometer''\<rparr>),
     (246, \<lparr>io_ID = 246, io_Name = ''towing_detection'', io_Unit = '''', io_Description = ''Towing Detection''\<rparr>),
     (247, \<lparr>io_ID = 247, io_Name = ''crash_detection'', io_Unit = '''', io_Description = ''Crash Detection''\<rparr>),
     (248, \<lparr>io_ID = 248, io_Name = ''crash_trace_data'', io_Unit = '''', io_Description = ''Crash Trace Data ID''\<rparr>),
     (249, \<lparr>io_ID = 249, io_Name = ''jagged_driving'', io_Unit = '''', io_Description = ''Jagged Driving Event''\<rparr>),
     (250, \<lparr>io_ID = 250, io_Name = ''harsh_acceleration'', io_Unit = '''', io_Description = ''Harsh Acceleration Event''\<rparr>),
     (251, \<lparr>io_ID = 251, io_Name = ''harsh_braking'', io_Unit = '''', io_Description = ''Harsh Braking Event''\<rparr>),
     (252, \<lparr>io_ID = 252, io_Name = ''harsh_cornering'', io_Unit = '''', io_Description = ''Harsh Cornering Event''\<rparr>),
     (256, \<lparr>io_ID = 256, io_Name = ''vin'', io_Unit = '''', io_Description = ''Vehicle Identification Number''\<rparr>),
     (263, \<lparr>io_ID = 263, io_Name = ''engine_rpm'', io_Unit = ''RPM'', io_Description = ''Engine RPM''\<rparr>),
     (264, \<lparr>io_ID = 264, io_Name = ''coolant_temp'', io_Unit = [CHR 0xC2, CHR 0xB0] @ ''C'', io_Description = ''Engine Coolant Temperature''\<rparr>),
     (270, \<lparr>io_ID = 270, io_Name = ''throttle_pos'', io_Unit = ''%'', io_Description = ''Throttle Position''\<rparr>),
     (271, \<lparr>io_ID = 271, io_Name = ''engine_load'', io_Unit = ''%'', io_Description = ''Calculated Engine Load''\<rparr>),
     (274, \<lparr>io_ID = 274, io_Name = ''fuel_level_obd'', io_Unit = ''%'', io_Description = ''Fuel Level (OBD)''\<rparr>),
     (30, \<lparr>io_ID = 30, io_Name = ''fuel_level_1'', io_Unit = ''mV'', io_Description = ''Fuel Level Analog Input 1''\<rparr>),
     (31, \<lparr>io_ID = 31, io_Name = ''fuel_level_2'', io_Unit = ''mV'', io_Description = ''Fuel Level Analog Input 2''\<rparr>),
     (72, \<lparr>io_ID = 72, io_Name = ''temperature_1'', io_Unit = [CHR 0xC2, CHR 0xB0] @ ''C'' @ [CHR 0xC3, CHR 0x97] @ ''10'', io_Description = ''Dallas Temperature 1''\<rparr>),
     (73, \<lparr>io_ID = 73, io_Name = ''temperature_2'', io_Unit = [CHR 0xC2, CHR 0xB0] @ ''C'' @ [CHR 0xC3, CHR 0x97] @ ''10'', io_Description = ''Dallas Temperature 2''\<rparr>),
     (74, \<lparr>io_ID = 74, io_Name = ''temperature_3'', io_Unit = [CHR 0xC2, CHR 0xB0] @ ''C'' @ [CHR 0xC3, CHR 0x97] @ ''10'', io_Description = ''Dallas Temperature 3''\<rparr>),
     (75, \<lparr>io_ID = 75, io_Name = ''temperature_4'', io_Unit = [CHR 0xC2, CHR 0xB0] @ ''C'' @ [CHR 0xC3, CHR 0x97] @ ''10'', io_Description = ''Dallas Temperature 4''\<rparr>),
     (303, \<lparr>io_ID = 303, io_Name = ''bt_sensor_1_temperature'', io_Unit = [CHR 0xC2, CHR 0xB0] @ ''C'' @ [CHR 0xC3, CHR 0x97] @ ''10'', io_Description = ''BT Sensor 1 Temperature''\<rparr>),
     (304, \<lparr>io_ID = 304, io_Name = ''bt_sensor_1_humidity'', io_Unit = ''%'' @ [CHR 0xC3, CHR 0x97] @ ''10'', io_Description = ''BT Sensor 1 Humidity''\<rparr>),
     (305, \<lparr>io_ID = 305, io_Name = ''bt_sensor_2_temperature'', io_Unit = [CHR 0xC2, CHR 0xB0] @ ''C'' @ [CHR 0xC3, CHR 0x97] @ ''10'', io_Description = ''BT Sensor 2 Temperature''\<rparr>),
     (306, \<lparr>io_ID = 306, io_Name = ''bt_sensor_2_humidity'', io_Unit = ''%'' @ [CHR 0xC3, CHR 0x97] @ ''10'', io_Description = ''BT Sensor 2 Humidity''\<rparr>),
     (314, \<lparr>io_ID = 314, io_Name = ''tpms_tire1_pressure'', io_Unit = ''Pa'', io_Description = ''TPMS Tire 1 Pressure''\<rparr>),
     (315, \<lparr>io_ID = 315, io_Name = ''tpms_tire2_pressure'', io_Unit = ''Pa'', io_Description = ''TPMS Tire 2 Pressure''\<rparr>),
     (316, \<lparr>io_ID = 316, io_Name = ''tpms_tire3_pressure'', io_Unit = ''Pa'', io_Description = ''TPMS Tire 3 Pressure''\<rparr>),
     (317, \<lparr>io_ID = 317, io_Name = ''tpms_tire4_pressure'', io_Unit = ''Pa'', io_Description = ''TPMS Tire 4 Pressure''\<rparr>),
     (320, \<lparr>io_ID = 320, io_Name = ''can_vehicle_speed'', io_Unit = ''km/h'', io_Description = ''CAN Vehicle Speed''\<rparr>),
     (321, \<lparr>io_ID = 321, io_Name = ''can_accelerator_pedal'', io_Unit = ''%'', io_Description = ''CAN Accelerator Pedal Position''\<rparr>),
     (322, \<lparr>io_ID = 322, io_Name = ''can_fuel_consumed'', io_Unit = ''L'' @ [CHR 0xC3, CHR 0x97] @ ''10'', io_Description = ''CAN Fuel Consumed''\<rparr>),
     (323, \<lparr>io_ID = 323, io_Name = ''can_fuel_level'', io_Unit = ''L'' @ [CHR 0xC3, CHR 0x97] @ ''10'', io_Description = ''CAN Fuel Level''\<rparr>),
     (326, \<lparr>io_ID = 326, io_Name = ''can_engine_temp'', io_Unit = [CHR 0xC2, CHR 0xB0] @ ''C'', io_Description = ''CAN Engine Temperature''\<rparr>),
     (327, \<lparr>io_ID = 327, io_Name = ''can_engine_rpm'', io_Unit = ''RPM'', io_Description = ''CAN Engine RPM''\<rparr>),
     (332, \<lparr>io_ID = 332, io_Name = ''can_total_milage'', io_Unit = ''km'', io_Description = ''CAN Total Mileage''\<rparr>),
     (333, \<lparr>io_ID = 333, io_Name = ''can_total_fuel_used'', io_Unit = ''L'' @ [CHR 0xC3, CHR 0x97] @ ''10'', io_Description = ''CAN Total Fuel Used''\<rparr>),
     (236, \<lparr>io_ID = 236, io_Name = ''sos_event'', io_Unit = '''', io_Description = ''SOS / Panic Button''\<rparr>),
     (237, \<lparr>io_ID = 237, io_Name = ''asset_tamper'', io_Unit = '''', io_Description = ''Asset Tamper Event''\<rparr>)]"

definition io_Lookup :: "int \<Rightarrow> IOParam option" where
  "io_Lookup k = map_of io_Registry k"

text \<open>The IO elements the enrichment step reads.\<close>

definition enriched_ids :: "int list" where
  "enriched_ids = [239, 1, 240, 66, 67, 113, 69, 21, 263, 327, 274, 72, 238, 236, 320]"

lemma io_Registry_keys: "list_all (\<lambda>(k, p). io_ID p = k) io_Registry"
  by (simp add: io_Registry_def)

lemma io_Registry_distinct: "distinct (map fst io_Registry)"
  by (simp add: io_Registry_def)

lemma io_Registry_distinct_names: "distinct (map (\<lambda>e. io_Name (snd e)) io_Registry)"
  by (simp add: io_Registry_def)

text \<open>Lookup is total on the elements the enrichment reads, and sound.\<close>

lemma io_Lookup_known: "k \<in> set enriched_ids \<Longrightarrow> \<exists>p. io_Lookup k = Some p \<and> io_ID p = k"
  by (auto simp: enriched_ids_def io_Lookup_def io_Registry_def)

lemma io_Lookup_sound: "io_Lookup k = Some p \<Longrightarrow> io_ID p = k \<and> (k, p) \<in> set io_Registry"
  using io_Registry_keys by (auto simp: io_Lookup_def list_all_iff dest!: map_of_SomeD)

end
