(* ===== verification/Hub.thy ===== *)
theory Hub
  imports Stream_Processor
begin

text \<open>
  The WebSocket service (\<open>websocket-service/\<close>): the hub that fans messages out to clients,
  the Redis consumer that feeds it and the two upgrade handlers. The hub's goroutine takes
  events from three channels in any order; the clients' pumps and the producers run beside
  it. A state holds the clients, the contents of the channels and, because a Go program
  that sends on a closed channel or closes one twice panics, whether that has happened.
\<close>

section \<open>Clients and messages\<close>

record broadcastMsg =
  m_tenantID :: string
  m_deviceID :: string
  m_data :: string

text \<open>The send channel is its buffer and whether it is closed; \<open>got\<close> is what was written out.\<close>

record client =
  c_tenantID :: string
  c_devices :: "string set"
  c_send :: "broadcastMsg list"
  c_closed :: bool
  c_got :: "broadcastMsg list"

definition new_client :: "string \<Rightarrow> string list \<Rightarrow> client" where
  "new_client tenantID deviceFilter =
     \<lparr>c_tenantID = tenantID, c_devices = set deviceFilter, c_send = [], c_closed = False, c_got = []\<rparr>"

definition sendBuffer :: nat where
  "sendBuffer = 256"

text \<open>The filter of the broadcast loop: the tenant, and the devices if any were chosen.\<close>

definition wants :: "client \<Rightarrow> broadcastMsg \<Rightarrow> bool" where
  "wants c msg \<longleftrightarrow> c_tenantID c = m_tenantID msg \<and> (c_devices c = {} \<or> m_deviceID msg \<in> c_devices c)"

section \<open>The hub\<close>

text \<open>
  \<open>pumping\<close> are the clients whose read pump is running; \<open>unregq\<close> holds the requests in the
  unregister channel and those of the goroutines waiting to send to it.
\<close>

record hub =
  clients :: "nat set"
  store :: "nat \<Rightarrow> client"
  regq :: "nat list"
  unregq :: "nat list"
  bcastq :: "broadcastMsg list"
  pumping :: "nat set"
  next_id :: nat
  panicked :: bool

definition hub_New :: hub where
  "hub_New = \<lparr>clients = {}, store = (\<lambda>_. new_client [] []), regq = [], unregq = [], bcastq = [],
     pumping = {}, next_id = 0, panicked = False\<rparr>"

definition hub_Register :: "string \<Rightarrow> string list \<Rightarrow> hub \<Rightarrow> hub" where
  "hub_Register tenantID deviceFilter h =
     h\<lparr>store := (store h)(next_id h := new_client tenantID deviceFilter), regq := regq h @ [next_id h],
       pumping := insert (next_id h) (pumping h), next_id := Suc (next_id h)\<rparr>"

definition hub_Unregister :: "nat \<Rightarrow> hub \<Rightarrow> hub" where
  "hub_Unregister i h = h\<lparr>unregq := unregq h @ [i]\<rparr>"

definition hub_Broadcast :: "broadcastMsg \<Rightarrow> hub \<Rightarrow> hub" where
  "hub_Broadcast msg h = h\<lparr>bcastq := bcastq h @ [msg]\<rparr>"

text \<open>The three cases of the select in \<open>Run\<close>.\<close>

definition run_register :: "nat \<Rightarrow> hub \<Rightarrow> hub" where
  "run_register i h = h\<lparr>clients := insert i (clients h)\<rparr>"

definition run_unregister :: "nat \<Rightarrow> hub \<Rightarrow> hub" where
  "run_unregister i h =
     (if i \<in> clients h then
        h\<lparr>clients := clients h - {i}, store := (store h)(i := (store h i)\<lparr>c_closed := True\<rparr>),
          panicked := panicked h \<or> c_closed (store h i)\<rparr>
      else h)"

text \<open>One iteration of the broadcast loop.\<close>

definition deliver :: "broadcastMsg \<Rightarrow> nat \<Rightarrow> hub \<Rightarrow> hub" where
  "deliver msg i h =
     (if \<not> wants (store h i) msg then h
      else if c_closed (store h i) then h\<lparr>panicked := True\<rparr>
      else if length (c_send (store h i)) < sendBuffer
      then h\<lparr>store := (store h)(i := (store h i)\<lparr>c_send := c_send (store h i) @ [msg]\<rparr>)\<rparr>
      else h\<lparr>unregq := unregq h @ [i]\<rparr>)"

text \<open>The clients are visited in the order \<open>order\<close>, which Go leaves open.\<close>

definition run_broadcast :: "broadcastMsg \<Rightarrow> nat list \<Rightarrow> hub \<Rightarrow> hub" where
  "run_broadcast msg order h = foldl (\<lambda>h i. deliver msg i h) h order"

section \<open>Pumps\<close>

text \<open>The write pump takes the next message off the channel; a failed write ends it.\<close>

definition WritePump_step :: "nat \<Rightarrow> hub \<Rightarrow> hub" where
  "WritePump_step i h =
     (case c_send (store h i) of
        [] \<Rightarrow> h
      | msg # rest \<Rightarrow> h\<lparr>store := (store h)(i := (store h i)\<lparr>c_send := rest, c_got := c_got (store h i) @ [msg]\<rparr>)\<rparr>)"

text \<open>A control message of the client, decoded: its action and device list.\<close>

definition ReadPump_message :: "nat \<Rightarrow> string \<Rightarrow> string list \<Rightarrow> hub \<Rightarrow> hub" where
  "ReadPump_message i action devices h =
     (if action = ''subscribe'' then h\<lparr>store := (store h)(i := (store h i)\<lparr>c_devices := set devices\<rparr>)\<rparr> else h)"

text \<open>The deferred function of the read pump.\<close>

definition ReadPump_end :: "nat \<Rightarrow> hub \<Rightarrow> hub" where
  "ReadPump_end i h = (hub_Unregister i h)\<lparr>pumping := pumping h - {i}\<rparr>"

inductive hub_step :: "hub \<Rightarrow> hub \<Rightarrow> bool" where
  connect: "hub_step h (hub_Register tenantID deviceFilter h)"
| publish: "hub_step h (hub_Broadcast msg h)"
| reg: "regq h = i # q \<Longrightarrow> hub_step h (run_register i (h\<lparr>regq := q\<rparr>))"
| unreg: "unregq h = i # q \<Longrightarrow> hub_step h (run_unregister i (h\<lparr>unregq := q\<rparr>))"
| bcast: "bcastq h = msg # q \<Longrightarrow> distinct order \<Longrightarrow> set order = clients h \<Longrightarrow>
     hub_step h (run_broadcast msg order (h\<lparr>bcastq := q\<rparr>))"
| drain: "hub_step h (WritePump_step i h)"
| control: "i \<in> pumping h \<Longrightarrow> hub_step h (ReadPump_message i action devices h)"
| leave: "i \<in> pumping h \<Longrightarrow> hub_step h (ReadPump_end i h)"

section \<open>The Redis consumer\<close>

definition KeyPubSubAlerts :: "string \<Rightarrow> string" where
  "KeyPubSubAlerts tenantID = ''pubsub:alerts:'' @ tenantID"

text \<open>
  \<open>device_of\<close> is the \<open>device_id\<close> string of the JSON payload, if it has one. The result is
  the message handed to the hub.
\<close>

definition handleMessage :: "(string \<Rightarrow> string option) \<Rightarrow> string \<Rightarrow> string \<Rightarrow> broadcastMsg option" where
  "handleMessage device_of channel payload =
     (if length (KeyPubSubDevice []) < length channel
      then Some \<lparr>m_tenantID = drop (length (KeyPubSubDevice [])) channel,
                 m_deviceID = (case device_of payload of Some d \<Rightarrow> d | None \<Rightarrow> []), m_data = payload\<rparr>
      else None)"

text \<open>
  The subscription loop: what it receives, in the order its \<open>select\<close> takes it. Redis gives it
  the messages whose channel matches one of the two patterns.
\<close>

datatype sub_event = Context_Done | ChannelClosed | Received string string

definition subscribed :: "string \<Rightarrow> bool" where
  "subscribed channel \<longleftrightarrow> take 14 channel = ''pubsub:device:'' \<or> take 14 channel = ''pubsub:alerts:''"

fun Subscribe :: "(string \<Rightarrow> string option) \<Rightarrow> sub_event list \<Rightarrow> hub \<Rightarrow> hub" where
  "Subscribe device_of [] h = h"
| "Subscribe device_of (Context_Done # evs) h = h"
| "Subscribe device_of (ChannelClosed # evs) h = h"
| "Subscribe device_of (Received channel payload # evs) h =
     Subscribe device_of evs
       (if subscribed channel
        then (case handleMessage device_of channel payload of Some msg \<Rightarrow> hub_Broadcast msg h | None \<Rightarrow> h)
        else h)"

lemma Subscribe_steps: "hub_step\<^sup>*\<^sup>* h (Subscribe device_of evs h)"
proof (induction device_of evs h rule: Subscribe.induct)
  case (4 device_of channel payload evs h)
  then show ?case
    by (auto intro: converse_rtranclp_into_rtranclp hub_step.publish split: option.splits)
qed simp_all

lemma Subscribe_own_tenant:
  "T \<noteq> [] \<Longrightarrow> Subscribe device_of [Received (KeyPubSubDevice T) payload] h =
     hub_Broadcast \<lparr>m_tenantID = T, m_deviceID = (case device_of payload of Some d \<Rightarrow> d | None \<Rightarrow> []), m_data = payload\<rparr> h"
  by (simp add: subscribed_def handleMessage_def KeyPubSubDevice_def)

section \<open>Invariant\<close>

lemma four_steps: "r a b \<Longrightarrow> r b c \<Longrightarrow> r c d \<Longrightarrow> r d e \<Longrightarrow> r\<^sup>*\<^sup>* a e"
  by (meson converse_rtranclp_into_rtranclp r_into_rtranclp)

definition hub_inv :: "hub \<Rightarrow> bool" where
  "hub_inv h \<longleftrightarrow> \<not> panicked h \<and> distinct (regq h) \<and>
     (\<forall>i \<in> clients h. i < next_id h \<and> \<not> c_closed (store h i) \<and> i \<notin> set (regq h)) \<and>
     (\<forall>i \<in> set (regq h). i < next_id h \<and> \<not> c_closed (store h i)) \<and>
     (\<forall>i. \<forall>m \<in> set (c_send (store h i)) \<union> set (c_got (store h i)). m_tenantID m = c_tenantID (store h i))"

lemma hub_inv_New: "hub_inv hub_New"
  by (simp add: hub_inv_def hub_New_def new_client_def)

lemma hub_inv_deliver:
  assumes "hub_inv h" "i \<in> clients h"
  shows "hub_inv (deliver msg i h) \<and> clients (deliver msg i h) = clients h"
proof (cases "wants (store h i) msg")
  case False
  then show ?thesis using assms by (simp add: deliver_def)
next
  case True
  have "\<not> c_closed (store h i)" using assms by (simp add: hub_inv_def)
  moreover have "m_tenantID msg = c_tenantID (store h i)" using True by (simp add: wants_def)
  ultimately show ?thesis using assms True by (auto simp: deliver_def hub_inv_def)
qed

lemma hub_inv_broadcast:
  "hub_inv h \<Longrightarrow> set order \<subseteq> clients h \<Longrightarrow> hub_inv (run_broadcast msg order h)"
proof (induction order arbitrary: h)
  case Nil
  then show ?case by (simp add: run_broadcast_def)
next
  case (Cons i order)
  from hub_inv_deliver [of h i msg] Cons.prems have
    "hub_inv (deliver msg i h)" "set order \<subseteq> clients (deliver msg i h)" by auto
  from Cons.IH [OF this] show ?case by (simp add: run_broadcast_def)
qed

lemma hub_inv_step:
  assumes "hub_step h h'" "hub_inv h"
  shows "hub_inv h'"
  using assms
proof (cases rule: hub_step.cases)
  case (connect tenantID deviceFilter)
  have "next_id h \<notin> set (regq h)" "next_id h \<notin> clients h" using assms(2) by (auto simp: hub_inv_def)
  with connect assms(2) show ?thesis
    by (auto simp: hub_inv_def hub_Register_def new_client_def less_Suc_eq)
next
  case (publish msg)
  with assms(2) show ?thesis by (auto simp: hub_inv_def hub_Broadcast_def)
next
  case (reg i q)
  with assms(2) show ?thesis by (auto simp: hub_inv_def run_register_def)
next
  case (unreg i q)
  with assms(2) show ?thesis by (auto simp: hub_inv_def run_unregister_def)
next
  case (bcast msg q order)
  have "hub_inv (h\<lparr>bcastq := q\<rparr>)" using assms(2) by (simp add: hub_inv_def)
  with bcast show ?thesis by (auto intro: hub_inv_broadcast)
next
  case (drain i)
  with assms(2) show ?thesis
    by (cases "c_send (store h i)") (auto simp: hub_inv_def WritePump_step_def)
next
  case (control i action devices)
  with assms(2) show ?thesis by (auto simp: hub_inv_def ReadPump_message_def)
next
  case (leave i)
  with assms(2) show ?thesis by (auto simp: hub_inv_def ReadPump_end_def hub_Unregister_def)
qed

lemma hub_inv_reachable: "hub_step\<^sup>*\<^sup>* hub_New h \<Longrightarrow> hub_inv h"
  by (induction rule: rtranclp_induct) (auto intro: hub_inv_New hub_inv_step)

text \<open>
  C6: in every interleaving of connections, control messages, disconnections, publications
  and hub events, every message queued for or written to a client carries that client's
  tenant: no tenant receives another tenant's data.
\<close>

theorem hub_tenant_isolation:
  assumes "hub_step\<^sup>*\<^sup>* hub_New h" "msg \<in> set (c_send (store h i)) \<union> set (c_got (store h i))"
  shows "m_tenantID msg = c_tenantID (store h i)"
  using hub_inv_reachable [OF assms(1)] assms(2) by (auto simp: hub_inv_def)

text \<open>
  C25: the hub never panics: in no interleaving is a message sent on the closed channel of a
  client or a channel closed twice, although slow clients are unregistered a second time.
\<close>

theorem hub_never_panics:
  assumes "hub_step\<^sup>*\<^sup>* hub_New h"
  shows "\<not> panicked h"
  using hub_inv_reachable [OF assms] by (simp add: hub_inv_def)

definition sample_msg :: broadcastMsg where
  "sample_msg = \<lparr>m_tenantID = ''t'', m_deviceID = ''d'', m_data = ''{}''\<rparr>"

text \<open>One client of tenant \<open>t\<close> is registered and a message for it has been delivered.\<close>

definition sample_hub :: hub where
  "sample_hub = run_broadcast sample_msg [0] ((run_register 0 ((hub_Broadcast sample_msg (hub_Register ''t'' [] hub_New))\<lparr>regq := []\<rparr>))\<lparr>bcastq := []\<rparr>)"

lemma sample_hub_reachable: "hub_step\<^sup>*\<^sup>* hub_New sample_hub"
proof -
  let ?h1 = "hub_Register ''t'' [] hub_New"
  let ?h2 = "hub_Broadcast sample_msg ?h1"
  let ?h3 = "run_register 0 (?h2\<lparr>regq := []\<rparr>)"
  have "hub_step hub_New ?h1" by (rule hub_step.connect)
  moreover have "hub_step ?h1 ?h2" by (rule hub_step.publish)
  moreover have "hub_step ?h2 ?h3" by (rule hub_step.reg) (simp add: hub_Broadcast_def hub_Register_def hub_New_def)
  moreover have "hub_step ?h3 sample_hub" unfolding sample_hub_def
    by (rule hub_step.bcast) (simp_all add: run_register_def hub_Broadcast_def hub_Register_def hub_New_def)
  ultimately show ?thesis by (rule four_steps)
qed

lemma sample_hub_send: "c_send (store sample_hub 0) = [sample_msg]"
  by (simp add: sample_hub_def run_broadcast_def deliver_def run_register_def hub_Broadcast_def hub_Register_def
      hub_New_def wants_def new_client_def sample_msg_def sendBuffer_def)

theorem hub_tenant_isolation_witness:
  "sample_msg \<in> set (c_send (store sample_hub 0)) \<and> m_tenantID sample_msg = c_tenantID (store sample_hub 0)"
  using hub_tenant_isolation [OF sample_hub_reachable, of sample_msg 0] by (simp add: sample_hub_send)

theorem hub_never_panics_witness: "\<not> panicked sample_hub"
  by (rule hub_never_panics [OF sample_hub_reachable])

text \<open>
  A client that disconnects right after connecting can stay in the hub: its registration
  and its unregistration wait in two channels, the hub may take the unregistration first,
  where it has no effect, and the later registration keeps the client with a channel that
  nobody closes, although its pump has ended and no request is pending.
\<close>

lemma hub_can_keep_dead_client:
  "\<exists>h. hub_step\<^sup>*\<^sup>* hub_New h \<and> 0 \<in> clients h \<and> 0 \<notin> pumping h \<and> regq h = [] \<and> unregq h = [] \<and>
     \<not> c_closed (store h 0)"
proof -
  let ?h1 = "hub_Register ''t'' [] hub_New"
  let ?h2 = "ReadPump_end 0 ?h1"
  let ?h3 = "run_unregister 0 (?h2\<lparr>unregq := []\<rparr>)"
  let ?h4 = "run_register 0 (?h3\<lparr>regq := []\<rparr>)"
  note defs = ReadPump_end_def hub_Unregister_def hub_Register_def hub_New_def run_unregister_def run_register_def
    new_client_def
  have "hub_step hub_New ?h1" by (rule hub_step.connect)
  moreover have "hub_step ?h1 ?h2" by (rule hub_step.leave) (simp add: defs)
  moreover have "hub_step ?h2 ?h3" by (rule hub_step.unreg) (simp add: defs)
  moreover have "hub_step ?h3 ?h4" by (rule hub_step.reg) (simp add: defs)
  ultimately have "hub_step\<^sup>*\<^sup>* hub_New ?h4" by (rule four_steps)
  moreover have "0 \<in> clients ?h4 \<and> 0 \<notin> pumping ?h4 \<and> regq ?h4 = [] \<and> unregq ?h4 = [] \<and> \<not> c_closed (store ?h4 0)"
    by (simp add: defs)
  ultimately show ?thesis by blast
qed

text \<open>
  Alert messages of a tenant are broadcast under the tenant's own id, while the clients
  of the alert endpoint are registered under the id with the suffix \<open>_alerts\<close>: no alert
  client ever matches an alert of its tenant, and the unfiltered live-position clients of
  the tenant receive it instead.
\<close>

lemma alerts_reach_live_clients_only:
  assumes "T \<noteq> []"
  shows "\<exists>msg. handleMessage device_of (KeyPubSubAlerts T) payload = Some msg \<and> m_data msg = payload \<and>
     \<not> wants (new_client (T @ ''_alerts'') []) msg \<and> wants (new_client T []) msg"
  using assms by (simp add: handleMessage_def KeyPubSubAlerts_def KeyPubSubDevice_def wants_def new_client_def)

lemma alerts_reach_live_clients_only_witness:
  "\<exists>msg. handleMessage (\<lambda>_. None) (KeyPubSubAlerts ''tenant-a'') ''{}'' = Some msg \<and>
     \<not> wants (new_client ''tenant-a_alerts'' []) msg"
  using alerts_reach_live_clients_only [of "''tenant-a''" "\<lambda>_. None" "''{}''"] by auto

end
