(* ===== verification/Auth.thy ===== *)
theory Auth
  imports Prelude
begin

text \<open>
  Authentication and the API's middleware (\<open>pkg/auth\<close>, the auth handlers and
  \<open>api-service/internal/middleware\<close>). The JWT library, bcrypt, the users table and Redis are
  outside the program and appear as arguments; times are Unix seconds.
\<close>

section \<open>Roles and permissions\<close>

definition RoleSuperAdmin :: string where "RoleSuperAdmin = ''super_admin''"
definition RoleTenantAdmin :: string where "RoleTenantAdmin = ''tenant_admin''"
definition RoleFleetManager :: string where "RoleFleetManager = ''fleet_manager''"
definition RoleDispatcher :: string where "RoleDispatcher = ''dispatcher''"
definition RoleDriver :: string where "RoleDriver = ''driver''"

lemmas role_defs = RoleSuperAdmin_def RoleTenantAdmin_def RoleFleetManager_def RoleDispatcher_def RoleDriver_def

definition PermReadDevices :: string where "PermReadDevices = ''devices:read''"
definition PermWriteDevices :: string where "PermWriteDevices = ''devices:write''"
definition PermReadTrips :: string where "PermReadTrips = ''trips:read''"
definition PermReadAlerts :: string where "PermReadAlerts = ''alerts:read''"
definition PermAckAlerts :: string where "PermAckAlerts = ''alerts:ack''"
definition PermWriteRules :: string where "PermWriteRules = ''rules:write''"
definition PermReadReports :: string where "PermReadReports = ''reports:read''"
definition PermManageUsers :: string where "PermManageUsers = ''users:manage''"
definition PermManageTenants :: string where "PermManageTenants = ''tenants:manage''"
definition PermSendCommands :: string where "PermSendCommands = ''commands:send''"

lemmas perm_defs = PermReadDevices_def PermWriteDevices_def PermReadTrips_def PermReadAlerts_def PermAckAlerts_def
  PermWriteRules_def PermReadReports_def PermManageUsers_def PermManageTenants_def PermSendCommands_def

text \<open>The table; a role that is not in it has no permissions.\<close>

definition rolePermissions :: "string \<Rightarrow> string list" where
  "rolePermissions role =
     (if role = RoleSuperAdmin then
        [PermReadDevices, PermWriteDevices, PermReadTrips, PermReadAlerts, PermAckAlerts, PermWriteRules,
         PermReadReports, PermManageUsers, PermManageTenants, PermSendCommands]
      else if role = RoleTenantAdmin then
        [PermReadDevices, PermWriteDevices, PermReadTrips, PermReadAlerts, PermAckAlerts, PermWriteRules,
         PermReadReports, PermManageUsers, PermSendCommands]
      else if role = RoleFleetManager then
        [PermReadDevices, PermReadTrips, PermReadAlerts, PermAckAlerts, PermWriteRules, PermReadReports, PermSendCommands]
      else if role = RoleDispatcher then
        [PermReadDevices, PermReadTrips, PermReadAlerts, PermAckAlerts, PermReadReports]
      else if role = RoleDriver then [PermReadDevices, PermReadTrips]
      else [])"

fun has_permission_loop :: "string list \<Rightarrow> string \<Rightarrow> bool" where
  "has_permission_loop [] perm = False"
| "has_permission_loop (p # ps) perm = (if p = perm then True else has_permission_loop ps perm)"

definition HasPermission :: "string \<Rightarrow> string \<Rightarrow> bool" where
  "HasPermission role perm = has_permission_loop (rolePermissions role) perm"

section \<open>Tokens\<close>

record Claims =
  cl_UserID :: string
  cl_TenantID :: string
  cl_Role :: string
  cl_IssuedAt :: int
  cl_ExpiresAt :: int
  cl_Issuer :: string

text \<open>
  The JWT library: \<open>jwt_sign\<close> is \<open>SignedString\<close> with RS256 and the manager's private key;
  \<open>jwt_parse now\<close> is \<open>ParseWithClaims\<close> with the manager's key function (which rejects every
  method but RSA), at time \<open>now\<close>.
\<close>

record jwt =
  jwt_sign :: "Claims \<Rightarrow> (goerr, string) outcome"
  jwt_parse :: "int \<Rightarrow> string \<Rightarrow> (goerr, Claims) outcome"

record Manager =
  mgr_jwt :: jwt
  accessTTL :: int
  refreshTTL :: int

definition mgr_sign :: "Manager \<Rightarrow> int \<Rightarrow> string \<Rightarrow> string \<Rightarrow> string \<Rightarrow> int \<Rightarrow> (goerr, string) outcome" where
  "mgr_sign m now userID tenantID role ttl =
     jwt_sign (mgr_jwt m)
       \<lparr>cl_UserID = userID, cl_TenantID = tenantID, cl_Role = role, cl_IssuedAt = now, cl_ExpiresAt = now + ttl,
        cl_Issuer = ''gpsgo''\<rparr>"

definition GenerateAccess :: "Manager \<Rightarrow> int \<Rightarrow> string \<Rightarrow> string \<Rightarrow> string \<Rightarrow> (goerr, string) outcome" where
  "GenerateAccess m now userID tenantID role = mgr_sign m now userID tenantID role (accessTTL m)"

definition GenerateRefresh :: "Manager \<Rightarrow> int \<Rightarrow> string \<Rightarrow> string \<Rightarrow> string \<Rightarrow> (goerr, string) outcome" where
  "GenerateRefresh m now userID tenantID role = mgr_sign m now userID tenantID role (refreshTTL m)"

definition Validate :: "Manager \<Rightarrow> int \<Rightarrow> string \<Rightarrow> (goerr, Claims) outcome" where
  "Validate m now tokenStr = map_err (Wrapf ''parse token'') (jwt_parse (mgr_jwt m) now tokenStr)"

section \<open>Middleware\<close>

text \<open>The keys the middleware sets in the Gin context; a middleware aborts with a status or goes on.\<close>

record gctx =
  ctx_user_id :: "string option"
  ctx_tenant_id :: "string option"
  ctx_role :: "string option"

definition empty_ctx :: gctx where
  "empty_ctx = \<lparr>ctx_user_id = None, ctx_tenant_id = None, ctx_role = None\<rparr>"

datatype 'a flow = Abort nat string | Next 'a

definition bearer :: string where
  "bearer = ''Bearer ''"

definition auth_Middleware :: "Manager \<Rightarrow> int \<Rightarrow> string \<Rightarrow> gctx \<Rightarrow> gctx flow" where
  "auth_Middleware m now raw c =
     (if take (length bearer) raw \<noteq> bearer then Abort 401 ''missing bearer token''
      else (case Validate m now (drop (length bearer) raw) of
              Ok claims \<Rightarrow> Next (c\<lparr>ctx_user_id := Some (cl_UserID claims), ctx_tenant_id := Some (cl_TenantID claims),
                                   ctx_role := Some (cl_Role claims)\<rparr>)
            | _ \<Rightarrow> Abort 401 ''invalid token''))"

definition RequirePermission :: "string \<Rightarrow> gctx \<Rightarrow> gctx flow" where
  "RequirePermission perm c =
     (case ctx_role c of
        None \<Rightarrow> Abort 403 ''no role context''
      | Some role \<Rightarrow> if \<not> HasPermission role perm then Abort 403 ''insufficient permissions'' else Next c)"

definition ctx_TenantID :: "gctx \<Rightarrow> string" where
  "ctx_TenantID c = (case ctx_tenant_id c of Some t \<Rightarrow> t | None \<Rightarrow> [])"

definition ctx_UserID :: "gctx \<Rightarrow> string" where
  "ctx_UserID c = (case ctx_user_id c of Some u \<Rightarrow> u | None \<Rightarrow> [])"

definition RLS :: "gctx \<Rightarrow> gctx flow" where
  "RLS c = (if ctx_TenantID c = [] then Abort 403 [] else Next c)"

text \<open>
  \<open>itoa\<close> on a 64-bit \<open>int\<close>: negating the least value leaves it as it is, and the digit loop
  does not run on it.
\<close>

function itoa_loop :: "int \<Rightarrow> string \<Rightarrow> string" where
  "itoa_loop n buf = (if 0 < n then itoa_loop (n div 10) (char_of (nat (48 + n mod 10)) # buf) else buf)"
  by pat_completeness auto
termination by (relation "measure (\<lambda>(n, buf). nat n)") auto

declare itoa_loop.simps [simp del]

definition neg64 :: "int \<Rightarrow> int" where
  "neg64 n = (if n = - (2 ^ 63) then n else - n)"

definition itoa :: "int \<Rightarrow> string" where
  "itoa n =
     (if n = 0 then ''0''
      else let buf = itoa_loop (if n < 0 then neg64 n else n) []
           in if n < 0 then CHR ''-'' # buf else buf)"

definition go_max :: "int \<Rightarrow> int \<Rightarrow> int" where
  "go_max a b = (if b < a then a else b)"

text \<open>
  The rate limit over a Redis counter: \<open>incr\<close> and \<open>expire\<close> act on an arbitrary state. The
  result is the decision, the remaining budget sent to the client, and the state.
\<close>

definition rate_key :: "string \<Rightarrow> string" where
  "rate_key tenantID = ''ratelimit:api:'' @ tenantID"

definition RateLimit ::
  "(string \<Rightarrow> 'w \<Rightarrow> (goerr, int) outcome \<times> 'w) \<Rightarrow> (string \<Rightarrow> int \<Rightarrow> 'w \<Rightarrow> 'w) \<Rightarrow> gctx \<Rightarrow> 'w \<Rightarrow> gctx flow \<times> string option \<times> 'w" where
  "RateLimit incr expire c w =
     (if ctx_TenantID c = [] then (Next c, None, w)
      else (case incr (rate_key (ctx_TenantID c)) w of
              (Ok count, w1) \<Rightarrow>
                (let w2 = (if count = 1 then expire (rate_key (ctx_TenantID c)) 60 w1 else w1);
                     remaining = itoa (go_max 0 (1000 - count))
                 in if 1000 < count then (Abort 429 ''rate limit exceeded'', Some remaining, w2)
                    else (Next c, Some remaining, w2))
            | (_, w1) \<Rightarrow> (Next c, None, w1)))"

text \<open>The chain in front of every protected route, as the router installs it.\<close>

definition protected_chain ::
  "(string \<Rightarrow> 'w \<Rightarrow> (goerr, int) outcome \<times> 'w) \<Rightarrow> (string \<Rightarrow> int \<Rightarrow> 'w \<Rightarrow> 'w) \<Rightarrow> Manager \<Rightarrow> int \<Rightarrow> string \<Rightarrow> 'w \<Rightarrow> gctx flow \<times> 'w" where
  "protected_chain incr expire m now header w =
     (case auth_Middleware m now header empty_ctx of
        Abort s t \<Rightarrow> (Abort s t, w)
      | Next c \<Rightarrow>
          (case RLS c of
             Abort s t \<Rightarrow> (Abort s t, w)
           | Next c \<Rightarrow> (case RateLimit incr expire c w of (r, hdr, w') \<Rightarrow> (r, w'))))"

section \<open>Login and refresh\<close>

record user_row =
  u_id :: string
  u_tenant_id :: string
  u_password_hash :: string
  u_role :: string

record userInfo =
  ui_ID :: string
  ui_TenantID :: string
  ui_Email :: string
  ui_Role :: string

text \<open>The answer to a refresh has no user.\<close>

record tokenResponse =
  AccessToken :: string
  RefreshToken :: string
  ExpiresAt :: int
  tr_User :: "userInfo option"

datatype auth_reply = Tokens tokenResponse | Refused nat string

text \<open>
  The request is the outcome of binding its body; \<open>find_user\<close> is the query by email and
  \<open>pw_ok hash password\<close> is bcrypt's comparison.
\<close>

definition issue_tokens :: "Manager \<Rightarrow> int \<Rightarrow> string \<Rightarrow> string \<Rightarrow> string \<Rightarrow> userInfo option \<Rightarrow> auth_reply" where
  "issue_tokens m now userID tenantID role user =
     (case GenerateAccess m now userID tenantID role of
        Ok access \<Rightarrow>
          (case GenerateRefresh m now userID tenantID role of
             Ok refresh \<Rightarrow> Tokens \<lparr>AccessToken = access, RefreshToken = refresh, ExpiresAt = now + 15 * 60, tr_User = user\<rparr>
           | _ \<Rightarrow> Refused 500 ''token generation failed'')
      | _ \<Rightarrow> Refused 500 ''token generation failed'')"

definition Login ::
  "(string \<Rightarrow> user_row option) \<Rightarrow> (string \<Rightarrow> string \<Rightarrow> bool) \<Rightarrow> Manager \<Rightarrow> int \<Rightarrow> (goerr, string \<times> string) outcome \<Rightarrow> auth_reply" where
  "Login find_user pw_ok m now req =
     (case req of
        Err e \<Rightarrow> Refused 400 (''invalid request: '' @ Error e)
      | Panic \<Rightarrow> Refused 500 []
      | Ok (email, password) \<Rightarrow>
          (case find_user email of
             None \<Rightarrow> Refused 401 ''invalid credentials''
           | Some u \<Rightarrow>
               if \<not> pw_ok (u_password_hash u) password then Refused 401 ''invalid credentials''
               else issue_tokens m now (u_id u) (u_tenant_id u) (u_role u)
                 (Some \<lparr>ui_ID = u_id u, ui_TenantID = u_tenant_id u, ui_Email = email, ui_Role = u_role u\<rparr>)))"

definition auth_Refresh :: "Manager \<Rightarrow> int \<Rightarrow> (goerr, string) outcome \<Rightarrow> auth_reply" where
  "auth_Refresh m now body =
     (case body of
        Err e \<Rightarrow> Refused 400 (Error e)
      | Panic \<Rightarrow> Refused 500 []
      | Ok tok \<Rightarrow>
          (case Validate m now tok of
             Ok claims \<Rightarrow> issue_tokens m now (cl_UserID claims) (cl_TenantID claims) (cl_Role claims) None
           | _ \<Rightarrow> Refused 401 ''invalid refresh token''))"

section \<open>Permissions\<close>

lemma has_permission_loop_iff: "has_permission_loop ps perm \<longleftrightarrow> perm \<in> set ps"
  by (induction ps) auto

lemma known_roles:
  "{role. \<exists>perm. HasPermission role perm} = {RoleSuperAdmin, RoleTenantAdmin, RoleFleetManager, RoleDispatcher, RoleDriver}"
proof -
  have "(\<exists>perm. HasPermission role perm) \<longleftrightarrow> rolePermissions role \<noteq> []" for role
    by (auto simp: HasPermission_def has_permission_loop_iff) (metis list.set_intros(1) neq_Nil_conv)
  then show ?thesis by (auto simp: rolePermissions_def split: if_splits)
qed

text \<open>
  The roles form a strict hierarchy: each level, from driver over dispatcher, fleet
  manager and tenant administrator to super administrator, has all permissions of the level
  below and more; only the super administrator manages tenants; a role outside the table
  is granted nothing.
\<close>

lemma role_hierarchy_strict:
  "Collect (HasPermission RoleDriver) \<subset> Collect (HasPermission RoleDispatcher) \<and>
   Collect (HasPermission RoleDispatcher) \<subset> Collect (HasPermission RoleFleetManager) \<and>
   Collect (HasPermission RoleFleetManager) \<subset> Collect (HasPermission RoleTenantAdmin) \<and>
   Collect (HasPermission RoleTenantAdmin) \<subset> Collect (HasPermission RoleSuperAdmin) \<and>
   {role. HasPermission role PermManageTenants} = {RoleSuperAdmin} \<and>
   {role. \<exists>perm. HasPermission role perm} =
     {RoleSuperAdmin, RoleTenantAdmin, RoleFleetManager, RoleDispatcher, RoleDriver}"
proof -
  have c: "Collect (HasPermission role) = set (rolePermissions role)" for role
    by (auto simp: HasPermission_def has_permission_loop_iff)
  have "{role. HasPermission role PermManageTenants} = {RoleSuperAdmin}"
    by (auto simp: HasPermission_def has_permission_loop_iff rolePermissions_def perm_defs split: if_splits)
  moreover have "(\<exists>perm. HasPermission role perm) \<longleftrightarrow> rolePermissions role \<noteq> []" for role
    by (auto simp: HasPermission_def has_permission_loop_iff) (metis list.set_intros(1) neq_Nil_conv)
  then have "{role. \<exists>perm. HasPermission role perm} =
      {RoleSuperAdmin, RoleTenantAdmin, RoleFleetManager, RoleDispatcher, RoleDriver}"
    by (auto simp: rolePermissions_def split: if_splits)
  ultimately show ?thesis
    unfolding c by (simp add: rolePermissions_def role_defs perm_defs less_le_not_le)
qed

section \<open>Number formatting\<close>

lemma itoa_loop_fmt: "itoa_loop n buf = (if 0 < n then fmt_nat (nat n) else []) @ buf"
proof (induction n buf rule: itoa_loop.induct)
  case (1 n buf)
  show ?case
  proof (cases "0 < n")
    case False
    then show ?thesis by (simp add: itoa_loop.simps [of n])
  next
    case pos: True
    have nd: "nat (n div 10) = nat n div 10" "nat (n mod 10) = nat n mod 10"
      using pos by (simp_all add: nat_div_distrib nat_mod_distrib)
    have d: "nat (48 + n mod 10) = 48 + nat n mod 10" using pos nd by (simp add: nat_add_distrib)
    have IH: "itoa_loop (n div 10) (char_of (nat (48 + n mod 10)) # buf) =
        (if 0 < n div 10 then fmt_nat (nat (n div 10)) else []) @ char_of (nat (48 + n mod 10)) # buf"
      using 1 [OF pos] .
    show ?thesis
    proof (cases "n < 10")
      case True
      then have "n div 10 = 0" "nat n < 10" "nat n mod 10 = nat n" using pos by auto
      then show ?thesis using pos IH
        by (simp add: itoa_loop.simps [of n] d) (simp add: fmt_nat.simps [of "nat n"])
    next
      case False
      then have "0 < n div 10" "\<not> nat n < 10" by auto
      then show ?thesis using pos IH
        by (simp add: itoa_loop.simps [of n] d nd) (simp add: fmt_nat.simps [of "nat n"])
    qed
  qed
qed

text \<open>
  The hand-written integer printer agrees with decimal formatting on every 64-bit
  integer except the least one, for which it prints a lone minus sign.
\<close>

lemma itoa_decimal:
  assumes "- (2 ^ 63) \<le> n" "n < 2 ^ 63"
  shows "itoa n = (if n = - (2 ^ 63) then ''-'' else fmt_int n)"
proof -
  have "char_of (48 :: nat) = CHR ''0''" by code_simp
  then have z: "fmt_nat 0 = ''0''" by (simp add: fmt_nat.simps)
  show ?thesis
    using z by (auto simp: itoa_def neg64_def itoa_loop_fmt fmt_int_def Let_def)
qed

lemma itoa_decimal_witness: "itoa 1000 = fmt_int 1000 \<and> itoa (- (2 ^ 63)) = ''-''"
  using itoa_decimal [of 1000] itoa_decimal [of "- (2 ^ 63)"] by simp

section \<open>Protected routes\<close>

text \<open>
  A protected handler only runs for a bearer token that validates, and sees exactly that
  token's user, tenant and role.
\<close>

lemma protected_chain_token:
  assumes "fst (protected_chain incr expire m now header w) = Next c"
  shows "\<exists>tok claims. header = bearer @ tok \<and> Validate m now tok = Ok claims \<and>
     c = \<lparr>ctx_user_id = Some (cl_UserID claims), ctx_tenant_id = Some (cl_TenantID claims), ctx_role = Some (cl_Role claims)\<rparr> \<and>
     ctx_TenantID c \<noteq> []"
proof -
  from assms obtain c1 where mid: "auth_Middleware m now header empty_ctx = Next c1" and rls: "RLS c1 = Next c1"
    and same: "c = c1"
    by (auto simp: protected_chain_def RLS_def RateLimit_def Let_def split: flow.splits if_splits prod.splits outcome.splits)
  from mid obtain claims where
    pre: "take (length bearer) header = bearer" and val: "Validate m now (drop (length bearer) header) = Ok claims" and
    c1: "c1 = empty_ctx\<lparr>ctx_user_id := Some (cl_UserID claims), ctx_tenant_id := Some (cl_TenantID claims), ctx_role := Some (cl_Role claims)\<rparr>"
    by (auto simp: auth_Middleware_def split: if_splits outcome.splits)
  have "header = bearer @ drop (length bearer) header" using pre by (metis append_take_drop_id)
  moreover have "ctx_TenantID c \<noteq> []" using rls same by (auto simp: RLS_def split: if_splits)
  ultimately show ?thesis using val c1 same by (auto simp: empty_ctx_def)
qed

text \<open>
  The role in a token has no influence on whether a request reaches a protected
  handler: a token that differs only in its role, down to the lowest or an unknown one,
  passes exactly when the original does, because no route installs the permission check.
\<close>

lemma protected_chain_ignores_role:
  assumes "jwt_parse (mgr_jwt m) now tok = Ok claims" "jwt_parse (mgr_jwt m) now tok' = Ok (claims\<lparr>cl_Role := r\<rparr>)"
  shows "(\<exists>c. fst (protected_chain incr expire m now (bearer @ tok) w) = Next c) \<longleftrightarrow>
     (\<exists>c. fst (protected_chain incr expire m now (bearer @ tok') w) = Next c)"
proof -
  have "auth_Middleware m now (bearer @ tok) empty_ctx =
      Next \<lparr>ctx_user_id = Some (cl_UserID claims), ctx_tenant_id = Some (cl_TenantID claims), ctx_role = Some (cl_Role claims)\<rparr>"
    "auth_Middleware m now (bearer @ tok') empty_ctx =
      Next \<lparr>ctx_user_id = Some (cl_UserID claims), ctx_tenant_id = Some (cl_TenantID claims), ctx_role = Some r\<rparr>"
    using assms by (simp_all add: auth_Middleware_def Validate_def empty_ctx_def)
  then show ?thesis
    by (auto simp: protected_chain_def RLS_def RateLimit_def ctx_TenantID_def Let_def
        split: if_splits prod.splits outcome.splits)
qed

section \<open>Sessions\<close>

text \<open>What the code relies on of the JWT library: a token it signed parses back until it expires.\<close>

definition jwt_ok :: "jwt \<Rightarrow> bool" where
  "jwt_ok j \<longleftrightarrow> (\<forall>cl tok now. jwt_sign j cl = Ok tok \<longrightarrow> now < cl_ExpiresAt cl \<longrightarrow> jwt_parse j now tok = Ok cl)"

lemma login_valid:
  assumes "jwt_ok (mgr_jwt m)" "find_user email = Some u" "Login find_user pw_ok m t0 (Ok (email, pw)) = Tokens r" "now < t0 + accessTTL m"
  shows "pw_ok (u_password_hash u) pw \<and> (\<exists>claims. Validate m now (AccessToken r) = Ok claims \<and>
    cl_UserID claims = u_id u \<and> cl_TenantID claims = u_tenant_id u \<and> cl_Role claims = u_role u)"
proof -
  from assms(2,3) have "pw_ok (u_password_hash u) pw" and
    acc: "GenerateAccess m t0 (u_id u) (u_tenant_id u) (u_role u) = Ok (AccessToken r)"
    by (auto simp: Login_def issue_tokens_def split: if_splits outcome.splits)
  moreover have "Validate m now (AccessToken r) = Ok \<lparr>cl_UserID = u_id u, cl_TenantID = u_tenant_id u, cl_Role = u_role u,
      cl_IssuedAt = t0, cl_ExpiresAt = t0 + accessTTL m, cl_Issuer = ''gpsgo''\<rparr>"
    using assms(1,4) acc by (simp add: jwt_ok_def GenerateAccess_def mgr_sign_def Validate_def)
  ultimately show ?thesis by simp
qed

text \<open>
  A login with the right password yields tokens for the stored user: while the access
  token has not expired, requests carrying it reach the protected handlers (within the rate
  limit) as that user, with the tenant and role of the users table.
\<close>

lemma login_grants_access:
  assumes "jwt_ok (mgr_jwt m)" "find_user email = Some u" "Login find_user pw_ok m t0 (Ok (email, pw)) = Tokens r"
    "now < t0 + accessTTL m" "u_tenant_id u \<noteq> []" "incr (rate_key (u_tenant_id u)) w = (Ok count, w1)" "count \<le> 1000"
  shows "pw_ok (u_password_hash u) pw \<and>
    fst (protected_chain incr expire m now (bearer @ AccessToken r) w) =
      Next \<lparr>ctx_user_id = Some (u_id u), ctx_tenant_id = Some (u_tenant_id u), ctx_role = Some (u_role u)\<rparr>"
  using login_valid [OF assms(1-4)] assms(5-7)
  by (auto simp: protected_chain_def auth_Middleware_def RLS_def RateLimit_def ctx_TenantID_def empty_ctx_def Let_def)

text \<open>
  The refresh endpoint does not tell access tokens from refresh tokens: an unexpired
  access token is accepted and answered with a new refresh token for the same user.
\<close>

lemma access_token_is_refreshable:
  assumes "jwt_ok (mgr_jwt m)" "GenerateAccess m t0 uid tid role = Ok tok" "now < t0 + accessTTL m"
    "GenerateAccess m now uid tid role = Ok a" "GenerateRefresh m now uid tid role = Ok b"
  shows "auth_Refresh m now (Ok tok) = Tokens \<lparr>AccessToken = a, RefreshToken = b, ExpiresAt = now + 15 * 60, tr_User = None\<rparr>"
  using assms by (simp add: jwt_ok_def GenerateAccess_def [of _ t0] mgr_sign_def Validate_def auth_Refresh_def issue_tokens_def)

text \<open>A token library for the witnesses: one fixed set of claims has a token.\<close>

definition sample_claims :: Claims where
  "sample_claims = \<lparr>cl_UserID = ''u1'', cl_TenantID = ''t1'', cl_Role = RoleDriver, cl_IssuedAt = 0, cl_ExpiresAt = 900,
     cl_Issuer = ''gpsgo''\<rparr>"

definition sample_mgr :: Manager where
  "sample_mgr = \<lparr>mgr_jwt = \<lparr>jwt_sign = (\<lambda>cl. if cl = sample_claims then Ok ''tok'' else Err (Errorf ''no key'')),
     jwt_parse = (\<lambda>now tok. if tok = ''tok'' \<and> now < 900 then Ok sample_claims
       else if tok = ''adm'' \<and> now < 900 then Ok (sample_claims\<lparr>cl_Role := RoleSuperAdmin\<rparr>) else Err (Errorf ''token is invalid''))\<rparr>,
     accessTTL = 900, refreshTTL = 900\<rparr>"

lemma sample_mgr_ok: "jwt_ok (mgr_jwt sample_mgr)"
  by (auto simp: jwt_ok_def sample_mgr_def sample_claims_def split: if_splits)

lemma sample_mgr_issues:
  "GenerateAccess sample_mgr 0 ''u1'' ''t1'' RoleDriver = Ok ''tok''"
  "GenerateRefresh sample_mgr 0 ''u1'' ''t1'' RoleDriver = Ok ''tok''"
  by (simp_all add: GenerateAccess_def GenerateRefresh_def mgr_sign_def sample_mgr_def sample_claims_def)

lemma protected_chain_ignores_role_witness:
  "(\<exists>c. fst (protected_chain (\<lambda>k w. (Ok 1, w)) (\<lambda>k n w. w) sample_mgr 5 (bearer @ ''tok'') ()) = Next c) \<longleftrightarrow>
   (\<exists>c. fst (protected_chain (\<lambda>k w. (Ok 1, w)) (\<lambda>k n w. w) sample_mgr 5 (bearer @ ''adm'') ()) = Next c)"
  by (rule protected_chain_ignores_role [of sample_mgr 5 "''tok''" sample_claims "''adm''" RoleSuperAdmin])
    (simp_all add: sample_mgr_def)

lemma login_grants_access_witness:
  "fst (protected_chain (\<lambda>k w. (Ok 1, w)) (\<lambda>k n w. w) sample_mgr 5 (bearer @ ''tok'') ()) =
     Next \<lparr>ctx_user_id = Some ''u1'', ctx_tenant_id = Some ''t1'', ctx_role = Some RoleDriver\<rparr>"
proof -
  let ?u = "\<lparr>u_id = ''u1'', u_tenant_id = ''t1'', u_password_hash = ''h'', u_role = RoleDriver\<rparr>"
  have l: "Login (\<lambda>_. Some ?u) (\<lambda>h p. True) sample_mgr 0 (Ok (''a@b'', ''pw'')) =
      Tokens \<lparr>AccessToken = ''tok'', RefreshToken = ''tok'', ExpiresAt = 0 + 15 * 60, tr_User = Some \<lparr>ui_ID = u_id ?u, ui_TenantID = u_tenant_id ?u, ui_Email = ''a@b'', ui_Role = u_role ?u\<rparr>\<rparr>"
    by (simp add: Login_def issue_tokens_def sample_mgr_issues)
  have t: "(5 :: int) < 0 + accessTTL sample_mgr" by (simp add: sample_mgr_def)
  from login_grants_access [OF sample_mgr_ok _ l t, of ?u "\<lambda>k w. (Ok 1, w)" "()" 1 "()" "\<lambda>k n w. w"] show ?thesis
    by simp
qed

lemma access_token_is_refreshable_witness:
  "auth_Refresh sample_mgr 0 (Ok ''tok'') = Tokens \<lparr>AccessToken = ''tok'', RefreshToken = ''tok'', ExpiresAt = 900, tr_User = None\<rparr>"
  using access_token_is_refreshable [OF sample_mgr_ok sample_mgr_issues(1) _ sample_mgr_issues]
  by (simp add: sample_mgr_def)

end
