(* ===== verification/Ws_Handlers.thy ===== *)
theory Ws_Handlers
  imports Hub Auth Go_Strings
begin

text \<open>
  The two WebSocket endpoints (\<open>websocket-service/internal/handler/ws_handlers.go\<close>) up to the
  registration of the client with the hub. Upgrading the connection is the library's; its
  success is an argument (a failed upgrade has been answered by the library).
\<close>

section \<open>Endpoints\<close>

record ws_request =
  q_token :: string
  q_devices :: string
  hdr_Authorization :: string

definition LiveHandler_ServeWS :: "Manager \<Rightarrow> int \<Rightarrow> bool \<Rightarrow> ws_request \<Rightarrow> hub \<Rightarrow> hub flow" where
  "LiveHandler_ServeWS m now upgraded r h =
     (let token = (if q_token r = [] then TrimPrefix (hdr_Authorization r) ''Bearer '' else q_token r) in
      if token = [] then Abort 401 ''missing token''
      else (case Validate m now token of
              Ok claims \<Rightarrow>
                (let deviceFilter = (if q_devices r \<noteq> [] then Split (q_devices r) (CHR '','') else []) in
                 if \<not> upgraded then Abort 400 []
                 else Next (hub_Register (cl_TenantID claims) deviceFilter h))
            | _ \<Rightarrow> Abort 401 ''invalid token''))"

definition AlertHandler_ServeWS :: "Manager \<Rightarrow> int \<Rightarrow> bool \<Rightarrow> ws_request \<Rightarrow> hub \<Rightarrow> hub flow" where
  "AlertHandler_ServeWS m now upgraded r h =
     (if q_token r = [] then Abort 401 ''missing token''
      else (case Validate m now (q_token r) of
              Ok claims \<Rightarrow>
                (if \<not> upgraded then Abort 400 []
                 else Next (hub_Register (cl_TenantID claims @ ''_alerts'') [] h))
            | _ \<Rightarrow> Abort 401 ''invalid token''))"

section \<open>Tenant isolation of the live endpoint\<close>

text \<open>
  A live-position client is only ever registered for the tenant of a token that
  validates at that moment, and from then on, in every interleaving of the hub, whatever
  has been queued for or written to a client belongs to its tenant.
\<close>

lemma live_client_gets_own_tenant:
  assumes "LiveHandler_ServeWS m now up r h = Next h'" "hub_step\<^sup>*\<^sup>* hub_New h" "hub_step\<^sup>*\<^sup>* h' h2"
  shows "\<exists>claims. Validate m now (if q_token r = [] then TrimPrefix (hdr_Authorization r) ''Bearer '' else q_token r) = Ok claims \<and>
    c_tenantID (store h' (next_id h)) = cl_TenantID claims \<and>
    (\<forall>i msg. msg \<in> set (c_send (store h2 i)) \<union> set (c_got (store h2 i)) \<longrightarrow> m_tenantID msg = c_tenantID (store h2 i))"
proof -
  from assms(1) obtain claims ds where
    v: "Validate m now (if q_token r = [] then TrimPrefix (hdr_Authorization r) ''Bearer '' else q_token r) = Ok claims" and
    h': "h' = hub_Register (cl_TenantID claims) ds h"
    by (auto simp: LiveHandler_ServeWS_def Let_def split: if_splits outcome.splits)
  have "hub_step h h'" unfolding h' by (rule hub_step.connect)
  with assms(2,3) have "hub_step\<^sup>*\<^sup>* hub_New h2" by (meson rtranclp.rtrancl_into_rtrancl rtranclp_trans)
  from hub_inv_reachable [OF this] v show ?thesis
    by (auto simp: h' hub_Register_def new_client_def hub_inv_def)
qed

lemma live_client_gets_own_tenant_witness:
  "\<exists>h'. LiveHandler_ServeWS sample_mgr 5 True \<lparr>q_token = ''tok'', q_devices = ''d1,d2'', hdr_Authorization = []\<rparr> hub_New = Next h' \<and>
     c_tenantID (store h' 0) = ''t1''"
proof -
  let ?r = "\<lparr>q_token = ''tok'', q_devices = ''d1,d2'', hdr_Authorization = []\<rparr>"
  have v: "Validate sample_mgr 5 ''tok'' = Ok sample_claims" by (simp add: Validate_def sample_mgr_def)
  then obtain h' where h': "LiveHandler_ServeWS sample_mgr 5 True ?r hub_New = Next h'"
    by (auto simp: LiveHandler_ServeWS_def Let_def)
  have "c_tenantID (store h' 0) = ''t1''"
    using h' v by (auto simp: LiveHandler_ServeWS_def Let_def hub_Register_def hub_New_def new_client_def sample_claims_def)
  then show ?thesis
    using live_client_gets_own_tenant [OF h' rtranclp.rtrancl_refl rtranclp.rtrancl_refl] h' by blast
qed

end
