(* ===== verification/End_To_End.thy ===== *)
theory End_To_End
  imports Ingestion Stream_Processor Hub
begin

text \<open>
  Components put together: an emergency of an AIS140 device on its way through the ingestion
  service, the broker's message and the stream processor; and a position on its way from the
  broker through the stream processor and Redis to a browser.
\<close>



section \<open>From the broker to the browser\<close>

lemma deliver_other: "j \<noteq> i \<Longrightarrow> store (deliver msg j h) i = store h i"
  by (simp add: deliver_def)

lemma broadcast_other: "i \<notin> set order \<Longrightarrow> store (run_broadcast msg order h) i = store h i"
  by (induction order arbitrary: h) (auto simp: run_broadcast_def deliver_other)

text \<open>A client with room in its channel gets a message it wants, whatever the order of the loop.\<close>

lemma broadcast_client:
  assumes "i \<in> set order" "distinct order" "wants (store h i) msg" "\<not> c_closed (store h i)" "length (c_send (store h i)) < sendBuffer"
  shows "store (run_broadcast msg order h) i = (store h i)\<lparr>c_send := c_send (store h i) @ [msg]\<rparr>"
proof -
  obtain pre post where o: "order = pre @ i # post" using assms(1) by (meson split_list)
  with assms(2) have "i \<notin> set pre" "i \<notin> set post" by auto
  let ?h1 = "run_broadcast msg pre h"
  have "run_broadcast msg order h = run_broadcast msg post (deliver msg i ?h1)" by (simp add: o run_broadcast_def)
  with broadcast_other [OF \<open>i \<notin> set pre\<close>] broadcast_other [OF \<open>i \<notin> set post\<close>] assms(3-5) show ?thesis
    by (simp add: deliver_def)
qed

text \<open>The write pump writes the channel out in order.\<close>

lemma WritePump_drains:
  "c_send (store h i) = ms \<Longrightarrow> c_got (store ((WritePump_step i ^^ length ms) h) i) = c_got (store h i) @ ms"
proof (induction ms arbitrary: h)
  case (Cons m ms)
  then have "c_send (store (WritePump_step i h) i) = ms" "c_got (store (WritePump_step i h) i) = c_got (store h i) @ [m]"
    by (simp_all add: WritePump_step_def)
  with Cons.IH show ?case by (simp add: funpow_Suc_right del: funpow.simps)
qed simp



end
