(* ===== verification/Sql.thy ===== *)
theory Sql
  imports Prelude Go_Float "HOL-Library.Multiset"
begin

text \<open>
  The SQL that the API's handlers send, as data: a statement is a term, with the types
  PostgreSQL infers for its parameters, and is evaluated over the tables. What the driver
  pgx, PostGIS and the database's collation do is outside the program and is given by the
  record \<open>pg\<close>. A statement may be refused, and the connection may break after some of the
  rows have arrived. The services connect as the owner of the tables, to whom the
  row-level security policies of the migrations do not apply, and the schema's constraints
  are those of \<open>migrations/\<close>.
\<close>

section \<open>Values\<close>

text \<open>Column values; JSON documents and geometries are opaque texts.\<close>

datatype sval = SNull | SText string | SUuid string | SInt int | SFloat f64 | SBool bool | STime int | SDoc string

text \<open>Go values that go into statements and responses; \<open>GNil\<close> is a nil slice, map or pointer.\<close>

datatype goval = GNil | GStr string | GInt int | GFloat f64 | GBool bool | GTime int | GBytes string
  | GObj "(string \<times> goval) list" | GArr "goval list"

text \<open>The types of statement parameters (\<open>PAny\<close> where the statement does not fix one), and of the variables a row is scanned into.\<close>

datatype ptype = PText | PUuid | PInt | PTime | PAny

datatype dest = DString | DStringPtr | DTime | DTimePtr | DBool | DInt | DFloat | DBytes | DAny

type_synonym row = "string \<Rightarrow> sval"
type_synonym tables = "string \<Rightarrow> row list"

text \<open>
  The driver and the database's own functions during one request: encoding of arguments,
  \<open>rows.Scan\<close> (the variables afterwards and its error), \<open>rows.Values\<close>, SQL functions, the
  collation, the clock and the next generated key.
\<close>

record pg =
  pg_encode :: "ptype \<Rightarrow> goval \<Rightarrow> (goerr, sval) outcome"
  pg_scan :: "dest list \<Rightarrow> sval list \<Rightarrow> goval list \<times> goerr option"
  pg_values :: "sval list \<Rightarrow> (goerr, goval list) outcome"
  pg_fn :: "string \<Rightarrow> sval list \<Rightarrow> (goerr, sval) outcome"
  pg_collate :: "string \<Rightarrow> string \<Rightarrow> bool"
  pg_now :: int
  pg_fresh :: string

section \<open>Statements\<close>

datatype sexpr = Col string | Par nat | Lit sval | Now | Fn string "sexpr list"

datatype cond = Eq string sexpr | IsNull string | Between string sexpr sexpr

datatype agg = Count string | Sum string

datatype stmt =
    Select "sexpr list" string "cond list" "(string \<times> bool) option" "nat option"
  | Aggregate "agg list" string "cond list"
  | Insert string "(string \<times> sexpr) list" "string list"
  | Update string "(string \<times> sexpr) list" "cond list" "string list"

text \<open>The columns of an \<open>ORDER BY\<close> carry whether the order is descending.\<close>

type_synonym prepared = "ptype list \<times> stmt"

section \<open>Evaluation\<close>

primrec collect :: "('e, 'a) outcome list \<Rightarrow> ('e, 'a list) outcome" where
  "collect [] = Ok []"
| "collect (x # xs) = bind_o x (\<lambda>v. bind_o (collect xs) (\<lambda>vs. Ok (v # vs)))"

definition bad_arg :: goerr where
  "bad_arg = Errorf ''there is no parameter''"

primrec eval :: "pg \<Rightarrow> sval list \<Rightarrow> row \<Rightarrow> sexpr \<Rightarrow> (goerr, sval) outcome" where
  "eval pg vs r (Col c) = Ok (r c)"
| "eval pg vs r (Par i) = (if 1 \<le> i \<and> i \<le> length vs then Ok (vs ! (i - 1)) else Err bad_arg)"
| "eval pg vs r (Lit v) = Ok v"
| "eval pg vs r Now = Ok (STime (pg_now pg))"
| "eval pg vs r (Fn f es) = bind_o (collect (map (eval pg vs r) es)) (pg_fn pg f)"

text \<open>A comparison with NULL is not true.\<close>

fun sql_eq :: "sval \<Rightarrow> sval \<Rightarrow> bool" where
  "sql_eq a b \<longleftrightarrow> a \<noteq> SNull \<and> b \<noteq> SNull \<and> a = b"

fun in_range :: "sval \<Rightarrow> sval \<Rightarrow> sval \<Rightarrow> bool" where
  "in_range (STime t) (STime a) (STime b) \<longleftrightarrow> a \<le> t \<and> t \<le> b"
| "in_range x a b \<longleftrightarrow> False"

primrec holds :: "pg \<Rightarrow> sval list \<Rightarrow> row \<Rightarrow> cond \<Rightarrow> bool" where
  "holds pg vs r (Eq c e) \<longleftrightarrow> (case eval pg vs r e of Ok v \<Rightarrow> sql_eq (r c) v | _ \<Rightarrow> False)"
| "holds pg vs r (IsNull c) \<longleftrightarrow> r c = SNull"
| "holds pg vs r (Between c e1 e2) \<longleftrightarrow>
     (case eval pg vs r e1 of Ok a \<Rightarrow> (case eval pg vs r e2 of Ok b \<Rightarrow> in_range (r c) a b | _ \<Rightarrow> False) | _ \<Rightarrow> False)"

definition holds_all :: "pg \<Rightarrow> sval list \<Rightarrow> cond list \<Rightarrow> row \<Rightarrow> bool" where
  "holds_all pg vs cs r = list_all (holds pg vs r) cs"

text \<open>Ordering: texts by the collation, times by value, NULL after everything else.\<close>

fun sval_le :: "(string \<Rightarrow> string \<Rightarrow> bool) \<Rightarrow> sval \<Rightarrow> sval \<Rightarrow> bool" where
  "sval_le coll (SText a) (SText b) = coll a b"
| "sval_le coll (STime a) (STime b) = (a \<le> b)"
| "sval_le coll SNull SNull = True"
| "sval_le coll SNull b = False"
| "sval_le coll a b = True"

primrec insort_by :: "('a \<Rightarrow> 'a \<Rightarrow> bool) \<Rightarrow> 'a \<Rightarrow> 'a list \<Rightarrow> 'a list" where
  "insort_by le x [] = [x]"
| "insort_by le x (y # ys) = (if le x y then x # y # ys else y # insort_by le x ys)"

definition sort_by :: "('a \<Rightarrow> 'a \<Rightarrow> bool) \<Rightarrow> 'a list \<Rightarrow> 'a list" where
  "sort_by le xs = foldr (insort_by le) xs []"

fun order_rows :: "pg \<Rightarrow> (string \<times> bool) option \<Rightarrow> row list \<Rightarrow> row list" where
  "order_rows pg None rs = rs"
| "order_rows pg (Some (c, desc)) rs =
     sort_by (\<lambda>r1 r2. if desc then sval_le (pg_collate pg) (r2 c) (r1 c) else sval_le (pg_collate pg) (r1 c) (r2 c)) rs"

fun limit_rows :: "nat option \<Rightarrow> 'a list \<Rightarrow> 'a list" where
  "limit_rows None rs = rs"
| "limit_rows (Some n) rs = take n rs"

definition project :: "pg \<Rightarrow> sval list \<Rightarrow> sexpr list \<Rightarrow> row list \<Rightarrow> (goerr, sval list list) outcome" where
  "project pg vs es rs = collect (map (\<lambda>r. collect (map (eval pg vs r) es)) rs)"

fun int_of_sval :: "sval \<Rightarrow> int" where
  "int_of_sval (SInt i) = i"
| "int_of_sval v = 0"

text \<open>The aggregates, each under \<open>COALESCE(..., 0)\<close>: NULLs are neither counted nor summed.\<close>

fun eval_agg :: "row list \<Rightarrow> agg \<Rightarrow> sval" where
  "eval_agg rs (Count c) = SInt (int (length (filter (\<lambda>r. r c \<noteq> SNull) rs)))"
| "eval_agg rs (Sum c) = SInt (sum_list (map (\<lambda>r. int_of_sval (r c)) rs))"

section \<open>Schema\<close>

text \<open>What the migrations give a column that an insert leaves out.\<close>

definition defaults :: "pg \<Rightarrow> string \<Rightarrow> row" where
  "defaults pg t c =
     (if c = ''id'' then SUuid (pg_fresh pg)
      else if c \<in> {''created_at'', ''updated_at''} then STime (pg_now pg)
      else if t = ''devices'' \<and> c = ''protocol'' then SText ''teltonika''
      else if t = ''vehicles'' \<and> c = ''fuel_type'' then SText ''diesel''
      else if t = ''vehicles'' \<and> c = ''odometer_offset'' then SInt 0
      else if t = ''geofences'' \<and> c = ''color'' then SText ''#3B82F6''
      else if t = ''geofences'' \<and> c = ''is_active'' then SBool True
      else SNull)"

definition present :: "tables \<Rightarrow> string \<Rightarrow> sval \<Rightarrow> bool" where
  "present tabs t v \<longleftrightarrow> v = SNull \<or> list_ex (\<lambda>r. r ''id'' = v) (tabs t)"

definition unique_with :: "row list \<Rightarrow> string list \<Rightarrow> row \<Rightarrow> bool" where
  "unique_with rs cols r \<longleftrightarrow> \<not> list_ex (\<lambda>r'. list_all (\<lambda>c. sql_eq (r' c) (r c)) cols) rs"

text \<open>
  The constraints of the tables that the handlers write, for a row among the table's other
  rows: NOT NULL, UNIQUE, CHECK and foreign keys (a NULL reference is allowed).
\<close>

definition allowed :: "tables \<Rightarrow> string \<Rightarrow> row list \<Rightarrow> row \<Rightarrow> bool" where
  "allowed tabs t others r \<longleftrightarrow>
     (if t = ''devices'' then
        list_all (\<lambda>c. r c \<noteq> SNull) [''tenant_id'', ''imei'', ''name'', ''protocol''] \<and>
        unique_with others [''id''] r \<and> unique_with others [''tenant_id'', ''imei''] r \<and>
        present tabs ''tenants'' (r ''tenant_id'') \<and> present tabs ''vehicles'' (r ''vehicle_id'')
      else if t = ''vehicles'' then
        list_all (\<lambda>c. r c \<noteq> SNull) [''tenant_id'', ''registration''] \<and>
        unique_with others [''id''] r \<and> unique_with others [''tenant_id'', ''registration''] r \<and>
        present tabs ''tenants'' (r ''tenant_id'') \<and> present tabs ''devices'' (r ''device_id'')
      else if t = ''geofences'' then
        list_all (\<lambda>c. r c \<noteq> SNull) [''tenant_id'', ''name'', ''shape_type'', ''geometry''] \<and>
        unique_with others [''id''] r \<and>
        r ''shape_type'' \<in> {SText ''circle'', SText ''polygon'', SText ''corridor''} \<and>
        present tabs ''tenants'' (r ''tenant_id'')
      else if t = ''alerts'' then present tabs ''users'' (r ''acknowledged_by'')
      else if t = ''tenants'' then r ''settings'' \<noteq> SNull
      else True)"

section \<open>Execution\<close>

definition violation :: goerr where
  "violation = Errorf ''violates constraint''"

definition set_cols :: "(string \<times> sval) list \<Rightarrow> row \<Rightarrow> row" where
  "set_cols cvs r = foldl (\<lambda>r (c, v). r(c := v)) r cvs"

definition eval_sets :: "pg \<Rightarrow> sval list \<Rightarrow> row \<Rightarrow> (string \<times> sexpr) list \<Rightarrow> (goerr, (string \<times> sval) list) outcome" where
  "eval_sets pg vs r sets = collect (map (\<lambda>(c, e). bind_o (eval pg vs r e) (\<lambda>v. Ok (c, v))) sets)"

text \<open>
  An update goes through the rows in order; each changed row has to satisfy the
  constraints among the others. The result holds the rows afterwards and those changed.
\<close>

fun update_rows ::
  "pg \<Rightarrow> sval list \<Rightarrow> tables \<Rightarrow> string \<Rightarrow> (string \<times> sexpr) list \<Rightarrow> cond list \<Rightarrow> row list \<Rightarrow> row list \<Rightarrow> (goerr, row list \<times> row list) outcome" where
  "update_rows pg vs tabs t sets cs before [] = Ok ([], [])"
| "update_rows pg vs tabs t sets cs before (r # rs) =
     (if holds_all pg vs cs r
      then bind_o (eval_sets pg vs r sets) (\<lambda>cvs.
             let r' = set_cols cvs r in
             if allowed tabs t (before @ rs) r'
             then bind_o (update_rows pg vs tabs t sets cs (before @ [r']) rs) (\<lambda>(all, changed). Ok (r' # all, r' # changed))
             else Err violation)
      else bind_o (update_rows pg vs tabs t sets cs (before @ [r]) rs) (\<lambda>(all, changed). Ok (r # all, changed)))"

fun exec :: "pg \<Rightarrow> sval list \<Rightarrow> stmt \<Rightarrow> tables \<Rightarrow> (goerr, sval list list \<times> tables) outcome" where
  "exec pg vs (Select es t cs ord lmt) tabs =
     bind_o (project pg vs es (limit_rows lmt (order_rows pg ord (filter (holds_all pg vs cs) (tabs t)))))
       (\<lambda>rows. Ok (rows, tabs))"
| "exec pg vs (Aggregate aggs t cs) tabs = Ok ([map (eval_agg (filter (holds_all pg vs cs) (tabs t))) aggs], tabs)"
| "exec pg vs (Insert t sets ret) tabs =
     bind_o (eval_sets pg vs (defaults pg t) sets) (\<lambda>cvs.
       let r = set_cols cvs (defaults pg t) in
       if allowed tabs t (tabs t) r then Ok ([map r ret], tabs(t := tabs t @ [r])) else Err violation)"
| "exec pg vs (Update t sets cs ret) tabs =
     bind_o (update_rows pg vs tabs t sets cs [] (tabs t)) (\<lambda>(all, changed).
       Ok (map (\<lambda>r. map r ret) changed, tabs(t := all)))"

section \<open>The connection pool\<close>

text \<open>
  What can go wrong with a statement besides its own errors: it is refused before it runs,
  or it runs and the connection breaks after some rows have been delivered.
\<close>

datatype fault = Rejected goerr | Broken goerr nat

record dbstate =
  tabs :: tables
  faults :: "fault option list"

text \<open>The error of \<open>Query\<close> itself, the rows that arrive, and what \<open>rows.Err\<close> says at the end.\<close>

record answer =
  a_err :: "goerr option"
  a_rows :: "sval list list"
  a_end :: "goerr option"

definition next_fault :: "dbstate \<Rightarrow> fault option" where
  "next_fault s = (case faults s of [] \<Rightarrow> None | f # fs \<Rightarrow> f)"

definition run_stmt :: "pg \<Rightarrow> prepared \<Rightarrow> goval list \<Rightarrow> dbstate \<Rightarrow> answer \<times> dbstate" where
  "run_stmt pg p args s =
     (let s' = s\<lparr>faults := tl (faults s)\<rparr> in
      case next_fault s of
        Some (Rejected e) \<Rightarrow> (\<lparr>a_err = Some e, a_rows = [], a_end = Some e\<rparr>, s')
      | flt \<Rightarrow>
          (case collect (map2 (pg_encode pg) (fst p) args) of
             Ok vs \<Rightarrow>
               (case exec pg vs (snd p) (tabs s) of
                  Ok (rows, ts) \<Rightarrow>
                    (case flt of
                       Some (Broken e k) \<Rightarrow> (\<lparr>a_err = None, a_rows = take k rows, a_end = Some e\<rparr>, s'\<lparr>tabs := ts\<rparr>)
                     | _ \<Rightarrow> (\<lparr>a_err = None, a_rows = rows, a_end = None\<rparr>, s'\<lparr>tabs := ts\<rparr>))
                | Err e \<Rightarrow> (\<lparr>a_err = None, a_rows = [], a_end = Some e\<rparr>, s')
                | Panic \<Rightarrow> (\<lparr>a_err = None, a_rows = [], a_end = Some violation\<rparr>, s'))
           | Err e \<Rightarrow> (\<lparr>a_err = Some e, a_rows = [], a_end = Some e\<rparr>, s')
           | Panic \<Rightarrow> (\<lparr>a_err = Some bad_arg, a_rows = [], a_end = Some bad_arg\<rparr>, s')))"

definition no_rows :: goerr where
  "no_rows = Errorf ''no rows in result set''"

text \<open>
  \<open>QueryRow(...).Scan\<close>: the variables, if a row came to be scanned, and the error. The row
  is read, scanned, and then the end of the result is waited for.
\<close>

definition scan_row :: "pg \<Rightarrow> dest list \<Rightarrow> answer \<Rightarrow> goval list option \<times> goerr option" where
  "scan_row pg ds a =
     (case a_err a of
        Some e \<Rightarrow> (None, Some e)
      | None \<Rightarrow>
          (case a_rows a of
             [] \<Rightarrow> (None, Some (case a_end a of Some e \<Rightarrow> e | None \<Rightarrow> no_rows))
           | r # rs \<Rightarrow> (case pg_scan pg ds r of
                          (vs, Some e) \<Rightarrow> (Some vs, Some e)
                        | (vs, None) \<Rightarrow> (Some vs, a_end a))))"

text \<open>The error of \<open>Exec\<close>.\<close>

definition exec_err :: "answer \<Rightarrow> goerr option" where
  "exec_err a = (case a_err a of Some e \<Rightarrow> Some e | None \<Rightarrow> a_end a)"

section \<open>Documented behaviour of the driver\<close>

text \<open>
  What the theorems about single endpoints use of pgx: strings are sent as text or, if they
  are one, as a UUID in its canonical form (\<open>uuid\<close>), nil as NULL, instants with microseconds;
  a row whose values fit the variables is scanned into them; NULL fits pointers only.
\<close>

fun go_of :: "sval \<Rightarrow> goval" where
  "go_of SNull = GNil"
| "go_of (SText s) = GStr s"
| "go_of (SUuid s) = GStr s"
| "go_of (SInt i) = GInt i"
| "go_of (SFloat f) = GFloat f"
| "go_of (SBool b) = GBool b"
| "go_of (STime t) = GTime (t * 1000)"
| "go_of (SDoc d) = GBytes d"

fun fits :: "dest \<Rightarrow> sval \<Rightarrow> bool" where
  "fits DString v \<longleftrightarrow> (case v of SText s \<Rightarrow> True | SUuid s \<Rightarrow> True | _ \<Rightarrow> False)"
| "fits DStringPtr v \<longleftrightarrow> (case v of SText s \<Rightarrow> True | SUuid s \<Rightarrow> True | SNull \<Rightarrow> True | _ \<Rightarrow> False)"
| "fits DTime v \<longleftrightarrow> (case v of STime t \<Rightarrow> True | _ \<Rightarrow> False)"
| "fits DTimePtr v \<longleftrightarrow> (case v of STime t \<Rightarrow> True | SNull \<Rightarrow> True | _ \<Rightarrow> False)"
| "fits DBool v \<longleftrightarrow> (case v of SBool b \<Rightarrow> True | _ \<Rightarrow> False)"
| "fits DInt v \<longleftrightarrow> (case v of SInt i \<Rightarrow> True | _ \<Rightarrow> False)"
| "fits DFloat v \<longleftrightarrow> (case v of SFloat f \<Rightarrow> True | _ \<Rightarrow> False)"
| "fits DBytes v \<longleftrightarrow> (case v of SDoc d \<Rightarrow> True | SNull \<Rightarrow> True | _ \<Rightarrow> False)"
| "fits DAny v \<longleftrightarrow> True"

definition encodes_as_documented :: "(string \<Rightarrow> string option) \<Rightarrow> pg \<Rightarrow> bool" where
  "encodes_as_documented uuid pg \<longleftrightarrow>
     (\<forall>s. pg_encode pg PText (GStr s) = Ok (SText s)) \<and>
     (\<forall>s u. uuid s = Some u \<longrightarrow> pg_encode pg PUuid (GStr s) = Ok (SUuid u)) \<and>
     (\<forall>s. uuid s = None \<longrightarrow> (\<exists>e. pg_encode pg PUuid (GStr s) = Err e)) \<and>
     pg_encode pg PUuid GNil = Ok SNull \<and>
     (\<forall>t. pg_encode pg PTime (GTime t) = Ok (STime (t div 1000)))"

definition scans_as_documented :: "pg \<Rightarrow> bool" where
  "scans_as_documented pg \<longleftrightarrow>
     (\<forall>ds vs. list_all2 fits ds vs \<longrightarrow> pg_scan pg ds vs = (map go_of vs, None)) \<and>
     (\<forall>ds vs. length ds = length vs \<and> (\<exists>i < length ds. vs ! i = SNull \<and> \<not> fits (ds ! i) SNull) \<longrightarrow>
        snd (pg_scan pg ds vs) \<noteq> None)"

text \<open>An instance, in which every string is its own canonical UUID.\<close>

fun sample_encode :: "ptype \<Rightarrow> goval \<Rightarrow> (goerr, sval) outcome" where
  "sample_encode PText (GStr s) = Ok (SText s)"
| "sample_encode PUuid (GStr s) = Ok (SUuid s)"
| "sample_encode PTime (GTime t) = Ok (STime (t div 1000))"
| "sample_encode PInt (GInt i) = Ok (SInt i)"
| "sample_encode PAny v = Err (Errorf ''could not determine data type of parameter'')"
| "sample_encode ty GNil = Ok SNull"
| "sample_encode ty v = Err (Errorf ''unable to encode'')"

definition sample_pg :: pg where
  "sample_pg = \<lparr>pg_encode = sample_encode,
     pg_scan = (\<lambda>ds vs. if list_all2 fits ds vs then (map go_of vs, None) else ([], Some (Errorf ''cannot scan''))),
     pg_values = (\<lambda>vs. Ok (map go_of vs)), pg_fn = (\<lambda>f vs. Ok (case vs of [] \<Rightarrow> SNull | v # _ \<Rightarrow> v)),
     pg_collate = (\<lambda>a b. True), pg_now = 1000, pg_fresh = ''new-id''\<rparr>"

lemma sample_pg_encodes: "encodes_as_documented Some sample_pg"
  by (simp add: encodes_as_documented_def sample_pg_def)

lemma sample_pg_scans: "scans_as_documented sample_pg"
proof -
  have "\<not> list_all2 fits ds vs" if "length ds = length vs" "i < length ds" "vs ! i = SNull" "\<not> fits (ds ! i) SNull" for ds vs i
    using that by (auto simp: list_all2_conv_all_nth)
  then show ?thesis by (auto simp: scans_as_documented_def sample_pg_def)
qed

section \<open>Assigned columns\<close>

lemma set_cols_other: "c \<notin> fst ` set cvs \<Longrightarrow> set_cols cvs r c = r c"
  by (induction cvs arbitrary: r) (auto simp: set_cols_def)

lemma eval_sets_cols: "eval_sets pg vs r sets = Ok cvs \<Longrightarrow> map fst cvs = map fst sets"
  by (induction sets arbitrary: cvs) (auto simp: eval_sets_def)

lemma set_cols_value:
  "distinct (map fst cvs) \<Longrightarrow> (c, v) \<in> set cvs \<Longrightarrow> set_cols cvs r c = v"
proof (induction cvs arbitrary: r)
  case (Cons cv cvs)
  then show ?case using set_cols_other [of c cvs] by (cases cv) (auto simp: set_cols_def)
qed simp

lemma eval_sets_value:
  "eval_sets pg vs r sets = Ok cvs \<Longrightarrow> (c, e) \<in> set sets \<Longrightarrow> \<exists>v. eval pg vs r e = Ok v \<and> (c, v) \<in> set cvs"
  by (induction sets arbitrary: cvs) (auto simp: eval_sets_def)

section \<open>Statements that succeed\<close>

lemma run_stmt_clean:
  assumes "next_fault s = None" "collect (map2 (pg_encode pg) (fst p) args) = Ok vs" "exec pg vs (snd p) (tabs s) = Ok (rows, ts)"
  shows "run_stmt pg p args s = (\<lparr>a_err = None, a_rows = rows, a_end = None\<rparr>, s\<lparr>faults := tl (faults s), tabs := ts\<rparr>)"
  using assms by (simp add: run_stmt_def Let_def)

lemma run_stmt_delivers:
  assumes "run_stmt pg p args s = (q, s')" "a_rows q \<noteq> [] \<or> exec_err q = None"
  shows "\<exists>vs rows. collect (map2 (pg_encode pg) (fst p) args) = Ok vs \<and> exec pg vs (snd p) (tabs s) = Ok (rows, tabs s') \<and>
    a_err q = None \<and> (\<exists>k. a_rows q = take k rows)"
proof -
  have all: "\<exists>k. rows = take k rows" for rows :: "sval list list" by (rule exI [of _ "length rows"]) simp
  show ?thesis
    using assms all by (auto simp: run_stmt_def Let_def exec_err_def split: option.splits fault.splits outcome.splits)
qed

lemma scan_row_Ok:
  assumes "scan_row pg ds q = (Some vs, None)"
  shows "a_err q = None \<and> a_end q = None \<and> (\<exists>r rs. a_rows q = r # rs \<and> pg_scan pg ds r = (vs, None))"
  using assms by (auto simp: scan_row_def split: option.splits list.splits prod.splits)

lemma documented_encode:
  assumes "encodes_as_documented uuid pg"
  shows "pg_encode pg PText (GStr x) = Ok (SText x)"
    "pg_encode pg PUuid (GStr x) = Ok v \<longleftrightarrow> (\<exists>u. uuid x = Some u \<and> v = SUuid u)"
    "pg_encode pg PUuid GNil = Ok SNull" "pg_encode pg PTime (GTime t) = Ok (STime (t div 1000))"
proof -
  show "pg_encode pg PUuid (GStr x) = Ok v \<longleftrightarrow> (\<exists>u. uuid x = Some u \<and> v = SUuid u)"
  proof (cases "uuid x")
    case None
    then obtain e where "pg_encode pg PUuid (GStr x) = Err e" using assms unfolding encodes_as_documented_def by blast
    with None show ?thesis by simp
  qed (use assms in \<open>auto simp: encodes_as_documented_def\<close>)
qed (use assms in \<open>auto simp: encodes_as_documented_def\<close>)

lemma documented_scan:
  "scans_as_documented pg \<Longrightarrow> list_all2 fits ds vs \<Longrightarrow> pg_scan pg ds vs = (map go_of vs, None)"
  by (simp add: scans_as_documented_def)

lemma project_cols: "project pg vs (map Col cols) rs = Ok (map (\<lambda>r. map r cols) rs)"
proof -
  have c: "collect (map Ok xs) = Ok xs" for xs :: "'b list" by (induction xs) auto
  have "collect (map (eval pg vs r) (map Col cols)) = Ok (map r cols)" for r
    using c [of "map r cols"] by (simp add: comp_def)
  then have "project pg vs (map Col cols) rs = collect (map Ok (map (\<lambda>r. map r cols) rs))" by (simp add: project_def comp_def)
  then show ?thesis by (simp only: c)
qed

text \<open>A user found by e-mail address is one of the table, scanned as it is stored.\<close>

lemma selected_by_email:
  assumes "run_stmt pg ([PText], Select (map Col cols) ''users'' [Eq ''email'' (Par 1), IsNull ''deleted_at''] None None) [GStr email] s = (q, s')"
    and "encodes_as_documented uuid pg" "scans_as_documented pg" "scan_row pg ds q = (Some vs, None)"
    and "list_all (\<lambda>r. list_all2 fits ds (map r cols)) (tabs s ''users'')"
  shows "\<exists>r \<in> set (tabs s ''users''). r ''email'' = SText email \<and> r ''deleted_at'' = SNull \<and> map (\<lambda>c. go_of (r c)) cols = vs"
proof -
  from scan_row_Ok [OF assms(4)] obtain x xs where x: "a_rows q = x # xs" "pg_scan pg ds x = (vs, None)" by blast
  from run_stmt_delivers [OF assms(1)] x(1) obtain ws rows k where
    v: "collect (map2 (pg_encode pg) [PText] [GStr email]) = Ok ws"
      "exec pg ws (Select (map Col cols) ''users'' [Eq ''email'' (Par 1), IsNull ''deleted_at''] None None) (tabs s) = Ok (rows, tabs s')"
      "x # xs = take k rows" by auto
  from v(1) have ws: "ws = [SText email]" by (auto simp: documented_encode [OF assms(2)])
  from v(3) have "x \<in> set rows" by (metis in_set_takeD list.set_intros(1))
  with v(2) obtain r where r: "r \<in> set (tabs s ''users'')" "r ''email'' = SText email" "r ''deleted_at'' = SNull" "x = map r cols"
    using project_cols [of pg ws cols] by (auto simp: ws holds_all_def)
  have "map go_of x = vs" using documented_scan [OF assms(3), of ds x] assms(5) r(1,4) x(2) by (auto simp: list_all_iff)
  with r show ?thesis by (auto simp: comp_def)
qed

end
