(* ===== verification/Tenancy.thy ===== *)
theory Tenancy
  imports Sql
begin

text \<open>
  Which rows belong to a tenant, and a check on statements: a statement whose conditions
  (or inserted values) fix the tenant column to the request's tenant neither depends on
  other tenants' rows nor changes them. The check is by the form of the statement, so that
  each handler's statement is discharged by evaluation.
\<close>

section \<open>Rows of a tenant\<close>

definition owner_col :: "string \<Rightarrow> string" where
  "owner_col t = (if t = ''tenants'' then ''id'' else ''tenant_id'')"

definition belongs :: "pg \<Rightarrow> string \<Rightarrow> string \<Rightarrow> row \<Rightarrow> bool" where
  "belongs pg tn t r \<longleftrightarrow> list_ex (\<lambda>ty. pg_encode pg ty (GStr tn) = Ok (r (owner_col t))) [PText, PUuid]"

definition own_rows :: "pg \<Rightarrow> string \<Rightarrow> dbstate \<Rightarrow> string \<Rightarrow> row list" where
  "own_rows pg tn s t = filter (belongs pg tn t) (tabs s t)"

definition other_rows :: "pg \<Rightarrow> string \<Rightarrow> dbstate \<Rightarrow> string \<Rightarrow> row list" where
  "other_rows pg tn s t = filter (\<lambda>r. \<not> belongs pg tn t r) (tabs s t)"

text \<open>Two databases that a tenant cannot tell apart.\<close>

definition same_view :: "pg \<Rightarrow> string \<Rightarrow> dbstate \<Rightarrow> dbstate \<Rightarrow> bool" where
  "same_view pg tn s1 s2 \<longleftrightarrow> own_rows pg tn s1 = own_rows pg tn s2 \<and> faults s1 = faults s2"

section \<open>Guarded statements\<close>

fun guarded :: "nat \<Rightarrow> prepared \<Rightarrow> bool" where
  "guarded i (pts, st) \<longleftrightarrow>
     1 \<le> i \<and> i \<le> length pts \<and> pts ! (i - 1) \<in> {PText, PUuid} \<and>
     (case st of
        Select es t cs ord lmt \<Rightarrow> Eq (owner_col t) (Par i) \<in> set cs
      | Aggregate aggs t cs \<Rightarrow> Eq (owner_col t) (Par i) \<in> set cs
      | Insert t sets ret \<Rightarrow> (owner_col t, Par i) \<in> set sets \<and> distinct (map fst sets)
      | Update t sets cs ret \<Rightarrow> Eq (owner_col t) (Par i) \<in> set cs \<and> owner_col t \<notin> fst ` set sets)"

fun reads_only :: "prepared \<Rightarrow> bool" where
  "reads_only (pts, Select es t cs ord lmt) = True"
| "reads_only (pts, Aggregate aggs t cs) = True"
| "reads_only (pts, st) = False"

lemma collect_Ok:
  "collect xs = Ok vs \<Longrightarrow> length vs = length xs \<and> (\<forall>i < length xs. xs ! i = Ok (vs ! i))"
proof (induction xs arbitrary: vs)
  case (Cons x xs)
  from Cons.prems obtain v vs' where v: "x = Ok v" "collect xs = Ok vs'" "vs = v # vs'" by auto
  show ?case
  proof (intro conjI allI impI)
    show "length vs = length (x # xs)" using Cons.IH [OF v(2)] v(3) by simp
    fix i assume "i < length (x # xs)"
    then show "(x # xs) ! i = Ok (vs ! i)" using Cons.IH [OF v(2)] v by (cases i) auto
  qed
qed simp

lemma encoded_arg:
  assumes "collect (map2 (pg_encode pg) pts args) = Ok vs" "1 \<le> i" "i \<le> length pts" "length args = length pts"
    "args ! (i - 1) = GStr tn"
  shows "i \<le> length vs \<and> pg_encode pg (pts ! (i - 1)) (GStr tn) = Ok (vs ! (i - 1))"
proof -
  from assms(2-4) have "i - 1 < length (map2 (pg_encode pg) pts args)" by simp
  with collect_Ok [OF assms(1)] have "length vs = length pts"
    "map2 (pg_encode pg) pts args ! (i - 1) = Ok (vs ! (i - 1))" using assms(4) by auto
  then show ?thesis using assms by simp
qed

text \<open>The encoded arguments \<open>vs\<close> have the request's tenant at position \<open>i\<close>.\<close>

definition tenant_arg :: "pg \<Rightarrow> nat \<Rightarrow> string \<Rightarrow> sval list \<Rightarrow> bool" where
  "tenant_arg pg i tn vs \<longleftrightarrow>
     1 \<le> i \<and> i \<le> length vs \<and> list_ex (\<lambda>ty. pg_encode pg ty (GStr tn) = Ok (vs ! (i - 1))) [PText, PUuid]"

lemma tenant_arg_encoded:
  assumes "collect (map2 (pg_encode pg) pts args) = Ok vs" "guarded i (pts, st)" "length args = length pts"
    "args ! (i - 1) = GStr tn"
  shows "tenant_arg pg i tn vs"
  using encoded_arg [OF assms(1) _ _ assms(3,4)] assms(2) by (auto simp: tenant_arg_def)

lemma arg_value: "tenant_arg pg i tn vs \<Longrightarrow> eval pg vs r (Par i) = Ok (vs ! (i - 1))"
  by (simp add: tenant_arg_def)

lemma arg_owner: "tenant_arg pg i tn vs \<Longrightarrow> r (owner_col t) = vs ! (i - 1) \<Longrightarrow> belongs pg tn t r"
  by (simp add: belongs_def tenant_arg_def)

lemma guard_owner:
  assumes "tenant_arg pg i tn vs" "Eq (owner_col t) (Par i) \<in> set cs" "holds_all pg vs cs r"
  shows "belongs pg tn t r"
proof -
  have "holds pg vs r (Eq (owner_col t) (Par i))" using assms(2,3) unfolding holds_all_def list_all_iff by blast
  then show ?thesis by (intro arg_owner [OF assms(1)]) (simp add: arg_value [OF assms(1)] del: eval.simps)
qed

lemma guard_filter:
  assumes "tenant_arg pg i tn vs" "Eq (owner_col t) (Par i) \<in> set cs"
  shows "filter (holds_all pg vs cs) rs = filter (holds_all pg vs cs) (filter (belongs pg tn t) rs)"
  using guard_owner [OF assms] by (auto simp: filter_filter intro!: filter_cong)

lemma update_confined:
  assumes "tenant_arg pg i tn vs" "Eq (owner_col t) (Par i) \<in> set cs" "owner_col t \<notin> fst ` set sets"
  shows "update_rows pg vs ts t sets cs before rs = Ok (all', changed) \<Longrightarrow>
    filter (\<lambda>r. \<not> belongs pg tn t r) all' = filter (\<lambda>r. \<not> belongs pg tn t r) rs"
proof (induction rs arbitrary: before all' changed)
  case (Cons r rs)
  show ?case
  proof (cases "holds_all pg vs cs r")
    case True
    with Cons.prems obtain cvs all2 changed2 where cvs: "eval_sets pg vs r sets = Ok cvs" and
      u: "update_rows pg vs ts t sets cs (before @ [set_cols cvs r]) rs = Ok (all2, changed2)" "all' = set_cols cvs r # all2"
      by (auto simp: Let_def split: if_splits)
    have "fst ` set cvs = fst ` set sets" using eval_sets_cols [OF cvs] by (metis list.set_map)
    then have "set_cols cvs r (owner_col t) = r (owner_col t)" using assms(3) by (simp add: set_cols_other)
    moreover have "belongs pg tn t r" using guard_owner [OF assms(1,2) True] .
    ultimately have "belongs pg tn t (set_cols cvs r)" by (simp add: belongs_def)
    with \<open>belongs pg tn t r\<close> Cons.IH [OF u(1)] u(2) show ?thesis by simp
  next
    case False
    with Cons.prems Cons.IH show ?thesis by (auto split: if_splits)
  qed
qed simp

lemma insert_own:
  assumes "tenant_arg pg i tn vs" "(owner_col t, Par i) \<in> set sets" "distinct (map fst sets)" "eval_sets pg vs d sets = Ok cvs"
  shows "belongs pg tn t (set_cols cvs d)"
proof -
  have "(owner_col t, vs ! (i - 1)) \<in> set cvs" using eval_sets_value [OF assms(4,2)] arg_value [OF assms(1), of d] by auto
  moreover have "distinct (map fst cvs)" using assms(3) eval_sets_cols [OF assms(4)] by simp
  ultimately show ?thesis using set_cols_value arg_owner [OF assms(1)] by blast
qed

lemma exec_confined:
  assumes "tenant_arg pg i tn vs" "guarded i (pts, st)" "exec pg vs st ts = Ok (rows, ts')"
  shows "filter (\<lambda>r. \<not> belongs pg tn t r) (ts' t) = filter (\<lambda>r. \<not> belongs pg tn t r) (ts t)"
proof (cases st)
  case (Insert t' sets ret)
  with assms show ?thesis using insert_own [OF assms(1), of t' sets "defaults pg t'"] by (auto simp: Let_def split: if_splits)
next
  case (Update t' sets cs ret)
  with assms obtain all' changed where "update_rows pg vs ts t' sets cs [] (ts t') = Ok (all', changed)" "ts' = ts(t' := all')"
    by auto
  with update_confined [OF assms(1), of t' cs sets ts "[]" "ts t'" all' changed] assms(2) Update show ?thesis by auto
qed (use assms in auto)

text \<open>The rows a reading statement yields, and that it leaves the tables alone.\<close>

lemma exec_reads: "reads_only (pts, st) \<Longrightarrow> exec pg vs st ts = Ok (rows, ts') \<Longrightarrow> ts' = ts"
  by (cases st) auto

lemma exec_private:
  assumes "tenant_arg pg i tn vs" "guarded i (pts, st)" "reads_only (pts, st)"
    "\<And>t. filter (belongs pg tn t) (ts1 t) = filter (belongs pg tn t) (ts2 t)"
  shows "bind_o (exec pg vs st ts1) (\<lambda>x. Ok (fst x)) = bind_o (exec pg vs st ts2) (\<lambda>x. Ok (fst x))"
proof (cases st)
  case (Select es t cs ord lmt)
  with assms(2) have g: "Eq (owner_col t) (Par i) \<in> set cs" by simp
  have "filter (holds_all pg vs cs) (ts1 t) = filter (holds_all pg vs cs) (ts2 t)"
    using guard_filter [OF assms(1) g] assms(4) by metis
  with Select show ?thesis
    by (cases "project pg vs es (limit_rows lmt (order_rows pg ord (filter (holds_all pg vs cs) (ts2 t))))") auto
next
  case (Aggregate aggs t cs)
  with assms(2) have g: "Eq (owner_col t) (Par i) \<in> set cs" by simp
  have "filter (holds_all pg vs cs) (ts1 t) = filter (holds_all pg vs cs) (ts2 t)"
    using guard_filter [OF assms(1) g] assms(4) by metis
  with Aggregate show ?thesis by simp
qed (use assms(3) in auto)

section \<open>Statements on the connection pool\<close>

lemma run_stmt_confined:
  assumes "guarded i p" "length args = length (fst p)" "args ! (i - 1) = GStr tn"
  shows "other_rows pg tn (snd (run_stmt pg p args s)) = other_rows pg tn s"
proof -
  obtain pts st where p: "p = (pts, st)" by fastforce
  have "filter (\<lambda>r. \<not> belongs pg tn t r) (ts' t) = filter (\<lambda>r. \<not> belongs pg tn t r) (tabs s t)"
    if "collect (map2 (pg_encode pg) pts args) = Ok vs" "exec pg vs st (tabs s) = Ok (rows, ts')" for vs rows ts' t
  proof -
    have "tenant_arg pg i tn vs" using tenant_arg_encoded [OF that(1)] assms unfolding p fst_conv by blast
    from exec_confined [OF this assms(1) [unfolded p] that(2)] show ?thesis .
  qed
  then show ?thesis
    by (auto simp: run_stmt_def p other_rows_def Let_def fun_eq_iff split: option.splits fault.splits outcome.splits)
qed

lemma run_stmt_reads: "reads_only p \<Longrightarrow> tabs (snd (run_stmt pg p args s)) = tabs s"
  using exec_reads [of "fst p" "snd p"]
  by (auto simp: run_stmt_def Let_def split: option.splits fault.splits outcome.splits)

lemma run_stmt_private:
  assumes "guarded i p" "reads_only p" "length args = length (fst p)" "args ! (i - 1) = GStr tn" "same_view pg tn s1 s2"
  shows "fst (run_stmt pg p args s1) = fst (run_stmt pg p args s2) \<and>
    same_view pg tn (snd (run_stmt pg p args s1)) (snd (run_stmt pg p args s2))"
proof
  obtain pts st where p: "p = (pts, st)" by fastforce
  have fl: "faults s1 = faults s2" and
    own: "filter (belongs pg tn t) (tabs s1 t) = filter (belongs pg tn t) (tabs s2 t)" for t
    using assms(5) by (auto simp: same_view_def own_rows_def fun_eq_iff)
  have eq: "bind_o (exec pg vs st (tabs s1)) (\<lambda>x. Ok (fst x)) = bind_o (exec pg vs st (tabs s2)) (\<lambda>x. Ok (fst x))"
    if "collect (map2 (pg_encode pg) pts args) = Ok vs" for vs
  proof -
    have "tenant_arg pg i tn vs" using tenant_arg_encoded [OF that] assms unfolding p fst_conv by blast
    from exec_private [OF this assms(1,2) [unfolded p] own] show ?thesis .
  qed
  show "fst (run_stmt pg p args s1) = fst (run_stmt pg p args s2)"
  proof (cases "collect (map2 (pg_encode pg) pts args)")
    case (Ok vs)
    from eq [OF this] show ?thesis
      by (cases "exec pg vs st (tabs s1)"; cases "exec pg vs st (tabs s2)")
        (auto simp: run_stmt_def p Ok Let_def fl next_fault_def split: option.splits fault.splits)
  qed (auto simp: run_stmt_def p Let_def fl next_fault_def split: option.splits fault.splits)
  have "faults (snd (run_stmt pg p args s)) = tl (faults s)" for s
    by (auto simp: run_stmt_def Let_def split: option.splits fault.splits outcome.splits)
  then show "same_view pg tn (snd (run_stmt pg p args s1)) (snd (run_stmt pg p args s2))"
    using run_stmt_reads [OF assms(2)] assms(5) by (simp add: same_view_def own_rows_def fun_eq_iff)
qed

end
