(* ===== verification/Rfc3339.thy ===== *)
theory Rfc3339
  imports Go_Strings Go_Time
begin

text \<open>
  \<open>time.Parse(time.RFC3339, s)\<close> of Go's standard library: the layout
  \<open>2006-01-02T15:04:05Z07:00\<close>, with an hour of one or two digits and an optional fraction
  of a second, as the parser has it. The result is an instant in nanoseconds since 1970.
\<close>

definition errBad :: goerr where
  "errBad = Errorf ''bad value for field''"

text \<open>Two digits, or one if the field is not fixed; the rest of the input.\<close>

fun getnum :: "bool \<Rightarrow> string \<Rightarrow> (goerr, int \<times> string) outcome" where
  "getnum fixed [] = Err errBad"
| "getnum fixed (c # s) =
     (case digit_val c of
        None \<Rightarrow> Err errBad
      | Some d \<Rightarrow>
          (case s of
             c' # s' \<Rightarrow> (case digit_val c' of
                           Some d' \<Rightarrow> Ok (int (d * 10 + d'), s')
                         | None \<Rightarrow> if fixed then Err errBad else Ok (int d, s))
           | [] \<Rightarrow> if fixed then Err errBad else Ok (int d, s)))"

fun skip :: "char \<Rightarrow> string \<Rightarrow> (goerr, string) outcome" where
  "skip ch [] = Err errBad"
| "skip ch (c # s) = (if c = ch then Ok s else Err errBad)"

definition getyear :: "string \<Rightarrow> (goerr, int \<times> string) outcome" where
  "getyear s =
     (if length s < 4 then Err errBad
      else (case read_digits 0 (take 4 s) of Some n \<Rightarrow> Ok (int n, drop 4 s) | None \<Rightarrow> Err errBad))"

definition is_num :: "char \<Rightarrow> bool" where
  "is_num c \<longleftrightarrow> digit_val c \<noteq> None"

text \<open>A fraction after the seconds, at most nine of its digits counting.\<close>

definition getfrac :: "string \<Rightarrow> int \<times> string" where
  "getfrac s =
     (if 2 \<le> length s \<and> (hd s = CHR ''.'' \<or> hd s = CHR '','') \<and> is_num (s ! 1)
      then let ds = takeWhile is_num (tl s); used = take 9 ds
           in (case read_digits 0 used of Some n \<Rightarrow> int n * 10 ^ (9 - length used) | None \<Rightarrow> 0,
               drop (length ds) (tl s))
      else (0, s))"

text \<open>The zone offset in seconds.\<close>

definition getzone :: "string \<Rightarrow> (goerr, int \<times> string) outcome" where
  "getzone s =
     (if s \<noteq> [] \<and> hd s = CHR ''Z'' then Ok (0, tl s)
      else if length s < 6 \<or> s ! 3 \<noteq> CHR '':'' then Err errBad
      else bind_o (getnum True (take 2 (drop 1 s))) (\<lambda>(hr, _).
           bind_o (getnum True (take 2 (drop 4 s))) (\<lambda>(mm, _).
             let off = (hr * 60 + mm) * 60 in
             if 24 < hr \<or> 60 < mm then Err errBad
             else if hd s = CHR ''+'' then Ok (off, drop 6 s)
             else if hd s = CHR ''-'' then Ok (- off, drop 6 s)
             else Err errBad)))"

definition ParseRFC3339 :: "string \<Rightarrow> (goerr, int) outcome" where
  "ParseRFC3339 s =
     bind_o (getyear s) (\<lambda>(year, s). bind_o (skip (CHR ''-'') s) (\<lambda>s.
     bind_o (getnum True s) (\<lambda>(month, s). if month < 1 \<or> 12 < month then Err errBad else
     bind_o (skip (CHR ''-'') s) (\<lambda>s.
     bind_o (getnum True s) (\<lambda>(day, s). bind_o (skip (CHR ''T'') s) (\<lambda>s.
     bind_o (getnum False s) (\<lambda>(hour, s). if 24 \<le> hour then Err errBad else
     bind_o (skip (CHR '':'') s) (\<lambda>s.
     bind_o (getnum True s) (\<lambda>(minute, s). if 60 \<le> minute then Err errBad else
     bind_o (skip (CHR '':'') s) (\<lambda>s.
     bind_o (getnum True s) (\<lambda>(sec, s). if 60 \<le> sec then Err errBad else
     (case getfrac s of (nsec, s) \<Rightarrow>
     bind_o (getzone s) (\<lambda>(off, s).
       if s \<noteq> [] then Err errBad
       else if day < 1 \<or> days_in_month year month < day then Err errBad
       else Ok (DateUnixMilli year month day hour minute sec * 1000000 + nsec - off * 1000000000))))))))))))))"

section \<open>Instants as clients write them\<close>

definition two :: "nat \<Rightarrow> string" where
  "two n = [char_of (48 + n div 10), char_of (48 + n mod 10)]"

text \<open>A UTC instant with whole seconds.\<close>

definition fmt_utc :: "nat \<Rightarrow> nat \<Rightarrow> nat \<Rightarrow> nat \<Rightarrow> nat \<Rightarrow> nat \<Rightarrow> string" where
  "fmt_utc y mo d h mi s =
     two (y div 100) @ two (y mod 100) @ ''-'' @ two mo @ ''-'' @ two d @ ''T'' @ two h @ '':'' @ two mi @ '':'' @ two s @ ''Z''"

lemma getnum_two: "n < 100 \<Longrightarrow> getnum f (two n @ s) = Ok (int n, s)"
proof -
  assume "n < 100"
  then have "n div 10 < 10" "n mod 10 < 10" by auto
  moreover have "n div 10 * 10 + n mod 10 = n" by simp
  ultimately show ?thesis by (simp add: two_def)
qed

lemma getyear_two: "y < 10000 \<Longrightarrow> getyear (two (y div 100) @ two (y mod 100) @ s) = Ok (int y, s)"
proof -
  assume "y < 10000"
  then have d: "y div 100 div 10 < 10" "y div 100 mod 10 < 10" "y mod 100 div 10 < 10" "y mod 100 mod 10 < 10" by auto
  have split: "(a * 10 + b div 10) * 10 + b mod 10 = a * 100 + b" for a b :: nat
  proof -
    have "(a * 10 + b div 10) * 10 + b mod 10 = a * 100 + (b div 10 * 10 + b mod 10)" by (simp add: add_mult_distrib)
    then show ?thesis by (simp only: div_mult_mod_eq)
  qed
  have "((y div 100 div 10 * 10 + y div 100 mod 10) * 10 + y mod 100 div 10) * 10 + y mod 100 mod 10 = y"
    by (simp only: split div_mult_mod_eq)
  with d show ?thesis by (simp add: getyear_def two_def)
qed

lemma ParseRFC3339_utc:
  assumes "y < 10000" "1 \<le> mo" "mo \<le> 12" "1 \<le> d" "int d \<le> days_in_month (int y) (int mo)" "h < 24" "mi < 60" "s < 60"
  shows "ParseRFC3339 (fmt_utc y mo d h mi s) =
    Ok (DateUnixMilli (int y) (int mo) (int d) (int h) (int mi) (int s) * 1000000)"
proof -
  have d: "d < 100" using assms(5) by (auto simp: days_in_month_def split: if_splits)
  have z: "getfrac ''Z'' = (0, ''Z'')" "getzone ''Z'' = Ok (0, [])" by (simp_all add: getfrac_def getzone_def)
  show ?thesis
    using assms d by (simp add: ParseRFC3339_def fmt_utc_def getyear_two getnum_two z del: getnum.simps)
qed

end
