(* ===== verification/Api_Devices.thy ===== *)
theory Api_Devices
  imports Tenancy Rfc3339 Auth Stream_Processor
begin

text \<open>
  The response helpers and the device endpoints of the API (\<open>api-service/internal/handler\<close>:
  \<open>auth.go\<close> and \<open>devices.go\<close>). A handler is a function of the request's context, what it
  reads from the request, and the database state. A request body is given as \<open>encoding/json\<close>
  decodes it; the \<open>required\<close> tags are checked here.
\<close>

section \<open>Requests and responses\<close>

text \<open>A response: a status with a JSON value or with raw bytes.\<close>

datatype response = JSON nat goval | Data nat string

text \<open>What the handlers reach besides the tables: Redis, the driver, and the clock in nanoseconds.\<close>

record api =
  api_pg :: pg
  rdb_exists :: "string \<Rightarrow> int"
  rdb_get :: "string \<Rightarrow> (goerr, string) outcome"
  api_now :: int

definition respondError :: "nat \<Rightarrow> string \<Rightarrow> response" where
  "respondError status msg = JSON status (GObj [(''error'', GStr msg)])"

definition respondOK :: "goval \<Rightarrow> response" where
  "respondOK data = JSON 200 (GObj [(''data'', data)])"

definition respondCreated :: "goval \<Rightarrow> response" where
  "respondCreated data = JSON 201 (GObj [(''data'', data)])"

definition noContent :: response where
  "noContent = JSON 204 GNil"

text \<open>A slice declared with \<open>var\<close> and appended to: nil if nothing was appended.\<close>

definition slice_of :: "goval list \<Rightarrow> goval" where
  "slice_of xs = (if xs = [] then GNil else GArr xs)"

fun ptr :: "string option \<Rightarrow> goval" where
  "ptr None = GNil"
| "ptr (Some s) = GStr s"

definition binding_error :: goerr where
  "binding_error = Errorf ''Field validation failed on the required tag''"

text \<open>\<open>ShouldBindJSON\<close>: the decoded body, with the fields that have to be non-empty.\<close>

fun ShouldBindJSON :: "('b \<Rightarrow> string list) \<Rightarrow> (goerr, 'b) outcome \<Rightarrow> (goerr, 'b) outcome" where
  "ShouldBindJSON required (Ok b) = (if [] \<in> set (required b) then Err binding_error else Ok b)"
| "ShouldBindJSON required x = x"

text \<open>A variable after a scan, and a string variable.\<close>

definition var :: "goval list \<Rightarrow> nat \<Rightarrow> goval" where
  "var vs i = (if i < length vs then vs ! i else GNil)"

fun str_of :: "goval \<Rightarrow> string" where
  "str_of (GStr s) = s"
| "str_of v = []"

text \<open>
  The calls of \<open>rows.Scan\<close> and of \<open>rows.Values\<close> in a loop over \<open>rows.Next\<close>: a failing call
  closes the rows, so it is the last one. \<open>rows.Values\<close> then returns no values.
\<close>

fun rows_scanned :: "pg \<Rightarrow> dest list \<Rightarrow> sval list list \<Rightarrow> (goval list \<times> goerr option) list" where
  "rows_scanned pg ds [] = []"
| "rows_scanned pg ds (r # rs) =
     (case pg_scan pg ds r of
        (vs, None) \<Rightarrow> (vs, None) # rows_scanned pg ds rs
      | (vs, Some e) \<Rightarrow> [(vs, Some e)])"

fun rows_values :: "pg \<Rightarrow> sval list list \<Rightarrow> goval list list" where
  "rows_values pg [] = []"
| "rows_values pg (r # rs) =
     (case pg_values pg r of Ok vs \<Rightarrow> vs # rows_values pg rs | _ \<Rightarrow> [[]])"

text \<open>\<open>for i, f := range fields { if i < len(vals) { m[f] = vals[i] } }\<close>\<close>

definition fields_map :: "string list \<Rightarrow> goval list \<Rightarrow> goval" where
  "fields_map names vals = GObj (zip names vals)"

section \<open>Device endpoints\<close>

definition device_cols :: "string list" where
  "device_cols = [''id'', ''tenant_id'', ''imei'', ''name'', ''protocol'', ''vehicle_id'', ''last_seen_at'', ''created_at'']"

definition device_dests :: "dest list" where
  "device_dests = [DString, DString, DString, DString, DString, DStringPtr, DTimePtr, DTime]"

text \<open>The struct \<open>Device\<close> as it is marshalled, with its online flag read from Redis.\<close>

definition device_obj :: "api \<Rightarrow> string \<Rightarrow> goval list \<Rightarrow> goval" where
  "device_obj a tenantID vs =
     GObj [(''id'', var vs 0), (''tenant_id'', var vs 1), (''imei'', var vs 2), (''name'', var vs 3),
       (''protocol'', var vs 4), (''vehicle_id'', var vs 5),
       (''online'', GBool (0 < rdb_exists a (KeyDeviceLive tenantID (str_of (var vs 0))))),
       (''last_seen_at'', var vs 6), (''created_at'', var vs 7)]"

definition devices_list_sql :: prepared where
  "devices_list_sql = ([PUuid], Select (map Col device_cols) ''devices''
     [Eq ''tenant_id'' (Par 1), IsNull ''deleted_at''] (Some (''name'', False)) (Some 1000))"

definition Device_List :: "api \<Rightarrow> gctx \<Rightarrow> dbstate \<Rightarrow> response \<times> dbstate" where
  "Device_List a c s =
     (let tenantID = ctx_TenantID c in
      case run_stmt (api_pg a) devices_list_sql [GStr tenantID] s of (q, s') \<Rightarrow>
        (case a_err q of
           Some e \<Rightarrow> (respondError 500 ''database error'', s')
         | None \<Rightarrow>
             (respondOK (slice_of (map (\<lambda>(vs, e). device_obj a tenantID vs)
                (filter (\<lambda>(vs, e). e = None) (rows_scanned (api_pg a) device_dests (a_rows q))))), s')))"

definition devices_get_sql :: prepared where
  "devices_get_sql = ([PUuid, PUuid], Select (map Col device_cols) ''devices''
     [Eq ''id'' (Par 1), Eq ''tenant_id'' (Par 2), IsNull ''deleted_at''] None None)"

definition Device_Get :: "api \<Rightarrow> gctx \<Rightarrow> string \<Rightarrow> dbstate \<Rightarrow> response \<times> dbstate" where
  "Device_Get a c deviceID s =
     (let tenantID = ctx_TenantID c in
      case run_stmt (api_pg a) devices_get_sql [GStr deviceID, GStr tenantID] s of (q, s') \<Rightarrow>
        (case scan_row (api_pg a) device_dests q of
           (Some vs, None) \<Rightarrow> (respondOK (device_obj a tenantID vs), s')
         | (_, _) \<Rightarrow> (respondError 404 ''device not found'', s')))"

record DeviceBody =
  db_IMEI :: string
  db_Name :: string
  db_Protocol :: string
  db_VehicleID :: "string option"

definition devices_insert_sql :: prepared where
  "devices_insert_sql = ([PUuid, PText, PText, PText, PUuid], Insert ''devices''
     [(''tenant_id'', Par 1), (''imei'', Par 2), (''name'', Par 3), (''protocol'', Par 4), (''vehicle_id'', Par 5)] [''id''])"

definition Device_Create :: "api \<Rightarrow> gctx \<Rightarrow> (goerr, DeviceBody) outcome \<Rightarrow> dbstate \<Rightarrow> response \<times> dbstate" where
  "Device_Create a c decoded s =
     (case ShouldBindJSON (\<lambda>b. [db_IMEI b, db_Name b, db_Protocol b]) decoded of
        Ok body \<Rightarrow>
          (case run_stmt (api_pg a) devices_insert_sql
             [GStr (ctx_TenantID c), GStr (db_IMEI body), GStr (db_Name body), GStr (db_Protocol body), ptr (db_VehicleID body)] s of
             (q, s') \<Rightarrow>
               (case scan_row (api_pg a) [DString] q of
                  (Some vs, None) \<Rightarrow> (respondCreated (GObj [(''id'', var vs 0)]), s')
                | (_, _) \<Rightarrow> (respondError 500 ''failed to create device'', s')))
      | Err e \<Rightarrow> (respondError 400 (Error e), s)
      | Panic \<Rightarrow> (respondError 400 [], s))"

record DevicePatch =
  dp_Name :: string
  dp_VehicleID :: "string option"

definition devices_update_sql :: prepared where
  "devices_update_sql = ([PUuid, PUuid, PText, PUuid], Update ''devices''
     [(''name'', Par 3), (''vehicle_id'', Par 4), (''updated_at'', Now)]
     [Eq ''id'' (Par 1), Eq ''tenant_id'' (Par 2), IsNull ''deleted_at''] [])"

definition Device_Update :: "api \<Rightarrow> gctx \<Rightarrow> string \<Rightarrow> (goerr, DevicePatch) outcome \<Rightarrow> dbstate \<Rightarrow> response \<times> dbstate" where
  "Device_Update a c deviceID decoded s =
     (case ShouldBindJSON (\<lambda>b. []) decoded of
        Ok body \<Rightarrow>
          (case run_stmt (api_pg a) devices_update_sql
             [GStr deviceID, GStr (ctx_TenantID c), GStr (dp_Name body), ptr (dp_VehicleID body)] s of
             (q, s') \<Rightarrow>
               (case exec_err q of
                  Some e \<Rightarrow> (respondError 500 (Error e), s')
                | None \<Rightarrow> (noContent, s')))
      | Err e \<Rightarrow> (respondError 400 (Error e), s)
      | Panic \<Rightarrow> (respondError 400 [], s))"

definition devices_delete_sql :: prepared where
  "devices_delete_sql = ([PUuid, PUuid], Update ''devices'' [(''deleted_at'', Now)]
     [Eq ''id'' (Par 1), Eq ''tenant_id'' (Par 2)] [])"

definition Device_Delete :: "api \<Rightarrow> gctx \<Rightarrow> string \<Rightarrow> dbstate \<Rightarrow> response \<times> dbstate" where
  "Device_Delete a c deviceID s =
     (noContent, snd (run_stmt (api_pg a) devices_delete_sql [GStr deviceID, GStr (ctx_TenantID c)] s))"

definition Device_Live :: "api \<Rightarrow> gctx \<Rightarrow> string \<Rightarrow> dbstate \<Rightarrow> response \<times> dbstate" where
  "Device_Live a c deviceID s =
     (case rdb_get a (KeyDeviceLive (ctx_TenantID c) deviceID) of
        Ok data \<Rightarrow> (Data 200 data, s)
      | _ \<Rightarrow> (respondError 404 ''device offline or not found'', s))"

section \<open>Positions, trips and telemetry\<close>

definition Hour :: int where
  "Hour = 3600 * 1000000000"

text \<open>The query parameters \<open>from\<close> and \<open>to\<close>; the bounds are instants in nanoseconds.\<close>

definition parseTimeRange :: "int \<Rightarrow> string \<Rightarrow> string \<Rightarrow> int \<times> int" where
  "parseTimeRange now from_q to_q =
     (let from0 = now - 24 * Hour; to0 = now;
          from1 = (if from_q \<noteq> [] then (case ParseRFC3339 from_q of Ok t \<Rightarrow> t | _ \<Rightarrow> from0) else from0);
          to1 = (if to_q \<noteq> [] then (case ParseRFC3339 to_q of Ok t \<Rightarrow> t | _ \<Rightarrow> to0) else to0)
      in (from1, to1))"

definition history_sql :: prepared where
  "history_sql = ([PText, PText, PTime, PTime], Select
     (map Col [''timestamp'', ''lat'', ''lng'', ''altitude'', ''speed'', ''heading'', ''satellites'', ''valid'',
       ''ignition'', ''movement'', ''external_voltage'', ''battery_level'']) ''avl_records''
     [Eq ''device_id'' (Par 1), Eq ''tenant_id'' (Par 2), Between ''timestamp'' (Par 3) (Par 4)]
     (Some (''timestamp'', False)) (Some 5000))"

definition history_dests :: "dest list" where
  "history_dests = [DTime, DFloat, DFloat, DInt, DInt, DInt, DInt, DBool, DBool, DBool, DFloat, DInt]"

definition point_obj :: "goval list \<Rightarrow> goval" where
  "point_obj vs = GObj (zip [''ts'', ''lat'', ''lng'', ''alt'', ''spd'', ''hdg'', ''sat'', ''valid'', ''ign'', ''mov'', ''ext_v'', ''bat_pct'']
     (map (var vs) [0..<12]))"

text \<open>Errors of \<open>rows.Scan\<close> are ignored: the point is appended as it is.\<close>

definition Device_History :: "api \<Rightarrow> gctx \<Rightarrow> string \<Rightarrow> string \<Rightarrow> string \<Rightarrow> dbstate \<Rightarrow> response \<times> dbstate" where
  "Device_History a c deviceID from_q to_q s =
     (case parseTimeRange (api_now a) from_q to_q of (t0, t1) \<Rightarrow>
      case run_stmt (api_pg a) history_sql [GStr deviceID, GStr (ctx_TenantID c), GTime t0, GTime t1] s of (q, s') \<Rightarrow>
        (case a_err q of
           Some e \<Rightarrow> (respondError 500 (Error e), s')
         | None \<Rightarrow> (respondOK (slice_of (map (\<lambda>(vs, e). point_obj vs)
                      (rows_scanned (api_pg a) history_dests (a_rows q)))), s')))"

definition trip_fields :: "string list" where
  "trip_fields = [''id'', ''started_at'', ''ended_at'', ''start_lat'', ''start_lng'', ''end_lat'', ''end_lng'',
     ''distance_m'', ''duration_s'', ''max_speed'', ''avg_speed'', ''idle_time_s'']"

definition trips_sql :: prepared where
  "trips_sql = ([PText, PUuid, PTime, PTime], Select (map Col trip_fields) ''trips''
     [Eq ''device_id'' (Par 1), Eq ''tenant_id'' (Par 2), Between ''started_at'' (Par 3) (Par 4)]
     (Some (''started_at'', True)) (Some 100))"

definition Device_Trips :: "api \<Rightarrow> gctx \<Rightarrow> string \<Rightarrow> string \<Rightarrow> string \<Rightarrow> dbstate \<Rightarrow> response \<times> dbstate" where
  "Device_Trips a c deviceID from_q to_q s =
     (case parseTimeRange (api_now a) from_q to_q of (t0, t1) \<Rightarrow>
      case run_stmt (api_pg a) trips_sql [GStr deviceID, GStr (ctx_TenantID c), GTime t0, GTime t1] s of (q, s') \<Rightarrow>
        (case a_err q of
           Some e \<Rightarrow> (respondError 500 (Error e), s')
         | None \<Rightarrow> (respondOK (slice_of (map (fields_map trip_fields) (rows_values (api_pg a) (a_rows q)))), s')))"

definition telemetry_sql :: prepared where
  "telemetry_sql = ([PText, PText], Select
     (map Col [''timestamp'', ''ignition'', ''movement'', ''external_voltage'', ''battery_voltage'', ''battery_level'',
       ''gnss_status'', ''gsm_signal'', ''engine_rpm'', ''fuel_level'', ''temperature_1'', ''sos_event'', ''io_data''])
     ''avl_records'' [Eq ''device_id'' (Par 1), Eq ''tenant_id'' (Par 2)] (Some (''timestamp'', True)) (Some 1))"

definition telemetry_dests :: "dest list" where
  "telemetry_dests = [DTime, DBool, DBool, DFloat, DFloat, DInt, DInt, DInt, DInt, DInt, DFloat, DBool, DBytes]"

definition Device_Telemetry :: "api \<Rightarrow> gctx \<Rightarrow> string \<Rightarrow> dbstate \<Rightarrow> response \<times> dbstate" where
  "Device_Telemetry a c deviceID s =
     (case run_stmt (api_pg a) telemetry_sql [GStr deviceID, GStr (ctx_TenantID c)] s of (q, s') \<Rightarrow>
        (case scan_row (api_pg a) telemetry_dests q of
           (Some vs, None) \<Rightarrow>
             (respondOK (GObj [(''timestamp'', var vs 0), (''ignition'', var vs 1), (''movement'', var vs 2),
                (''external_voltage'', var vs 3), (''battery_voltage'', var vs 4), (''battery_level'', var vs 5),
                (''gnss_status'', var vs 6), (''gsm_signal'', var vs 7), (''engine_rpm'', var vs 8),
                (''fuel_level'', var vs 9), (''temperature_1'', var vs 10), (''sos_event'', var vs 11)]), s')
         | (_, _) \<Rightarrow> (respondError 404 ''no telemetry data found'', s')))"

end
