(* ===== verification/Api_Handlers.thy ===== *)
theory Api_Handlers
  imports Api_Devices
begin

text \<open>
  The remaining resource endpoints of the API (\<open>handlers.go\<close> and \<open>settings.go\<close>): vehicles,
  geofences, alerts, rules, reports, drivers and settings. Most of them ignore the errors of
  their statements. A handler that can panic yields \<open>None\<close> then.
\<close>

section \<open>Vehicles\<close>

definition vehicle_fields :: "string list" where
  "vehicle_fields = [''id'', ''tenant_id'', ''registration'', ''make'', ''model'', ''year'', ''device_id'', ''created_at'']"

definition vehicles_list_sql :: prepared where
  "vehicles_list_sql = ([PUuid], Select (map Col vehicle_fields) ''vehicles''
     [Eq ''tenant_id'' (Par 1), IsNull ''deleted_at''] (Some (''registration'', False)) None)"

definition Vehicle_List :: "api \<Rightarrow> gctx \<Rightarrow> dbstate \<Rightarrow> response \<times> dbstate" where
  "Vehicle_List a c s =
     (case run_stmt (api_pg a) vehicles_list_sql [GStr (ctx_TenantID c)] s of (q, s') \<Rightarrow>
        (respondOK (slice_of (map (fields_map vehicle_fields) (rows_values (api_pg a) (a_rows q)))), s'))"

definition vehicles_get_sql :: prepared where
  "vehicles_get_sql = ([PUuid, PUuid], Select (map Col vehicle_fields) ''vehicles''
     [Eq ''id'' (Par 1), Eq ''tenant_id'' (Par 2), IsNull ''deleted_at''] None None)"

definition Vehicle_Get :: "api \<Rightarrow> gctx \<Rightarrow> string \<Rightarrow> dbstate \<Rightarrow> response \<times> dbstate" where
  "Vehicle_Get a c vid s =
     (case run_stmt (api_pg a) vehicles_get_sql [GStr vid, GStr (ctx_TenantID c)] s of (q, s') \<Rightarrow>
        (case a_rows q of
           [] \<Rightarrow> (respondError 404 ''vehicle not found'', s')
         | r # rs \<Rightarrow> (case pg_values (api_pg a) r of
                        Ok vals \<Rightarrow> (respondOK (GArr vals), s')
                      | _ \<Rightarrow> (respondOK GNil, s'))))"

record VehicleBody =
  vb_Registration :: string
  vb_Make :: string
  vb_Model :: string
  vb_Year :: int
  vb_DeviceID :: "string option"

definition vehicles_insert_sql :: prepared where
  "vehicles_insert_sql = ([PUuid, PText, PText, PText, PInt, PUuid], Insert ''vehicles''
     [(''tenant_id'', Par 1), (''registration'', Par 2), (''make'', Par 3), (''model'', Par 4), (''year'', Par 5),
      (''device_id'', Par 6)] [''id''])"

text \<open>The error of the insert is ignored; the id stays empty if no row came back.\<close>

definition Vehicle_Create :: "api \<Rightarrow> gctx \<Rightarrow> (goerr, VehicleBody) outcome \<Rightarrow> dbstate \<Rightarrow> response \<times> dbstate" where
  "Vehicle_Create a c decoded s =
     (case ShouldBindJSON (\<lambda>b. [vb_Registration b]) decoded of
        Ok body \<Rightarrow>
          (case run_stmt (api_pg a) vehicles_insert_sql
             [GStr (ctx_TenantID c), GStr (vb_Registration body), GStr (vb_Make body), GStr (vb_Model body),
              GInt (vb_Year body), ptr (vb_DeviceID body)] s of
             (q, s') \<Rightarrow>
               (respondCreated (GObj [(''id'', (case scan_row (api_pg a) [DString] q of
                  (Some vs, e) \<Rightarrow> var vs 0 | (None, e) \<Rightarrow> GStr []))]), s'))
      | Err e \<Rightarrow> (respondError 400 (Error e), s)
      | Panic \<Rightarrow> (respondError 400 [], s))"

definition Vehicle_Update :: response where
  "Vehicle_Update = noContent"

definition vehicles_delete_sql :: prepared where
  "vehicles_delete_sql = ([PUuid, PUuid], Update ''vehicles'' [(''deleted_at'', Now)]
     [Eq ''id'' (Par 1), Eq ''tenant_id'' (Par 2)] [])"

definition Vehicle_Delete :: "api \<Rightarrow> gctx \<Rightarrow> string \<Rightarrow> dbstate \<Rightarrow> response \<times> dbstate" where
  "Vehicle_Delete a c vid s =
     (noContent, snd (run_stmt (api_pg a) vehicles_delete_sql [GStr vid, GStr (ctx_TenantID c)] s))"

text \<open>The command is acknowledged as queued; nothing is sent.\<close>

definition Vehicle_SendCommand :: "(goerr, string) outcome \<Rightarrow> response" where
  "Vehicle_SendCommand decoded =
     (case ShouldBindJSON (\<lambda>cmd. [cmd]) decoded of
        Ok cmd \<Rightarrow> JSON 202 (GObj [(''data'', GObj [(''status'', GStr ''queued''), (''command'', GStr cmd)])])
      | Err e \<Rightarrow> respondError 400 (Error e)
      | Panic \<Rightarrow> respondError 400 [])"

section \<open>Geofences\<close>

definition geofences_list_sql :: prepared where
  "geofences_list_sql = ([PUuid], Select
     [Col ''id'', Col ''name'', Col ''shape_type'', Fn ''::text'' [Fn ''ST_AsGeoJSON'' [Col ''geometry'']], Col ''created_at'']
     ''geofences'' [Eq ''tenant_id'' (Par 1), IsNull ''deleted_at''] None None)"

text \<open>\<open>vals[0]\<close>, \<open>vals[1]\<close>, ... under the given names: a panic if there are fewer values.\<close>

fun indexed_maps :: "string list \<Rightarrow> goval list list \<Rightarrow> goval list option" where
  "indexed_maps names [] = Some []"
| "indexed_maps names (vals # rest) =
     (if length vals < length names then None
      else map_option ((#) (GObj (zip names vals))) (indexed_maps names rest))"

definition Geofence_List :: "api \<Rightarrow> gctx \<Rightarrow> dbstate \<Rightarrow> response option \<times> dbstate" where
  "Geofence_List a c s =
     (case run_stmt (api_pg a) geofences_list_sql [GStr (ctx_TenantID c)] s of (q, s') \<Rightarrow>
        (map_option (\<lambda>gs. respondOK (slice_of gs))
           (indexed_maps [''id'', ''name'', ''shape_type'', ''geometry'', ''created_at''] (rows_values (api_pg a) (a_rows q))), s'))"

record GeofenceBody =
  gb_Name :: string
  gb_ShapeType :: string
  gb_GeoJSON :: string

definition geofences_insert_sql :: prepared where
  "geofences_insert_sql = ([PUuid, PText, PText, PText], Insert ''geofences''
     [(''tenant_id'', Par 1), (''name'', Par 2), (''shape_type'', Par 3), (''geometry'', Fn ''ST_GeomFromGeoJSON'' [Par 4])] [''id''])"

definition Geofence_Create :: "api \<Rightarrow> gctx \<Rightarrow> (goerr, GeofenceBody) outcome \<Rightarrow> dbstate \<Rightarrow> response \<times> dbstate" where
  "Geofence_Create a c decoded s =
     (case ShouldBindJSON (\<lambda>b. [gb_Name b, gb_ShapeType b, gb_GeoJSON b]) decoded of
        Ok body \<Rightarrow>
          (case run_stmt (api_pg a) geofences_insert_sql
             [GStr (ctx_TenantID c), GStr (gb_Name body), GStr (gb_ShapeType body), GStr (gb_GeoJSON body)] s of
             (q, s') \<Rightarrow>
               (respondCreated (GObj [(''id'', (case scan_row (api_pg a) [DString] q of
                  (Some vs, e) \<Rightarrow> var vs 0 | (None, e) \<Rightarrow> GStr []))]), s'))
      | Err e \<Rightarrow> (respondError 400 (Error e), s)
      | Panic \<Rightarrow> (respondError 400 [], s))"

definition Geofence_Get :: response where "Geofence_Get = respondOK (GObj [])"
definition Geofence_Update :: response where "Geofence_Update = noContent"
definition Geofence_Delete :: response where "Geofence_Delete = noContent"
definition Geofence_Events :: response where "Geofence_Events = respondOK (GArr [])"

section \<open>Alerts\<close>

definition alert_fields :: "string list" where
  "alert_fields = [''id'', ''device_id'', ''rule_id'', ''alert_type'', ''severity'', ''message'', ''triggered_at'', ''acknowledged_at'']"

definition alerts_list_sql :: prepared where
  "alerts_list_sql = ([PUuid], Select (map Col alert_fields) ''alerts''
     [Eq ''tenant_id'' (Par 1)] (Some (''triggered_at'', True)) (Some 100))"

definition Alert_List :: "api \<Rightarrow> gctx \<Rightarrow> dbstate \<Rightarrow> response \<times> dbstate" where
  "Alert_List a c s =
     (case run_stmt (api_pg a) alerts_list_sql [GStr (ctx_TenantID c)] s of (q, s') \<Rightarrow>
        (respondOK (slice_of (map (fields_map alert_fields) (rows_values (api_pg a) (a_rows q)))), s'))"

definition alerts_ack_sql :: prepared where
  "alerts_ack_sql = ([PUuid, PUuid, PUuid], Update ''alerts'' [(''acknowledged_at'', Now), (''acknowledged_by'', Par 3)]
     [Eq ''id'' (Par 1), Eq ''tenant_id'' (Par 2)] [])"

definition Alert_Acknowledge :: "api \<Rightarrow> gctx \<Rightarrow> string \<Rightarrow> dbstate \<Rightarrow> response \<times> dbstate" where
  "Alert_Acknowledge a c alertID s =
     (noContent, snd (run_stmt (api_pg a) alerts_ack_sql [GStr alertID, GStr (ctx_TenantID c), GStr (ctx_UserID c)] s))"

section \<open>Rules\<close>

definition Rule_List :: response where "Rule_List = respondOK (GArr [])"
definition Rule_Create :: response where "Rule_Create = respondCreated (GObj [(''id'', GStr ''new'')])"
definition Rule_Get :: response where "Rule_Get = respondOK (GObj [])"
definition Rule_Update :: response where "Rule_Update = noContent"
definition Rule_Delete :: response where "Rule_Delete = noContent"

definition template :: "string \<Rightarrow> string \<Rightarrow> string \<Rightarrow> goval" where
  "template tid name descr = GObj [(''id'', GStr tid), (''name'', GStr name), (''description'', GStr descr)]"

definition Rule_Templates :: response where
  "Rule_Templates = respondOK (GArr
     [template ''overspeed'' ''Overspeed Alert'' ''Alert when speed exceeds threshold'',
      template ''geofence_entry'' ''Geofence Entry'' ''Alert on geofence entry'',
      template ''geofence_exit'' ''Geofence Exit'' ''Alert on geofence exit'',
      template ''idle_detection'' ''Excessive Idling'' ''Alert when ignition ON + speed=0 for N minutes'',
      template ''fuel_theft'' ''Fuel Theft Detection'' ''Alert on rapid fuel level drop'',
      template ''harsh_driving'' ''Harsh Driving'' ''Alert on harsh acceleration/braking'',
      template ''device_tamper'' ''Device Tamper'' ''Alert on power cut or tamper detection''])"

section \<open>Reports\<close>

definition report_trip_fields :: "string list" where
  "report_trip_fields = [''id'', ''device_id'', ''started_at'', ''ended_at'', ''distance_m'', ''duration_s'', ''max_speed'']"

definition report_trips_sql :: prepared where
  "report_trips_sql = ([PUuid], Select (map Col report_trip_fields) ''trips''
     [Eq ''tenant_id'' (Par 1)] (Some (''started_at'', True)) (Some 50))"

definition Report_Trips :: "api \<Rightarrow> gctx \<Rightarrow> dbstate \<Rightarrow> response option \<times> dbstate" where
  "Report_Trips a c s =
     (case run_stmt (api_pg a) report_trips_sql [GStr (ctx_TenantID c)] s of (q, s') \<Rightarrow>
        (map_option (\<lambda>ts. respondOK (slice_of ts)) (indexed_maps report_trip_fields (rows_values (api_pg a) (a_rows q))), s'))"

definition Report_Fuel :: response where
  "Report_Fuel = respondOK (GArr
     [GObj [(''date'', GStr ''2023-10-01''), (''liters'', GFloat (Fin (round64 (452 / 10)))), (''cost'', GFloat (Fin 65))],
      GObj [(''date'', GStr ''2023-10-02''), (''liters'', GFloat (Fin (125 / 10))), (''cost'', GFloat (Fin 18))]])"

definition Report_DriverBehavior :: response where
  "Report_DriverBehavior = respondOK (GArr
     [GObj [(''driver'', GStr ''John Doe''), (''score'', GInt 92), (''events'', GInt 3)],
      GObj [(''driver'', GStr ''Jane Smith''), (''score'', GInt 85), (''events'', GInt 8)]])"

definition Report_GeofenceViolations :: response where
  "Report_GeofenceViolations = respondOK (GArr [])"

section \<open>Drivers\<close>

definition driver_fields :: "string list" where
  "driver_fields = [''id'', ''name'', ''license_number'', ''rfid_uid'', ''phone'', ''created_at'']"

definition drivers_list_sql :: prepared where
  "drivers_list_sql = ([PUuid], Select (map Col driver_fields) ''drivers''
     [Eq ''tenant_id'' (Par 1), IsNull ''deleted_at''] (Some (''name'', False)) None)"

definition Driver_List :: "api \<Rightarrow> gctx \<Rightarrow> dbstate \<Rightarrow> response \<times> dbstate" where
  "Driver_List a c s =
     (case run_stmt (api_pg a) drivers_list_sql [GStr (ctx_TenantID c)] s of (q, s') \<Rightarrow>
        (respondOK (slice_of (map (fields_map driver_fields) (rows_values (api_pg a) (a_rows q)))), s'))"

definition Driver_Create :: response where "Driver_Create = respondCreated (GObj [(''id'', GStr ''new'')])"
definition Driver_Get :: response where "Driver_Get = respondOK (GObj [])"

definition score_sql :: prepared where
  "score_sql = ([PUuid, PUuid], Aggregate
     [Count ''id'', Sum ''duration_s'', Sum ''harsh_accel'', Sum ''harsh_brake'', Sum ''overspeed_count'']
     ''trips'' [Eq ''tenant_id'' (Par 1), Eq ''driver_id'' (Par 2)])"

text \<open>Arithmetic on Go's 64-bit \<open>int\<close> wraps around.\<close>

definition wrap64 :: "int \<Rightarrow> int" where
  "wrap64 x = (x + 2 ^ 63) mod 2 ^ 64 - 2 ^ 63"

definition driver_score :: "int \<Rightarrow> int \<Rightarrow> int \<Rightarrow> int" where
  "driver_score hAccel hBrake overspeed =
     (let score = wrap64 (100 - wrap64 (wrap64 (wrap64 (hAccel * 2) + wrap64 (hBrake * 2)) + overspeed * 1))
      in if score < 0 then 0 else score)"

fun int_of :: "goval \<Rightarrow> int" where
  "int_of (GInt i) = i"
| "int_of v = 0"

definition Driver_Score :: "api \<Rightarrow> gctx \<Rightarrow> string \<Rightarrow> dbstate \<Rightarrow> response \<times> dbstate" where
  "Driver_Score a c driverID s =
     (case run_stmt (api_pg a) score_sql [GStr (ctx_TenantID c), GStr driverID] s of (q, s') \<Rightarrow>
        (case scan_row (api_pg a) [DInt, DInt, DInt, DInt, DInt] q of
           (Some vs, None) \<Rightarrow>
             (respondOK (GObj
               [(''score'', GInt (driver_score (int_of (var vs 2)) (int_of (var vs 3)) (int_of (var vs 4)))),
                (''period'', GStr ''all_time''), (''trips'', var vs 0), (''duration_s'', var vs 1),
                (''overspeed'', var vs 4), (''harsh_accel'', var vs 2), (''harsh_brake'', var vs 3)]), s')
         | (_, _) \<Rightarrow> (respondError 500 ''failed to compute score'', s')))"

section \<open>Settings\<close>

definition settings_or_empty :: sexpr where
  "settings_or_empty = Fn ''COALESCE'' [Col ''settings'', Lit (SDoc ''{}'')]"

definition tenant_sql :: prepared where
  "tenant_sql = ([PUuid], Select
     [Fn ''::text'' [Col ''id''], Col ''name'', Col ''slug'', Col ''plan'', Fn ''::text'' [settings_or_empty], Col ''max_devices'', Col ''is_active'']
     ''tenants'' [Eq ''id'' (Par 1), IsNull ''deleted_at''] None None)"

definition user_cols :: "sexpr list" where
  "user_cols = [Fn ''::text'' [Col ''id''], Col ''email'', Col ''name'', Col ''role'', Col ''phone'', Col ''is_active'', Col ''created_at'']"

definition user_dests :: "dest list" where
  "user_dests = [DString, DString, DString, DString, DStringPtr, DBool, DAny]"

definition user_sql :: prepared where
  "user_sql = ([PUuid, PUuid], Select user_cols ''users''
     [Eq ''id'' (Par 1), Eq ''tenant_id'' (Par 2), IsNull ''deleted_at''] None None)"

definition user_obj :: "goval list \<Rightarrow> goval" where
  "user_obj vs = GObj (zip [''id'', ''email'', ''name'', ''role'', ''phone'', ''is_active'', ''created_at''] (map (var vs) [0..<7]))"

text \<open>\<open>unmarshal\<close> is \<open>json.Unmarshal\<close> into a map.\<close>

definition Settings_Overview :: "(string \<Rightarrow> goval option) \<Rightarrow> api \<Rightarrow> gctx \<Rightarrow> dbstate \<Rightarrow> response \<times> dbstate" where
  "Settings_Overview unmarshal a c s =
     (case run_stmt (api_pg a) tenant_sql [GStr (ctx_TenantID c)] s of (q, s1) \<Rightarrow>
        (case scan_row (api_pg a) [DString, DString, DString, DString, DString, DInt, DBool] q of
           (Some t, None) \<Rightarrow>
             (let settings = (case unmarshal (str_of (var t 4)) of Some m \<Rightarrow> m | None \<Rightarrow> GObj []) in
              case run_stmt (api_pg a) user_sql [GStr (ctx_UserID c), GStr (ctx_TenantID c)] s1 of (q2, s2) \<Rightarrow>
                (case scan_row (api_pg a) user_dests q2 of
                   (Some u, None) \<Rightarrow>
                     (respondOK (GObj
                       [(''tenant'', GObj [(''id'', var t 0), (''name'', var t 1), (''slug'', var t 2), (''plan'', var t 3),
                           (''settings'', settings), (''max_devices'', var t 5), (''is_active'', var t 6)]),
                        (''user'', user_obj u)]), s2)
                 | (_, _) \<Rightarrow> (respondError 500 ''failed to load user'', s2)))
         | (_, _) \<Rightarrow> (respondError 500 ''failed to load tenant'', s1)))"

definition users_sql :: prepared where
  "users_sql = ([PUuid], Select user_cols ''users''
     [Eq ''tenant_id'' (Par 1), IsNull ''deleted_at''] (Some (''created_at'', True)) None)"

definition Settings_Users :: "api \<Rightarrow> gctx \<Rightarrow> dbstate \<Rightarrow> response \<times> dbstate" where
  "Settings_Users a c s =
     (case run_stmt (api_pg a) users_sql [GStr (ctx_TenantID c)] s of (q, s') \<Rightarrow>
        (case a_err q of
           Some e \<Rightarrow> (respondError 500 ''failed to load users'', s')
         | None \<Rightarrow>
             (respondOK (slice_of (map (\<lambda>(vs, e). user_obj vs)
                (filter (\<lambda>(vs, e). e = None) (rows_scanned (api_pg a) user_dests (a_rows q))))), s')))"

record PreferencesBody =
  pb_SpeedLimitKmh :: int
  pb_IdleTimeoutMin :: int

definition preferences_sql :: prepared where
  "preferences_sql = ([PUuid, PAny, PAny], Update ''tenants''
     [(''settings'', Fn ''||'' [settings_or_empty, Fn ''jsonb_build_object''
         [Lit (SText ''speed_limit_kmh''), Par 2, Lit (SText ''idle_timeout_mins''), Par 3]]),
      (''updated_at'', Now)]
     [Eq ''id'' (Par 1), IsNull ''deleted_at''] [''settings''])"

definition Settings_UpdatePreferences :: "api \<Rightarrow> gctx \<Rightarrow> (goerr, PreferencesBody) outcome \<Rightarrow> dbstate \<Rightarrow> response \<times> dbstate" where
  "Settings_UpdatePreferences a c decoded s =
     (case ShouldBindJSON (\<lambda>b. []) decoded of
        Ok body \<Rightarrow>
          (if pb_SpeedLimitKmh body \<le> 0 \<or> pb_IdleTimeoutMin body \<le> 0
           then (respondError 400 ''speed_limit_kmh and idle_timeout_mins must be > 0'', s)
           else (case run_stmt (api_pg a) preferences_sql
                   [GStr (ctx_TenantID c), GInt (pb_SpeedLimitKmh body), GInt (pb_IdleTimeoutMin body)] s of
                   (q, s') \<Rightarrow>
                     (case scan_row (api_pg a) [DAny] q of
                        (Some vs, None) \<Rightarrow> (respondOK (GObj [(''settings'', var vs 0)]), s')
                      | (_, _) \<Rightarrow> (respondError 500 ''failed to update preferences'', s'))))
      | Err e \<Rightarrow> (respondError 400 (Error e), s)
      | Panic \<Rightarrow> (respondError 400 [], s))"

end
