(* ===== verification/Api_Router.thy ===== *)
theory Api_Router
  imports Api_Handlers
begin

text \<open>
  The router of the API (\<open>internal/router/router.go\<close>): the table of protected routes with
  their handlers, behind the middleware chain, and the public routes. With the whole table
  the isolation of tenants is proved: no request changes or depends on rows of another
  tenant.
\<close>

section \<open>Requests\<close>

text \<open>
  A request: its method and path below \<open>/api/v1\<close>, the authorisation header, the query
  parameters, and the body as it decodes into each of the bodies that handlers bind.
\<close>

record request =
  r_method :: string
  r_path :: "string list"
  r_authz :: string
  r_from :: string
  r_to :: string
  r_device :: "(goerr, DeviceBody) outcome"
  r_patch :: "(goerr, DevicePatch) outcome"
  r_vehicle :: "(goerr, VehicleBody) outcome"
  r_command :: "(goerr, string) outcome"
  r_geofence :: "(goerr, GeofenceBody) outcome"
  r_prefs :: "(goerr, PreferencesBody) outcome"

text \<open>A handler gets its environment, the context, the path parameter and the request; \<open>None\<close> is a panic.\<close>

type_synonym endpoint = "api \<Rightarrow> gctx \<Rightarrow> string \<Rightarrow> request \<Rightarrow> dbstate \<Rightarrow> response option \<times> dbstate"

datatype seg = Static string | Param

type_synonym route = "string \<times> seg list \<times> endpoint"

definition returns :: "(dbstate \<Rightarrow> response \<times> dbstate) \<Rightarrow> dbstate \<Rightarrow> response option \<times> dbstate" where
  "returns f s = (case f s of (r, s') \<Rightarrow> (Some r, s'))"

definition always :: "response \<Rightarrow> dbstate \<Rightarrow> response option \<times> dbstate" where
  "always r s = (Some r, s)"

definition at_root :: "string \<Rightarrow> seg list" where "at_root p = [Static p]"
definition at_id :: "string \<Rightarrow> seg list" where "at_id p = [Static p, Param]"
definition at_sub :: "string \<Rightarrow> string \<Rightarrow> seg list" where "at_sub p q = [Static p, Param, Static q]"
definition at_name :: "string \<Rightarrow> string \<Rightarrow> seg list" where "at_name p q = [Static p, Static q]"

section \<open>The routes\<close>

definition device_routes :: "route list" where
  "device_routes =
     [(''GET'', at_root ''devices'', \<lambda>a c x r. returns (Device_List a c)),
      (''POST'', at_root ''devices'', \<lambda>a c x r. returns (Device_Create a c (r_device r))),
      (''GET'', at_id ''devices'', \<lambda>a c x r. returns (Device_Get a c x)),
      (''PUT'', at_id ''devices'', \<lambda>a c x r. returns (Device_Update a c x (r_patch r))),
      (''DELETE'', at_id ''devices'', \<lambda>a c x r. returns (Device_Delete a c x)),
      (''GET'', at_sub ''devices'' ''live'', \<lambda>a c x r. returns (Device_Live a c x)),
      (''GET'', at_sub ''devices'' ''history'', \<lambda>a c x r. returns (Device_History a c x (r_from r) (r_to r))),
      (''GET'', at_sub ''devices'' ''trips'', \<lambda>a c x r. returns (Device_Trips a c x (r_from r) (r_to r))),
      (''GET'', at_sub ''devices'' ''telemetry'', \<lambda>a c x r. returns (Device_Telemetry a c x))]"

definition vehicle_routes :: "route list" where
  "vehicle_routes =
     [(''GET'', at_root ''vehicles'', \<lambda>a c x r. returns (Vehicle_List a c)),
      (''POST'', at_root ''vehicles'', \<lambda>a c x r. returns (Vehicle_Create a c (r_vehicle r))),
      (''GET'', at_id ''vehicles'', \<lambda>a c x r. returns (Vehicle_Get a c x)),
      (''PUT'', at_id ''vehicles'', \<lambda>a c x r. always Vehicle_Update),
      (''DELETE'', at_id ''vehicles'', \<lambda>a c x r. returns (Vehicle_Delete a c x)),
      (''POST'', at_sub ''vehicles'' ''command'', \<lambda>a c x r. always (Vehicle_SendCommand (r_command r)))]"

definition driver_routes :: "route list" where
  "driver_routes =
     [(''GET'', at_root ''drivers'', \<lambda>a c x r. returns (Driver_List a c)),
      (''POST'', at_root ''drivers'', \<lambda>a c x r. always Driver_Create),
      (''GET'', at_id ''drivers'', \<lambda>a c x r. always Driver_Get),
      (''GET'', at_sub ''drivers'' ''score'', \<lambda>a c x r. returns (Driver_Score a c x))]"

definition geofence_routes :: "route list" where
  "geofence_routes =
     [(''GET'', at_root ''geofences'', \<lambda>a c x r. Geofence_List a c),
      (''POST'', at_root ''geofences'', \<lambda>a c x r. returns (Geofence_Create a c (r_geofence r))),
      (''GET'', at_id ''geofences'', \<lambda>a c x r. always Geofence_Get),
      (''PUT'', at_id ''geofences'', \<lambda>a c x r. always Geofence_Update),
      (''DELETE'', at_id ''geofences'', \<lambda>a c x r. always Geofence_Delete),
      (''GET'', at_sub ''geofences'' ''events'', \<lambda>a c x r. always Geofence_Events)]"

definition alert_routes :: "route list" where
  "alert_routes =
     [(''GET'', at_root ''alerts'', \<lambda>a c x r. returns (Alert_List a c)),
      (''POST'', at_sub ''alerts'' ''acknowledge'', \<lambda>a c x r. returns (Alert_Acknowledge a c x))]"

definition rule_routes :: "route list" where
  "rule_routes =
     [(''GET'', at_root ''rules'', \<lambda>a c x r. always Rule_List),
      (''POST'', at_root ''rules'', \<lambda>a c x r. always Rule_Create),
      (''GET'', at_id ''rules'', \<lambda>a c x r. always Rule_Get),
      (''PUT'', at_id ''rules'', \<lambda>a c x r. always Rule_Update),
      (''DELETE'', at_id ''rules'', \<lambda>a c x r. always Rule_Delete),
      (''GET'', at_name ''rules'' ''templates'', \<lambda>a c x r. always Rule_Templates)]"

definition report_routes :: "route list" where
  "report_routes =
     [(''GET'', at_name ''reports'' ''trips'', \<lambda>a c x r. Report_Trips a c),
      (''GET'', at_name ''reports'' ''fuel'', \<lambda>a c x r. always Report_Fuel),
      (''GET'', at_name ''reports'' ''driver-behavior'', \<lambda>a c x r. always Report_DriverBehavior),
      (''GET'', at_name ''reports'' ''geofence-violations'', \<lambda>a c x r. always Report_GeofenceViolations)]"

definition settings_routes :: "(string \<Rightarrow> goval option) \<Rightarrow> route list" where
  "settings_routes unmarshal =
     [(''GET'', at_name ''settings'' ''overview'', \<lambda>a c x r. returns (Settings_Overview unmarshal a c)),
      (''GET'', at_name ''settings'' ''users'', \<lambda>a c x r. returns (Settings_Users a c)),
      (''PUT'', at_name ''settings'' ''preferences'', \<lambda>a c x r. returns (Settings_UpdatePreferences a c (r_prefs r)))]"

definition protected_routes :: "(string \<Rightarrow> goval option) \<Rightarrow> route list" where
  "protected_routes unmarshal =
     device_routes @ vehicle_routes @ driver_routes @ geofence_routes @ alert_routes @ rule_routes @
     report_routes @ settings_routes unmarshal"

lemmas route_defs = device_routes_def vehicle_routes_def driver_routes_def geofence_routes_def alert_routes_def
  rule_routes_def report_routes_def settings_routes_def

section \<open>Matching and serving\<close>

text \<open>The path parameter of a match; every route has at most one.\<close>

fun match_path :: "seg list \<Rightarrow> string list \<Rightarrow> string option" where
  "match_path [] [] = Some []"
| "match_path (Static p # ps) (x # xs) = (if p = x then match_path ps xs else None)"
| "match_path (Param # ps) (x # xs) =
     (if x = [] then None else (case match_path ps xs of Some y \<Rightarrow> Some x | None \<Rightarrow> None))"
| "match_path ps xs = None"

definition serves :: "request \<Rightarrow> route \<Rightarrow> bool" where
  "serves r = (\<lambda>(m, p, h). m = r_method r \<and> match_path p (r_path r) \<noteq> None)"

text \<open>A route without a parameter takes precedence.\<close>

definition find_route :: "route list \<Rightarrow> request \<Rightarrow> (endpoint \<times> string) option" where
  "find_route routes r =
     (case find (\<lambda>rt. serves r rt \<and> Param \<notin> set (fst (snd rt))) routes of
        Some (m, p, h) \<Rightarrow> Some (h, [])
      | None \<Rightarrow>
          (case find (serves r) routes of
             Some (m, p, h) \<Rightarrow> Some (h, (case match_path p (r_path r) of Some x \<Rightarrow> x | None \<Rightarrow> []))
           | None \<Rightarrow> None))"

text \<open>
  A protected request: the chain of middleware, then the handler. A panic is recovered and
  answered with status 500. The Redis state of the rate limit is threaded beside the database.
\<close>

definition aborted :: "nat \<Rightarrow> string \<Rightarrow> response" where
  "aborted status msg = JSON status (if msg = [] then GNil else GObj [(''error'', GStr msg)])"

definition serve_protected ::
  "(string \<Rightarrow> 'w \<Rightarrow> (goerr, int) outcome \<times> 'w) \<Rightarrow> (string \<Rightarrow> int \<Rightarrow> 'w \<Rightarrow> 'w) \<Rightarrow> Manager \<Rightarrow> int \<Rightarrow>
   (string \<Rightarrow> goval option) \<Rightarrow> api \<Rightarrow> request \<Rightarrow> 'w \<Rightarrow> dbstate \<Rightarrow> response \<times> 'w \<times> dbstate" where
  "serve_protected incr expire m now unmarshal a r w s =
     (case find_route (protected_routes unmarshal) r of
        None \<Rightarrow> (JSON 404 GNil, w, s)
      | Some (h, x) \<Rightarrow>
          (case protected_chain incr expire m now (r_authz r) w of
             (Abort status msg, w') \<Rightarrow> (aborted status msg, w', s)
           | (Next c, w') \<Rightarrow>
               (case h a c x r s of
                  (Some resp, s') \<Rightarrow> (resp, w', s')
                | (None, s') \<Rightarrow> (JSON 500 GNil, w', s'))))"

text \<open>The endpoints without authentication: health, readiness and logout.\<close>

definition Health :: response where
  "Health = JSON 200 (GObj [(''status'', GStr ''ok''), (''service'', GStr ''api'')])"

definition Ready :: "goerr option \<Rightarrow> response" where
  "Ready ping =
     (case ping of
        Some e \<Rightarrow> JSON 503 (GObj [(''status'', GStr ''db_unavailable'')])
      | None \<Rightarrow> JSON 200 (GObj [(''status'', GStr ''ready'')]))"

definition Logout :: response where
  "Logout = JSON 200 (GObj [(''data'', GObj [(''status'', GStr ''logged_out'')])])"

section \<open>Tenants are confined\<close>

text \<open>The statements of the handlers carry the tenant of the request.\<close>

definition tenant_at :: "prepared \<Rightarrow> goval list \<Rightarrow> string \<Rightarrow> bool" where
  "tenant_at p args tn \<longleftrightarrow> (\<exists>i. guarded i p \<and> length args = length (fst p) \<and> args ! (i - 1) = GStr tn)"

lemmas sql_defs = devices_list_sql_def devices_get_sql_def devices_insert_sql_def devices_update_sql_def
  devices_delete_sql_def history_sql_def trips_sql_def telemetry_sql_def vehicles_list_sql_def vehicles_get_sql_def
  vehicles_insert_sql_def vehicles_delete_sql_def geofences_list_sql_def geofences_insert_sql_def alerts_list_sql_def
  alerts_ack_sql_def report_trips_sql_def drivers_list_sql_def score_sql_def tenant_sql_def user_sql_def users_sql_def
  preferences_sql_def

lemma tenant_at_first:
  "p \<in> {devices_list_sql, vehicles_list_sql, geofences_list_sql, alerts_list_sql, report_trips_sql, drivers_list_sql,
     tenant_sql, users_sql} \<Longrightarrow> tenant_at p [GStr tn] tn"
  "tenant_at score_sql [GStr tn, v] tn"
  "tenant_at devices_insert_sql [GStr tn, v1, v2, v3, v4] tn"
  "tenant_at vehicles_insert_sql [GStr tn, v1, v2, v3, v4, v5] tn"
  "tenant_at geofences_insert_sql [GStr tn, v1, v2, v3] tn"
  "tenant_at preferences_sql [GStr tn, v1, v2] tn"
  unfolding tenant_at_def
  by (auto intro!: exI [of _ 1] simp: sql_defs owner_col_def)

lemma tenant_at_second:
  "p \<in> {devices_get_sql, devices_delete_sql, vehicles_get_sql, vehicles_delete_sql, telemetry_sql, user_sql} \<Longrightarrow>
     tenant_at p [v, GStr tn] tn"
  "tenant_at devices_update_sql [v, GStr tn, v2, v3] tn"
  "tenant_at history_sql [v, GStr tn, v2, v3] tn"
  "tenant_at trips_sql [v, GStr tn, v2, v3] tn"
  "tenant_at alerts_ack_sql [v, GStr tn, v2] tn"
  unfolding tenant_at_def
  by (auto intro!: exI [of _ 2] simp: sql_defs owner_col_def)

lemma reads_only_sqls:
  "p \<in> {devices_list_sql, vehicles_list_sql, geofences_list_sql, alerts_list_sql, report_trips_sql, drivers_list_sql,
     tenant_sql, users_sql, score_sql, devices_get_sql, vehicles_get_sql, telemetry_sql, user_sql, history_sql, trips_sql} \<Longrightarrow>
   reads_only p"
  by (auto simp: sql_defs)

lemma run_confined: "tenant_at p args tn \<Longrightarrow> other_rows pg tn (snd (run_stmt pg p args s)) = other_rows pg tn s"
  unfolding tenant_at_def using run_stmt_confined by blast

lemma run_private:
  assumes "tenant_at p args tn" "reads_only p" "same_view pg tn s1 s2"
  shows "fst (run_stmt pg p args s1) = fst (run_stmt pg p args s2)"
    "same_view pg tn (snd (run_stmt pg p args s1)) (snd (run_stmt pg p args s2))"
  using run_stmt_private assms unfolding tenant_at_def by blast+

text \<open>The contract of a handler: other tenants' rows stay as they are.\<close>

definition confined :: "pg \<Rightarrow> string \<Rightarrow> (dbstate \<Rightarrow> 'r \<times> dbstate) \<Rightarrow> bool" where
  "confined pg tn f \<longleftrightarrow> (\<forall>s. other_rows pg tn (snd (f s)) = other_rows pg tn s)"

lemma confined_basic [simp]:
  "confined pg tn (always r)" "confined pg tn f \<Longrightarrow> confined pg tn (returns f)"
  by (simp_all add: confined_def always_def returns_def case_prod_beta)

lemmas handler_defs = Device_List_def Device_Get_def Device_Create_def Device_Update_def Device_Delete_def
  Device_Live_def Device_History_def Device_Trips_def Device_Telemetry_def Vehicle_List_def Vehicle_Get_def
  Vehicle_Create_def Vehicle_Delete_def Geofence_List_def Geofence_Create_def Alert_List_def Alert_Acknowledge_def
  Report_Trips_def Driver_List_def Driver_Score_def Settings_Overview_def Settings_Users_def Settings_UpdatePreferences_def

lemmas confined_rules = run_confined tenant_at_first tenant_at_second

lemma device_handlers_confined [simp]:
  "confined (api_pg a) (ctx_TenantID c) (Device_List a c)"
  "confined (api_pg a) (ctx_TenantID c) (Device_Get a c x)"
  "confined (api_pg a) (ctx_TenantID c) (Device_Create a c db)"
  "confined (api_pg a) (ctx_TenantID c) (Device_Update a c x dp)"
  "confined (api_pg a) (ctx_TenantID c) (Device_Delete a c x)"
  "confined (api_pg a) (ctx_TenantID c) (Device_Live a c x)"
  "confined (api_pg a) (ctx_TenantID c) (Device_History a c x f t)"
  "confined (api_pg a) (ctx_TenantID c) (Device_Trips a c x f t)"
  "confined (api_pg a) (ctx_TenantID c) (Device_Telemetry a c x)"
  by (simp_all add: confined_def handler_defs confined_rules Let_def case_prod_beta split: outcome.split option.split)

lemma other_handlers_confined [simp]:
  "confined (api_pg a) (ctx_TenantID c) (Vehicle_List a c)"
  "confined (api_pg a) (ctx_TenantID c) (Vehicle_Get a c x)"
  "confined (api_pg a) (ctx_TenantID c) (Vehicle_Create a c vb)"
  "confined (api_pg a) (ctx_TenantID c) (Vehicle_Delete a c x)"
  "confined (api_pg a) (ctx_TenantID c) (Geofence_List a c)"
  "confined (api_pg a) (ctx_TenantID c) (Geofence_Create a c gb)"
  "confined (api_pg a) (ctx_TenantID c) (Alert_List a c)"
  "confined (api_pg a) (ctx_TenantID c) (Alert_Acknowledge a c x)"
  "confined (api_pg a) (ctx_TenantID c) (Report_Trips a c)"
  "confined (api_pg a) (ctx_TenantID c) (Driver_List a c)"
  "confined (api_pg a) (ctx_TenantID c) (Driver_Score a c x)"
  "confined (api_pg a) (ctx_TenantID c) (Settings_Overview um a c)"
  "confined (api_pg a) (ctx_TenantID c) (Settings_Users a c)"
  "confined (api_pg a) (ctx_TenantID c) (Settings_UpdatePreferences a c pb)"
  by (simp_all add: confined_def handler_defs confined_rules Let_def case_prod_beta split: outcome.split option.split list.split)

lemma routes_confined:
  "(meth, path, h) \<in> set (protected_routes unmarshal) \<Longrightarrow> confined (api_pg a) (ctx_TenantID c) (h a c x r)"
  by (auto simp: protected_routes_def route_defs)

lemma find_route_in:
  assumes "find_route routes r = Some (h, x)"
  shows "\<exists>path. (r_method r, path, h) \<in> set routes"
proof -
  have "\<exists>path. (r_method r, path, h) \<in> set routes" if "find P routes = Some (meth, p, h)" "P (meth, p, h) \<Longrightarrow> serves r (meth, p, h)"
    for P meth p h
    using that by (auto simp: find_Some_iff serves_def) (metis nth_mem)
  with assms show ?thesis by (auto simp: find_route_def split: option.splits prod.splits)
qed

section \<open>Reading requests depend on their tenant only\<close>

text \<open>
  Two situations that a tenant cannot tell apart: the same driver and clock, the same rows
  of the tenant, and the same live entries under the tenant's keys.
\<close>

definition same_world :: "string \<Rightarrow> api \<Rightarrow> dbstate \<Rightarrow> api \<Rightarrow> dbstate \<Rightarrow> bool" where
  "same_world tn a1 s1 a2 s2 \<longleftrightarrow>
     api_pg a1 = api_pg a2 \<and> api_now a1 = api_now a2 \<and> same_view (api_pg a2) tn s1 s2 \<and>
     (\<forall>dev. rdb_exists a1 (KeyDeviceLive tn dev) = rdb_exists a2 (KeyDeviceLive tn dev) \<and>
            rdb_get a1 (KeyDeviceLive tn dev) = rdb_get a2 (KeyDeviceLive tn dev))"

definition tenant_private :: "string \<Rightarrow> (api \<Rightarrow> dbstate \<Rightarrow> 'r \<times> dbstate) \<Rightarrow> bool" where
  "tenant_private tn f \<longleftrightarrow> (\<forall>a1 s1 a2 s2. same_world tn a1 s1 a2 s2 \<longrightarrow> fst (f a1 s1) = fst (f a2 s2))"

lemma private_basic [simp]:
  "tenant_private tn (\<lambda>a. always r)" "tenant_private tn f \<Longrightarrow> tenant_private tn (\<lambda>a. returns (f a))"
  by (simp_all add: tenant_private_def always_def returns_def case_prod_beta)

lemma same_world_run:
  assumes "same_world tn a1 s1 a2 s2" "tenant_at p args tn" "reads_only p"
  shows "fst (run_stmt (api_pg a2) p args s1) = fst (run_stmt (api_pg a2) p args s2)"
    "same_world tn a1 (snd (run_stmt (api_pg a2) p args s1)) a2 (snd (run_stmt (api_pg a2) p args s2))"
  using run_private [OF assms(2,3), of "api_pg a2" s1 s2] assms(1) by (auto simp: same_world_def)

lemma same_world_simps:
  assumes "same_world tn a1 s1 a2 s2"
  shows "api_pg a1 = api_pg a2" "api_now a1 = api_now a2" "device_obj a1 tn = device_obj a2 tn"
    "rdb_get a1 (KeyDeviceLive tn dev) = rdb_get a2 (KeyDeviceLive tn dev)"
  using assms by (auto simp: same_world_def device_obj_def fun_eq_iff)

lemmas private_rules = tenant_at_first tenant_at_second reads_only_sqls

lemma reading_handlers_private [simp]:
  "tenant_private (ctx_TenantID c) (\<lambda>a. Device_List a c)"
  "tenant_private (ctx_TenantID c) (\<lambda>a. Device_Get a c x)"
  "tenant_private (ctx_TenantID c) (\<lambda>a. Device_Live a c x)"
  "tenant_private (ctx_TenantID c) (\<lambda>a. Device_History a c x f t)"
  "tenant_private (ctx_TenantID c) (\<lambda>a. Device_Trips a c x f t)"
  "tenant_private (ctx_TenantID c) (\<lambda>a. Device_Telemetry a c x)"
  "tenant_private (ctx_TenantID c) (\<lambda>a. Vehicle_List a c)"
  "tenant_private (ctx_TenantID c) (\<lambda>a. Vehicle_Get a c x)"
  "tenant_private (ctx_TenantID c) (\<lambda>a. Geofence_List a c)"
  "tenant_private (ctx_TenantID c) (\<lambda>a. Alert_List a c)"
  "tenant_private (ctx_TenantID c) (\<lambda>a. Report_Trips a c)"
  "tenant_private (ctx_TenantID c) (\<lambda>a. Driver_List a c)"
  "tenant_private (ctx_TenantID c) (\<lambda>a. Driver_Score a c x)"
  "tenant_private (ctx_TenantID c) (\<lambda>a. Settings_Users a c)"
  by (simp_all add: tenant_private_def handler_defs Let_def case_prod_beta same_world_simps same_world_run(1) private_rules
      split: option.split list.split outcome.split)

lemma overview_private [simp]: "tenant_private (ctx_TenantID c) (\<lambda>a. Settings_Overview um a c)"
  unfolding tenant_private_def
proof (intro allI impI)
  fix a1 s1 a2 s2
  assume w: "same_world (ctx_TenantID c) a1 s1 a2 s2"
  have t: "tenant_at tenant_sql [GStr (ctx_TenantID c)] (ctx_TenantID c)" "reads_only tenant_sql"
    by (simp_all add: private_rules)
  note w2 = same_world_run(2) [OF w t]
  show "fst (Settings_Overview um a1 c s1) = fst (Settings_Overview um a2 c s2)"
    by (simp add: Settings_Overview_def Let_def case_prod_beta same_world_simps(1) [OF w] same_world_run(1) [OF w t]
        same_world_run(1) [OF w2] private_rules split: option.split)
qed

lemma get_routes_private:
  "(''GET'', path, h) \<in> set (protected_routes unmarshal) \<Longrightarrow> tenant_private (ctx_TenantID c) (\<lambda>a. h a c x r)"
  by (auto simp: protected_routes_def route_defs)

section \<open>Isolation of tenants\<close>

text \<open>
  C3: whatever the request, the protected part of the API changes at most rows of the
  tenant named in a token that validates: either the tables stay as they are, or the request
  carries such a token and every row of every other tenant, in every table, is unchanged.
\<close>

theorem api_confines_tenants:
  "tabs (snd (snd (serve_protected incr expire m now unmarshal a r w s))) = tabs s \<or>
   (\<exists>tok claims. r_authz r = bearer @ tok \<and> Validate m now tok = Ok claims \<and>
      other_rows (api_pg a) (cl_TenantID claims) (snd (snd (serve_protected incr expire m now unmarshal a r w s))) =
      other_rows (api_pg a) (cl_TenantID claims) s)"
proof (cases "find_route (protected_routes unmarshal) r")
  case (Some hx)
  obtain h x where hx: "hx = (h, x)" by fastforce
  obtain fl w' where chain: "protected_chain incr expire m now (r_authz r) w = (fl, w')" by fastforce
  show ?thesis
  proof (cases fl)
    case (Next c)
    with chain have "fst (protected_chain incr expire m now (r_authz r) w) = Next c" by simp
    from protected_chain_token [OF this] obtain tok claims where
      t: "r_authz r = bearer @ tok" "Validate m now tok = Ok claims" "ctx_TenantID c = cl_TenantID claims"
      by (auto simp: ctx_TenantID_def)
    have "confined (api_pg a) (cl_TenantID claims) (h a c x r)"
      using find_route_in [OF Some [unfolded hx]] routes_confined t(3) by metis
    then have "other_rows (api_pg a) (cl_TenantID claims) (snd (h a c x r s)) = other_rows (api_pg a) (cl_TenantID claims) s"
      by (simp add: confined_def)
    moreover have "snd (snd (serve_protected incr expire m now unmarshal a r w s)) = snd (h a c x r s)"
      by (simp add: serve_protected_def Some hx chain Next split: prod.split option.split)
    ultimately show ?thesis using t(1,2) by auto
  qed (simp add: serve_protected_def Some hx chain)
qed (simp add: serve_protected_def)

text \<open>
  C5: what a reading request returns depends on its own tenant only: in two situations with
  the same rows of the token's tenant and the same live entries under its keys, however
  different the data of other tenants, every GET request to the API gets the same response,
  database failures included.
\<close>

theorem api_reads_own_tenant:
  assumes "r_method r = ''GET''" "r_authz r = bearer @ tok" "Validate m now tok = Ok claims"
    "same_world (cl_TenantID claims) a1 s1 a2 s2"
  shows "fst (serve_protected incr expire m now unmarshal a1 r w s1) =
    fst (serve_protected incr expire m now unmarshal a2 r w s2)"
proof (cases "find_route (protected_routes unmarshal) r")
  case (Some hx)
  obtain h x where hx: "hx = (h, x)" by fastforce
  obtain fl w' where chain: "protected_chain incr expire m now (r_authz r) w = (fl, w')" by fastforce
  show ?thesis
  proof (cases fl)
    case (Next c)
    with chain have "fst (protected_chain incr expire m now (r_authz r) w) = Next c" by simp
    from protected_chain_token [OF this] obtain tok' claims' where
      t: "r_authz r = bearer @ tok'" "Validate m now tok' = Ok claims'" "ctx_TenantID c = cl_TenantID claims'"
      by (auto simp: ctx_TenantID_def)
    then have c: "ctx_TenantID c = cl_TenantID claims" using assms(2,3) by auto
    have "tenant_private (ctx_TenantID c) (\<lambda>a. h a c x r)"
      using find_route_in [OF Some [unfolded hx]] get_routes_private assms(1) by metis
    then have "fst (h a1 c x r s1) = fst (h a2 c x r s2)" using assms(4) c by (simp add: tenant_private_def)
    then show ?thesis
      by (cases "h a1 c x r s1"; cases "h a2 c x r s2") (auto simp: serve_protected_def Some hx chain Next split: option.split)
  qed (simp add: serve_protected_def Some hx chain)
qed (simp add: serve_protected_def)

definition sample_api :: api where
  "sample_api = \<lparr>api_pg = sample_pg, rdb_exists = (\<lambda>_. 0), rdb_get = (\<lambda>_. Err EOF), api_now = 0\<rparr>"

definition sample_device :: "string \<Rightarrow> string \<Rightarrow> row" where
  "sample_device tn x = (\<lambda>_. SNull)(''id'' := SUuid x, ''tenant_id'' := SUuid tn, ''imei'' := SText x, ''name'' := SText x,
     ''protocol'' := SText ''gt06'', ''created_at'' := STime 0)"

definition sample_db :: "row list \<Rightarrow> dbstate" where
  "sample_db rows = \<lparr>tabs = (\<lambda>t. if t = ''devices'' then rows else []), faults = []\<rparr>"

definition sample_request :: "string \<Rightarrow> string list \<Rightarrow> request" where
  "sample_request meth path = \<lparr>r_method = meth, r_path = path, r_authz = bearer @ ''tok'', r_from = [], r_to = [],
     r_device = Err EOF, r_patch = Err EOF, r_vehicle = Err EOF, r_command = Err EOF, r_geofence = Err EOF, r_prefs = Err EOF\<rparr>"

theorem api_reads_own_tenant_witness:
  "fst (serve_protected (\<lambda>k w. (Ok 1, w)) (\<lambda>k n w. w) sample_mgr 5 (\<lambda>_. None) sample_api (sample_request ''GET'' [''devices'']) ()
      (sample_db [sample_device ''t1'' ''d1'', sample_device ''t2'' ''d2''])) =
   fst (serve_protected (\<lambda>k w. (Ok 1, w)) (\<lambda>k n w. w) sample_mgr 5 (\<lambda>_. None) sample_api (sample_request ''GET'' [''devices'']) ()
      (sample_db [sample_device ''t3'' ''d3'', sample_device ''t1'' ''d1'']))"
  by (rule api_reads_own_tenant [where tok = "''tok''" and claims = sample_claims])
    (auto simp: sample_request_def Validate_def sample_mgr_def sample_claims_def same_world_def same_view_def own_rows_def
      fun_eq_iff sample_db_def sample_device_def sample_api_def sample_pg_def belongs_def owner_col_def)

end
