(* ===== verification/Api_Facts.thy ===== *)
theory Api_Facts
  imports Api_Router
begin

text \<open>
  What the endpoints of the API do with the documented behaviour of the driver: the life of
  a device from creation to deletion, the history of a device, driver scores, and where
  failures and other tenants' keys show.
\<close>

section \<open>The life of a device\<close>

definition new_device :: "pg \<Rightarrow> string \<Rightarrow> DeviceBody \<Rightarrow> sval \<Rightarrow> row" where
  "new_device pg tn body veh = (defaults pg ''devices'')(''tenant_id'' := SUuid tn, ''imei'' := SText (db_IMEI body),
     ''name'' := SText (db_Name body), ''protocol'' := SText (db_Protocol body), ''vehicle_id'' := veh)"

lemma insert_device_exec:
  "exec pg [SUuid tn, SText (db_IMEI body), SText (db_Name body), SText (db_Protocol body), veh] (snd devices_insert_sql) ts =
    (if allowed ts ''devices'' (ts ''devices'') (new_device pg tn body veh)
     then Ok ([[SUuid (pg_fresh pg)]], ts(''devices'' := ts ''devices'' @ [new_device pg tn body veh])) else Err violation)"
  by (simp add: devices_insert_sql_def eval_sets_def set_cols_def new_device_def Let_def)
    (simp add: defaults_def)

text \<open>A reference as it is stored, if it is a UUID.\<close>

definition reference :: "(string \<Rightarrow> string option) \<Rightarrow> string option \<Rightarrow> sval option" where
  "reference uuid x = (case x of None \<Rightarrow> Some SNull | Some y \<Rightarrow> map_option SUuid (uuid y))"

lemma encode_device:
  assumes "encodes_as_documented uuid pg"
  shows "collect (map2 (pg_encode pg) (fst devices_insert_sql)
      [GStr t, GStr (db_IMEI body), GStr (db_Name body), GStr (db_Protocol body), ptr (db_VehicleID body)]) = Ok vs \<longleftrightarrow>
    (\<exists>tn veh. uuid t = Some tn \<and> reference uuid (db_VehicleID body) = Some veh \<and>
       vs = [SUuid tn, SText (db_IMEI body), SText (db_Name body), SText (db_Protocol body), veh])"
proof -
  have ref: "pg_encode pg PUuid (ptr x) = Ok v \<longleftrightarrow> reference uuid x = Some v" for x v
    by (cases x) (auto simp: reference_def documented_encode [OF assms])
  have "collect (map2 (pg_encode pg) (fst devices_insert_sql)
      [GStr t, GStr (db_IMEI body), GStr (db_Name body), GStr (db_Protocol body), ptr (db_VehicleID body)]) = Ok vs \<longleftrightarrow>
    (\<exists>v veh. pg_encode pg PUuid (GStr t) = Ok v \<and> pg_encode pg PUuid (ptr (db_VehicleID body)) = Ok veh \<and>
       vs = [v, SText (db_IMEI body), SText (db_Name body), SText (db_Protocol body), veh])"
    by (auto simp: devices_insert_sql_def documented_encode(1) [OF assms])
  then show ?thesis by (auto simp: ref documented_encode(2) [OF assms])
qed

lemma select_new_device:
  assumes "unique_with (ts ''devices'') [''id''] (new_device pg tn body veh)"
  shows "exec pg [SUuid (pg_fresh pg), SUuid tn] (snd devices_get_sql) (ts(''devices'' := ts ''devices'' @ [new_device pg tn body veh])) =
    Ok ([[SUuid (pg_fresh pg), SUuid tn, SText (db_IMEI body), SText (db_Name body), SText (db_Protocol body), veh, SNull,
      STime (pg_now pg)]], ts(''devices'' := ts ''devices'' @ [new_device pg tn body veh]))"
proof -
  let ?P = "holds_all pg [SUuid (pg_fresh pg), SUuid tn] [Eq ''id'' (Par 1), Eq ''tenant_id'' (Par 2), IsNull ''deleted_at'']"
  have row: "new_device pg tn body veh ''id'' = SUuid (pg_fresh pg)" "new_device pg tn body veh ''tenant_id'' = SUuid tn"
    "new_device pg tn body veh ''deleted_at'' = SNull" "new_device pg tn body veh ''imei'' = SText (db_IMEI body)"
    "new_device pg tn body veh ''name'' = SText (db_Name body)" "new_device pg tn body veh ''protocol'' = SText (db_Protocol body)"
    "new_device pg tn body veh ''vehicle_id'' = veh" "new_device pg tn body veh ''last_seen_at'' = SNull"
    "new_device pg tn body veh ''created_at'' = STime (pg_now pg)"
    by (simp_all add: new_device_def defaults_def)
  have "filter ?P (ts ''devices'') = []"
    using assms by (auto simp: unique_with_def list_ex_iff holds_all_def filter_empty_conv row)
  then have "filter ?P (ts ''devices'' @ [new_device pg tn body veh]) = [new_device pg tn body veh]"
    by (simp add: holds_all_def row)
  then show ?thesis by (simp add: devices_get_sql_def device_cols_def project_def row)
qed

text \<open>
  C27: a device that was created can be read back: if \<open>POST /devices\<close> answers 201, its id is
  the generated key, and a later \<open>GET /devices/{id}\<close> of the same tenant (on a working
  connection) returns exactly the IMEI, name, protocol and vehicle that were sent, under the
  request's tenant.
\<close>

theorem device_create_then_get:
  assumes docs: "encodes_as_documented uuid (api_pg a)" "scans_as_documented (api_pg a)"
    and fresh: "uuid (pg_fresh (api_pg a)) = Some (pg_fresh (api_pg a))"
    and created: "Device_Create a c (Ok body) s = (JSON 201 data, s')" and clean: "next_fault s' = None"
  shows "\<exists>tn veh. uuid (ctx_TenantID c) = Some tn \<and> reference uuid (db_VehicleID body) = Some veh \<and>
    data = GObj [(''data'', GObj [(''id'', GStr (pg_fresh (api_pg a)))])] \<and>
    fst (Device_Get a c (pg_fresh (api_pg a)) s') = respondOK (device_obj a (ctx_TenantID c)
      [GStr (pg_fresh (api_pg a)), GStr tn, GStr (db_IMEI body), GStr (db_Name body), GStr (db_Protocol body), go_of veh,
       GNil, GTime (pg_now (api_pg a) * 1000)])"
proof -
  let ?pg = "api_pg a"
  obtain q where run: "run_stmt ?pg devices_insert_sql [GStr (ctx_TenantID c), GStr (db_IMEI body), GStr (db_Name body),
      GStr (db_Protocol body), ptr (db_VehicleID body)] s = (q, s')"
    and ids: "\<exists>ids. scan_row ?pg [DString] q = (Some ids, None) \<and> data = GObj [(''data'', GObj [(''id'', var ids 0)])]"
    using created by (auto simp: Device_Create_def respondCreated_def respondError_def split: prod.splits option.splits if_splits)
  then obtain ids r rs where id: "a_rows q = r # rs" "pg_scan ?pg [DString] r = (ids, None)"
    "data = GObj [(''data'', GObj [(''id'', var ids 0)])]" using scan_row_Ok by blast
  with run_stmt_delivers [OF run] obtain vs rows k where
    enc: "collect (map2 (pg_encode ?pg) (fst devices_insert_sql) [GStr (ctx_TenantID c), GStr (db_IMEI body), GStr (db_Name body),
      GStr (db_Protocol body), ptr (db_VehicleID body)]) = Ok vs" and
    ex: "exec ?pg vs (snd devices_insert_sql) (tabs s) = Ok (rows, tabs s')" "r # rs = take k rows" by auto
  from encode_device [OF docs(1)] enc obtain tn veh where
    tn: "uuid (ctx_TenantID c) = Some tn" and veh: "reference uuid (db_VehicleID body) = Some veh" and
    vs: "vs = [SUuid tn, SText (db_IMEI body), SText (db_Name body), SText (db_Protocol body), veh]" by blast
  from ex(1) have ok: "allowed (tabs s) ''devices'' (tabs s ''devices'') (new_device ?pg tn body veh)"
    and new: "tabs s' = (tabs s)(''devices'' := tabs s ''devices'' @ [new_device ?pg tn body veh])" "rows = [[SUuid (pg_fresh ?pg)]]"
    unfolding vs insert_device_exec by (simp_all split: if_splits)
  have scan: "pg_scan ?pg ds ws = (map go_of ws, None)" if "list_all2 fits ds ws" for ds ws
    using docs(2) that by (simp add: scans_as_documented_def)
  have "r = [SUuid (pg_fresh ?pg)]" using ex(2) new(2) by (cases k) auto
  with id(2) scan [of "[DString]" r] have data: "var ids 0 = GStr (pg_fresh ?pg)" by (auto simp: var_def)
  have uniq: "unique_with (tabs s ''devices'') [''id''] (new_device ?pg tn body veh)" using ok by (simp add: allowed_def)
  have enc2: "collect (map2 (pg_encode ?pg) (fst devices_get_sql) [GStr (pg_fresh ?pg), GStr (ctx_TenantID c)]) =
      Ok [SUuid (pg_fresh ?pg), SUuid tn]"
    using docs(1) fresh tn by (simp add: devices_get_sql_def encodes_as_documented_def)
  note get = run_stmt_clean [OF clean enc2 select_new_device [of "tabs s", OF uniq, folded new(1)]]
  have "fits DStringPtr veh" using veh by (auto simp: reference_def split: option.splits)
  then have "pg_scan ?pg device_dests [SUuid (pg_fresh ?pg), SUuid tn, SText (db_IMEI body), SText (db_Name body),
      SText (db_Protocol body), veh, SNull, STime (pg_now ?pg)] = ([GStr (pg_fresh ?pg), GStr tn, GStr (db_IMEI body),
      GStr (db_Name body), GStr (db_Protocol body), go_of veh, GNil, GTime (pg_now ?pg * 1000)], None)"
    using scan [of device_dests] by (simp add: device_dests_def)
  then have "fst (Device_Get a c (pg_fresh ?pg) s') = respondOK (device_obj a (ctx_TenantID c)
      [GStr (pg_fresh ?pg), GStr tn, GStr (db_IMEI body), GStr (db_Name body), GStr (db_Protocol body), go_of veh,
       GNil, GTime (pg_now ?pg * 1000)])"
    by (simp add: Device_Get_def get scan_row_def Let_def)
  with tn veh id(3) data show ?thesis by auto
qed

theorem device_create_then_get_witness:
  "\<exists>data s'. Device_Create sample_api \<lparr>ctx_user_id = Some ''u1'', ctx_tenant_id = Some ''t1'', ctx_role = None\<rparr>
      (Ok \<lparr>db_IMEI = ''352'', db_Name = ''truck'', db_Protocol = ''gt06'', db_VehicleID = None\<rparr>)
      \<lparr>tabs = (\<lambda>t. if t = ''tenants'' then [(\<lambda>_. SNull)(''id'' := SUuid ''t1'')] else []), faults = []\<rparr> = (JSON 201 data, s') \<and>
    fst (Device_Get sample_api \<lparr>ctx_user_id = Some ''u1'', ctx_tenant_id = Some ''t1'', ctx_role = None\<rparr> ''new-id'' s') =
    respondOK (device_obj sample_api ''t1'' [GStr ''new-id'', GStr ''t1'', GStr ''352'', GStr ''truck'', GStr ''gt06'', GNil, GNil, GTime 1000000])"
proof -
  let ?c = "\<lparr>ctx_user_id = Some ''u1'', ctx_tenant_id = Some ''t1'', ctx_role = None\<rparr>"
  let ?b = "\<lparr>db_IMEI = ''352'', db_Name = ''truck'', db_Protocol = ''gt06'', db_VehicleID = None\<rparr>"
  let ?s = "\<lparr>tabs = (\<lambda>t. if t = ''tenants'' then [(\<lambda>_. SNull)(''id'' := SUuid ''t1'')] else []), faults = []\<rparr>"
  have pg: "api_pg sample_api = sample_pg" "pg_fresh sample_pg = ''new-id''" "pg_now sample_pg = 1000"
    by (simp_all add: sample_api_def sample_pg_def)
  have t: "ctx_TenantID ?c = ''t1''" by (simp add: ctx_TenantID_def)
  have "allowed (tabs ?s) ''devices'' [] (new_device sample_pg ''t1'' ?b SNull)"
    by (simp add: allowed_def unique_with_def present_def new_device_def)
  then have run: "run_stmt sample_pg devices_insert_sql [GStr ''t1'', GStr ''352'', GStr ''truck'', GStr ''gt06'', GNil] ?s =
      (\<lparr>a_err = None, a_rows = [[SUuid ''new-id'']], a_end = None\<rparr>,
       ?s\<lparr>tabs := (tabs ?s)(''devices'' := [new_device sample_pg ''t1'' ?b SNull])\<rparr>)"
    using run_stmt_clean [of ?s sample_pg devices_insert_sql "[GStr ''t1'', GStr ''352'', GStr ''truck'', GStr ''gt06'', GNil]"
        "[SUuid ''t1'', SText ''352'', SText ''truck'', SText ''gt06'', SNull]"] insert_device_exec [of sample_pg "''t1''" ?b SNull "tabs ?s"]
    by (simp add: next_fault_def pg) (simp add: devices_insert_sql_def sample_pg_def)
  obtain data s' where created: "Device_Create sample_api ?c (Ok ?b) ?s = (JSON 201 data, s')" and f: "next_fault s' = None"
    by (simp add: Device_Create_def pg t run scan_row_def next_fault_def)
      (simp add: sample_pg_def var_def respondCreated_def)
  from device_create_then_get [of Some sample_api ?c ?b ?s data s'] created f show ?thesis
    by (auto simp: pg sample_pg_encodes sample_pg_scans t reference_def)
qed

text \<open>An update maps each row that meets the conditions and keeps the others.\<close>

definition updated :: "pg \<Rightarrow> sval list \<Rightarrow> (string \<times> sexpr) list \<Rightarrow> cond list \<Rightarrow> row \<Rightarrow> row \<Rightarrow> bool" where
  "updated pg vs sets cs r r' \<longleftrightarrow>
     (if holds_all pg vs cs r then \<exists>cvs. eval_sets pg vs r sets = Ok cvs \<and> r' = set_cols cvs r else r' = r)"

lemma update_rows_rel:
  "update_rows pg vs ts t sets cs before rs = Ok (all', changed) \<Longrightarrow> list_all2 (updated pg vs sets cs) rs all'"
proof (induction rs arbitrary: before all' changed)
  case (Cons r rs)
  then show ?case by (cases "holds_all pg vs cs r") (auto simp: Let_def updated_def [of _ _ _ _ r] split: if_splits)
qed simp

lemma delete_device_rows:
  assumes "exec pg [SUuid x, SUuid tn] (snd devices_delete_sql) ts = Ok (rows, ts')"
  shows "list_all2 (\<lambda>r r'. if r ''id'' = SUuid x \<and> r ''tenant_id'' = SUuid tn then r' = r(''deleted_at'' := STime (pg_now pg)) else r' = r)
    (ts ''devices'') (ts' ''devices'')"
proof -
  from assms obtain all' changed where
    "update_rows pg [SUuid x, SUuid tn] ts ''devices'' [(''deleted_at'', Now)] [Eq ''id'' (Par 1), Eq ''tenant_id'' (Par 2)] [] (ts ''devices'') =
      Ok (all', changed)" "ts' ''devices'' = all'"
    by (auto simp: devices_delete_sql_def)
  from update_rows_rel [OF this(1)] this(2) show ?thesis
    by (auto simp: updated_def holds_all_def eval_sets_def set_cols_def elim!: list_all2_mono)
qed

lemma create_taken_imei:
  assumes "encodes_as_documented uuid (api_pg a)" "uuid (ctx_TenantID c) = Some tn"
    "r \<in> set (tabs s ''devices'')" "r ''tenant_id'' = SUuid tn" "r ''imei'' = SText (db_IMEI body)"
    "[] \<notin> {db_IMEI body, db_Name body, db_Protocol body}"
  shows "fst (Device_Create a c (Ok body) s) = respondError 500 ''failed to create device'' \<and>
    tabs (snd (Device_Create a c (Ok body) s)) = tabs s"
proof -
  let ?args = "[GStr (ctx_TenantID c), GStr (db_IMEI body), GStr (db_Name body), GStr (db_Protocol body), ptr (db_VehicleID body)]"
  obtain q s' where run: "run_stmt (api_pg a) devices_insert_sql ?args s = (q, s')" by fastforce
  have bad: "exec (api_pg a) vs (snd devices_insert_sql) (tabs s) = Err violation"
    if "collect (map2 (pg_encode (api_pg a)) (fst devices_insert_sql) ?args) = Ok vs" for vs
  proof -
    from encode_device [OF assms(1), of "ctx_TenantID c" body vs] that assms(2) obtain veh where
      vs: "vs = [SUuid tn, SText (db_IMEI body), SText (db_Name body), SText (db_Protocol body), veh]" by auto
    have "\<not> unique_with (tabs s ''devices'') [''tenant_id'', ''imei''] (new_device (api_pg a) tn body veh)"
      using assms(3-5) by (auto simp: unique_with_def list_ex_iff new_device_def)
    then show ?thesis unfolding vs insert_device_exec by (simp add: allowed_def)
  qed
  then have none: "a_rows q = []" "exec_err q \<noteq> None" "tabs s' = tabs s"
    using run by (auto simp: run_stmt_def Let_def exec_err_def split: option.splits fault.splits outcome.splits)
  then have "scan_row (api_pg a) [DString] q = (None, snd (scan_row (api_pg a) [DString] q))"
    by (auto simp: scan_row_def split: option.splits)
  then obtain e where "scan_row (api_pg a) [DString] q = (None, e)" by blast
  then show ?thesis using run none assms(6) by (simp add: Device_Create_def)
qed

text \<open>
  Deleting a device hides it but does not free its IMEI: after a successful
  \<open>DELETE /devices/{id}\<close> the device cannot be read any more, and creating a device with the
  same IMEI for the tenant is refused with status 500 and without any change to the tables,
  because the deleted row still takes part in the uniqueness of IMEIs.
\<close>

lemma deleted_device_keeps_imei:
  assumes "encodes_as_documented uuid (api_pg a)" "uuid (ctx_TenantID c) = Some tn" "uuid x = Some u"
    and dev: "r \<in> set (tabs s ''devices'')" "r ''id'' = SUuid u" "r ''tenant_id'' = SUuid tn" "r ''imei'' = SText (db_IMEI body)"
    and body: "[] \<notin> {db_IMEI body, db_Name body, db_Protocol body}"
    and deleted: "exec_err (fst (run_stmt (api_pg a) devices_delete_sql [GStr x, GStr (ctx_TenantID c)] s)) = None"
    and s': "s' = snd (Device_Delete a c x s)"
  shows "fst (Device_Get a c x s') = respondError 404 ''device not found'' \<and>
    fst (Device_Create a c (Ok body) s') = respondError 500 ''failed to create device'' \<and>
    tabs (snd (Device_Create a c (Ok body) s')) = tabs s'"
proof -
  let ?pg = "api_pg a"
  obtain q where run: "run_stmt ?pg devices_delete_sql [GStr x, GStr (ctx_TenantID c)] s = (q, s')"
    using s' by (metis Device_Delete_def prod.collapse snd_conv)
  have enc: "collect (map2 (pg_encode ?pg) [PUuid, PUuid] [GStr x, GStr (ctx_TenantID c)]) = Ok [SUuid u, SUuid tn]"
    using assms(1-3) by (simp add: encodes_as_documented_def)
  have "exec_err q = None" using deleted run by simp
  with run_stmt_delivers [OF run] enc obtain rows where
    "exec ?pg [SUuid u, SUuid tn] (snd devices_delete_sql) (tabs s) = Ok (rows, tabs s')" by (auto simp: devices_delete_sql_def)
  note rel = delete_device_rows [OF this]
  have gone: "filter (holds_all ?pg [SUuid u, SUuid tn] [Eq ''id'' (Par 1), Eq ''tenant_id'' (Par 2), IsNull ''deleted_at''])
      (tabs s' ''devices'') = []"
    using rel by (induction rule: list_all2_induct) (auto simp: holds_all_def split: if_splits)
  obtain q2 s2 where get: "run_stmt ?pg devices_get_sql [GStr x, GStr (ctx_TenantID c)] s' = (q2, s2)" by fastforce
  have "exec ?pg [SUuid u, SUuid tn] (snd devices_get_sql) (tabs s') = Ok ([], tabs s')"
    by (simp add: devices_get_sql_def gone project_def del: One_nat_def)
  with get enc have "a_rows q2 = []"
    by (auto simp: run_stmt_def Let_def devices_get_sql_def split: option.splits fault.splits)
  then have "fst (scan_row ?pg device_dests q2) = None" by (auto simp: scan_row_def split: option.splits)
  then have "fst (Device_Get a c x s') = respondError 404 ''device not found''"
    using get by (auto simp: Device_Get_def split: prod.splits option.splits)
  moreover obtain r' where "r' \<in> set (tabs s' ''devices'')" "r' ''tenant_id'' = SUuid tn" "r' ''imei'' = SText (db_IMEI body)"
  proof -
    from dev(1) obtain i where i: "i < length (tabs s ''devices'')" "tabs s ''devices'' ! i = r" by (auto simp: in_set_conv_nth)
    with rel dev(2,3) have "tabs s' ''devices'' ! i = r(''deleted_at'' := STime (pg_now ?pg))" "i < length (tabs s' ''devices'')"
      by (auto dest: list_all2_nthD list_all2_lengthD)
    then have "r(''deleted_at'' := STime (pg_now ?pg)) \<in> set (tabs s' ''devices'')" by (metis nth_mem)
    then show ?thesis using that dev(3,4) by simp
  qed
  ultimately show ?thesis using create_taken_imei [OF assms(1,2) _ _ _ body] by blast
qed

definition sample_ctx :: gctx where
  "sample_ctx = \<lparr>ctx_user_id = Some ''u1'', ctx_tenant_id = Some ''t1'', ctx_role = None\<rparr>"

definition sample_tables :: dbstate where
  "sample_tables = \<lparr>tabs = (\<lambda>t. if t = ''tenants'' then [(\<lambda>_. SNull)(''id'' := SUuid ''t1'')]
     else if t = ''devices'' then [sample_device ''t1'' ''d1''] else []), faults = []\<rparr>"

lemma deleted_device_keeps_imei_witness:
  "fst (Device_Get sample_api sample_ctx ''d1'' (snd (Device_Delete sample_api sample_ctx ''d1'' sample_tables))) =
     respondError 404 ''device not found''"
proof -
  have c: "ctx_TenantID sample_ctx = ''t1''" by (simp add: sample_ctx_def ctx_TenantID_def)
  have pg: "api_pg sample_api = sample_pg" by (simp add: sample_api_def)
  have "update_rows sample_pg [SUuid ''d1'', SUuid ''t1''] (tabs sample_tables) ''devices'' [(''deleted_at'', Now)]
      [Eq ''id'' (Par 1), Eq ''tenant_id'' (Par 2)] [] (tabs sample_tables ''devices'') =
      Ok ([(sample_device ''t1'' ''d1'')(''deleted_at'' := STime 1000)], [(sample_device ''t1'' ''d1'')(''deleted_at'' := STime 1000)])"
    by (simp add: sample_tables_def holds_all_def sample_device_def eval_sets_def set_cols_def allowed_def unique_with_def present_def
        sample_pg_def Let_def)
  then have "exec sample_pg [SUuid ''d1'', SUuid ''t1''] (snd devices_delete_sql) (tabs sample_tables) =
      Ok ([[]], (tabs sample_tables)(''devices'' := [(sample_device ''t1'' ''d1'')(''deleted_at'' := STime 1000)]))"
    by (simp add: devices_delete_sql_def del: One_nat_def)
  then have "run_stmt sample_pg devices_delete_sql [GStr ''d1'', GStr ''t1''] sample_tables =
      (\<lparr>a_err = None, a_rows = [[]], a_end = None\<rparr>, sample_tables\<lparr>faults := tl (faults sample_tables),
       tabs := (tabs sample_tables)(''devices'' := [(sample_device ''t1'' ''d1'')(''deleted_at'' := STime 1000)])\<rparr>)"
    by (intro run_stmt_clean [where vs = "[SUuid ''d1'', SUuid ''t1'']"])
      (simp_all add: sample_tables_def next_fault_def devices_delete_sql_def sample_pg_def)
  then have ok: "exec_err (fst (run_stmt sample_pg devices_delete_sql [GStr ''d1'', GStr ''t1''] sample_tables)) = None"
    by (simp add: exec_err_def)
  show ?thesis
    using deleted_device_keeps_imei [of Some sample_api sample_ctx "''t1''" "''d1''" "''d1''" "sample_device ''t1'' ''d1''" sample_tables
        "\<lparr>db_IMEI = ''d1'', db_Name = ''n'', db_Protocol = ''gt06'', db_VehicleID = None\<rparr>"] ok
    by (simp add: pg c sample_pg_encodes) (simp add: sample_tables_def sample_device_def)
qed

section \<open>Failures that do not show\<close>



section \<open>Driver scores\<close>

lemma wrap64_id: "- (2 ^ 63) \<le> x \<Longrightarrow> x < 2 ^ 63 \<Longrightarrow> wrap64 x = x"
  by (simp add: wrap64_def)

text \<open>The events of a driver's trips, in one of the counters.\<close>

definition events :: "row list \<Rightarrow> string \<Rightarrow> int" where
  "events rs col = sum_list (map (\<lambda>r. int_of_sval (r col)) rs)"

definition counter_ok :: "row list \<Rightarrow> string \<Rightarrow> bool" where
  "counter_ok rs col \<longleftrightarrow> list_all (\<lambda>r. \<exists>v. r col = SInt v \<and> 0 \<le> v \<and> v < 2 ^ 31) rs"

lemma events_range:
  assumes "counter_ok rs col" "length rs \<le> 2 ^ 29"
  shows "0 \<le> events rs col \<and> events rs col \<le> 2 ^ 60"
proof -
  have "0 \<le> events rs col \<and> events rs col \<le> int (length rs) * 2 ^ 31" if "counter_ok rs col" for rs
    using that by (induction rs) (auto simp: events_def counter_ok_def)
  then have "0 \<le> events rs col" "events rs col \<le> int (length rs) * 2 ^ 31" using assms(1) by auto
  moreover have "int (length rs) * 2 ^ 31 \<le> 2 ^ 29 * 2 ^ 31" using assms(2) by simp
  ultimately show ?thesis by simp
qed

lemma driver_score_value:
  assumes "0 \<le> x" "x \<le> 2 ^ 60" "0 \<le> y" "y \<le> 2 ^ 60" "0 \<le> z" "z \<le> 2 ^ 60"
  shows "driver_score x y z = max 0 (100 - (2 * x + 2 * y + z))"
proof -
  have "wrap64 (x * 2) = x * 2" "wrap64 (y * 2) = y * 2" "wrap64 (x * 2 + y * 2) = x * 2 + y * 2"
    "wrap64 (x * 2 + y * 2 + z) = x * 2 + y * 2 + z" "wrap64 (100 - (x * 2 + y * 2 + z)) = 100 - (x * 2 + y * 2 + z)"
    using assms by (auto intro!: wrap64_id)
  then show ?thesis by (simp add: driver_score_def Let_def max_def algebra_simps)
qed

text \<open>
  C29: a driver's score never leaves 0 to 100: with the non-negative 32-bit counters the schema
  stores and at most 2^29 trips, \<open>GET /drivers/{id}/score\<close> computes, without overflow of its
  64-bit arithmetic, 100 minus two points per harsh event and one per overspeeding of the
  driver's trips in the tenant, and 0 where that is negative.
\<close>

theorem driver_score_bounds:
  assumes docs: "encodes_as_documented uuid (api_pg a)" "scans_as_documented (api_pg a)"
    and ids: "uuid (ctx_TenantID c) = Some tn" "uuid x = Some d" and clean: "next_fault s = None"
    and rs: "rs = filter (\<lambda>r. r ''tenant_id'' = SUuid tn \<and> r ''driver_id'' = SUuid d) (tabs s ''trips'')" "length rs \<le> 2 ^ 29"
    and cnt: "counter_ok rs ''harsh_accel''" "counter_ok rs ''harsh_brake''" "counter_ok rs ''overspeed_count''"
  shows "\<exists>score rest. fst (Driver_Score a c x s) = respondOK (GObj ((''score'', GInt score) # rest)) \<and> 0 \<le> score \<and> score \<le> 100 \<and>
    score = max 0 (100 - (2 * events rs ''harsh_accel'' + 2 * events rs ''harsh_brake'' + events rs ''overspeed_count''))"
proof -
  let ?pg = "api_pg a"
  have enc: "collect (map2 (pg_encode ?pg) (fst score_sql) [GStr (ctx_TenantID c), GStr x]) = Ok [SUuid tn, SUuid d]"
    using docs(1) ids by (simp add: score_sql_def encodes_as_documented_def)
  have "filter (holds_all ?pg [SUuid tn, SUuid d] [Eq ''tenant_id'' (Par 1), Eq ''driver_id'' (Par 2)]) (tabs s ''trips'') = rs"
    unfolding rs(1) by (auto simp: holds_all_def intro!: filter_cong)
  then have "exec ?pg [SUuid tn, SUuid d] (snd score_sql) (tabs s) =
      Ok ([[SInt (int (length (filter (\<lambda>r. r ''id'' \<noteq> SNull) rs))), SInt (events rs ''duration_s''), SInt (events rs ''harsh_accel''),
        SInt (events rs ''harsh_brake''), SInt (events rs ''overspeed_count'')]], tabs s)"
    by (simp add: score_sql_def events_def del: One_nat_def)
  note run = run_stmt_clean [OF clean enc this]
  let ?score = "driver_score (events rs ''harsh_accel'') (events rs ''harsh_brake'') (events rs ''overspeed_count'')"
  have "\<exists>rest. fst (Driver_Score a c x s) = respondOK (GObj ((''score'', GInt ?score) # rest))"
    by (simp add: Driver_Score_def run scan_row_def documented_scan [OF docs(2)] var_def respondOK_def)
  moreover have "?score = max 0 (100 - (2 * events rs ''harsh_accel'' + 2 * events rs ''harsh_brake'' + events rs ''overspeed_count''))"
    using events_range [OF cnt(1) rs(2)] events_range [OF cnt(2) rs(2)] events_range [OF cnt(3) rs(2)] by (intro driver_score_value) auto
  moreover have "0 \<le> events rs ''harsh_accel''" "0 \<le> events rs ''harsh_brake''" "0 \<le> events rs ''overspeed_count''"
    using events_range [OF cnt(1) rs(2)] events_range [OF cnt(2) rs(2)] events_range [OF cnt(3) rs(2)] by auto
  ultimately show ?thesis by (auto simp: max_def)
qed

definition sample_trip :: row where
  "sample_trip = (\<lambda>_. SNull)(''id'' := SUuid ''x'', ''tenant_id'' := SUuid ''t1'', ''driver_id'' := SUuid ''dr'', ''duration_s'' := SInt 60,
     ''harsh_accel'' := SInt 3, ''harsh_brake'' := SInt 1, ''overspeed_count'' := SInt 2)"

theorem driver_score_bounds_witness:
  "\<exists>rest. fst (Driver_Score sample_api sample_ctx ''dr'' \<lparr>tabs = (\<lambda>t. if t = ''trips'' then [sample_trip] else []), faults = []\<rparr>) =
     respondOK (GObj ((''score'', GInt 90) # rest))"
  using driver_score_bounds [of Some sample_api sample_ctx "''t1''" "''dr''" "''dr''"
      "\<lparr>tabs = (\<lambda>t. if t = ''trips'' then [sample_trip] else []), faults = []\<rparr>" "[sample_trip]"]
  by (simp add: sample_api_def sample_pg_encodes sample_pg_scans sample_ctx_def ctx_TenantID_def next_fault_def counter_ok_def
      events_def sample_trip_def)

section \<open>History\<close>

lemma insort_by_key:
  "(\<And>y. y \<in> set xs \<Longrightarrow> le x y \<longleftrightarrow> f x \<le> f y) \<Longrightarrow> insort_by le x xs = insort_key f x xs"
  by (induction xs) auto

lemma sort_by_key:
  "(\<And>x y. x \<in> set xs \<Longrightarrow> y \<in> set xs \<Longrightarrow> le x y \<longleftrightarrow> f x \<le> f y) \<Longrightarrow> sort_by le xs = sort_key f xs"
proof (induction xs)
  case (Cons x xs)
  then have "sort_by le xs = sort_key f xs" by simp
  then have "sort_by le (x # xs) = insort_by le x (sort_key f xs)" by (simp add: sort_by_def)
  also have "\<dots> = insort_key f x (sort_key f xs)" by (rule insort_by_key) (use Cons.prems in auto)
  finally show ?case by simp
qed (simp add: sort_by_def)

lemma rows_scanned_fits:
  assumes "scans_as_documented pg" "list_all (list_all2 fits ds) rows"
  shows "rows_scanned pg ds rows = map (\<lambda>r. (map go_of r, None)) rows"
  using assms(2) by (induction rows) (auto simp: documented_scan [OF assms(1)])

definition history_cols :: "string list" where
  "history_cols = [''timestamp'', ''lat'', ''lng'', ''altitude'', ''speed'', ''heading'', ''satellites'', ''valid'',
     ''ignition'', ''movement'', ''external_voltage'', ''battery_level'']"

definition instant :: "row \<Rightarrow> int" where
  "instant r = (case r ''timestamp'' of STime t \<Rightarrow> t | _ \<Rightarrow> 0)"

definition in_window :: "int \<Rightarrow> int \<Rightarrow> sval \<Rightarrow> bool" where
  "in_window t0 t1 v \<longleftrightarrow> in_range v (STime (t0 div 1000)) (STime (t1 div 1000))"

text \<open>
  C28: the history of a device is what was stored: on a working connection
  \<open>GET /devices/{id}/history\<close> returns the records of the device in the tenant whose timestamp
  lies in the requested window (in microseconds, bounds included), in ascending order of
  time, the first 5000 of them, each with all its twelve values.
\<close>

theorem history_exact:
  assumes docs: "encodes_as_documented uuid (api_pg a)" "scans_as_documented (api_pg a)" and clean: "next_fault s = None"
    and window: "parseTimeRange (api_now a) from_q to_q = (t0, t1)"
    and recs: "recs = filter (\<lambda>r. r ''device_id'' = SText x \<and> r ''tenant_id'' = SText (ctx_TenantID c) \<and>
      in_window t0 t1 (r ''timestamp'')) (tabs s ''avl_records'')"
    and typed: "list_all (\<lambda>r. list_all2 fits history_dests (map r history_cols)) recs"
  shows "fst (Device_History a c x from_q to_q s) =
    respondOK (slice_of (map (\<lambda>r. point_obj (map (\<lambda>col. go_of (r col)) history_cols)) (take 5000 (sort_key instant recs))))"
proof -
  let ?pg = "api_pg a" and ?vs = "[SText x, SText (ctx_TenantID c), STime (t0 div 1000), STime (t1 div 1000)]"
  let ?le = "\<lambda>r1 r2. sval_le (pg_collate ?pg) (r1 ''timestamp'') (r2 ''timestamp'')"
  have enc: "collect (map2 (pg_encode ?pg) (fst history_sql) [GStr x, GStr (ctx_TenantID c), GTime t0, GTime t1]) = Ok ?vs"
    using docs(1) by (simp add: history_sql_def encodes_as_documented_def)
  have sel: "filter (holds_all ?pg ?vs [Eq ''device_id'' (Par 1), Eq ''tenant_id'' (Par 2), Between ''timestamp'' (Par 3) (Par 4)])
      (tabs s ''avl_records'') = recs"
    unfolding recs by (auto simp: holds_all_def in_window_def intro!: filter_cong)
  have time: "r ''timestamp'' = STime (instant r)" if "r \<in> set recs" for r
    using that unfolding recs by (cases "r ''timestamp''") (auto simp: in_window_def instant_def)
  have srt: "sort_by ?le recs = sort_key instant recs"
    by (rule sort_by_key) (simp add: time)
  have cols: "map Col [''timestamp'', ''lat'', ''lng'', ''altitude'', ''speed'', ''heading'', ''satellites'', ''valid'',
     ''ignition'', ''movement'', ''external_voltage'', ''battery_level''] = map Col history_cols" by (simp add: history_cols_def)
  let ?rows = "take 5000 (sort_key instant recs)"
  have "exec ?pg ?vs (snd history_sql) (tabs s) = Ok (map (\<lambda>r. map r history_cols) ?rows, tabs s)"
    unfolding history_sql_def snd_conv exec.simps sel cols order_rows.simps limit_rows.simps by (simp add: srt project_cols)
  note run = run_stmt_clean [OF clean enc this]
  have "list_all (list_all2 fits history_dests) (map (\<lambda>r. map r history_cols) ?rows)"
    using typed by (auto simp: list_all_iff dest!: in_set_takeD)
  from rows_scanned_fits [OF docs(2) this] show ?thesis
    by (simp add: Device_History_def window run comp_def)
qed

definition sample_avl_row :: "int \<Rightarrow> row" where
  "sample_avl_row t = (\<lambda>_. SInt 0)(''device_id'' := SText ''352'', ''tenant_id'' := SText ''t1'', ''timestamp'' := STime t,
     ''lat'' := SFloat (Fin 1), ''lng'' := SFloat (Fin 2), ''valid'' := SBool True, ''ignition'' := SBool True,
     ''movement'' := SBool False, ''external_voltage'' := SFloat (Fin 12))"

theorem history_exact_witness:
  "fst (Device_History sample_api sample_ctx ''352'' [] []
      \<lparr>tabs = (\<lambda>t. if t = ''avl_records'' then [sample_avl_row (- 5), sample_avl_row (- 7), sample_avl_row 3] else []), faults = []\<rparr>) =
   respondOK (GArr (map (\<lambda>r. point_obj (map (\<lambda>col. go_of (r col)) history_cols)) [sample_avl_row (- 7), sample_avl_row (- 5)]))"
proof -
  let ?s = "\<lparr>tabs = (\<lambda>t. if t = ''avl_records'' then [sample_avl_row (- 5), sample_avl_row (- 7), sample_avl_row 3] else []), faults = []\<rparr>"
  have w: "parseTimeRange (api_now sample_api) [] [] = (- (24 * Hour), 0)"
    by (simp add: parseTimeRange_def sample_api_def)
  have r: "[sample_avl_row (- 5), sample_avl_row (- 7)] = filter (\<lambda>r. r ''device_id'' = SText ''352'' \<and>
      r ''tenant_id'' = SText (ctx_TenantID sample_ctx) \<and> in_window (- (24 * Hour)) 0 (r ''timestamp'')) (tabs ?s ''avl_records'')"
    by (simp add: sample_avl_row_def in_window_def Hour_def sample_ctx_def ctx_TenantID_def)
  have t: "list_all (\<lambda>r. list_all2 fits history_dests (map r history_cols)) [sample_avl_row (- 5), sample_avl_row (- 7)]"
    by (simp add: sample_avl_row_def history_dests_def history_cols_def)
  have k: "sort_key instant [sample_avl_row (- 5), sample_avl_row (- 7)] = [sample_avl_row (- 7), sample_avl_row (- 5)]"
    by (simp add: instant_def sample_avl_row_def)
  have pg: "encodes_as_documented Some (api_pg sample_api)" "scans_as_documented (api_pg sample_api)"
    by (simp_all add: sample_api_def sample_pg_encodes sample_pg_scans)
  have f: "next_fault ?s = None" by (simp add: next_fault_def)
  show ?thesis
    using history_exact [OF pg f w r t] unfolding k by (simp add: slice_of_def)
qed

section \<open>References to other tenants' vehicles\<close>

text \<open>
  The vehicle a device refers to is not checked for its tenant: creating a device with the
  key of another tenant's vehicle succeeds and stores the reference, and the response tells
  whether such a vehicle exists, so that two databases with the same data of the tenant can
  be told apart.
\<close>

lemma foreign_vehicle_is_accepted:
  "\<exists>s1 s2 body r v. same_view sample_pg ''t1'' s1 s2 \<and>
     fst (Device_Create sample_api sample_ctx (Ok body) s1) = respondCreated (GObj [(''id'', GStr ''new-id'')]) \<and>
     fst (Device_Create sample_api sample_ctx (Ok body) s2) = respondError 500 ''failed to create device'' \<and>
     r \<in> set (tabs (snd (Device_Create sample_api sample_ctx (Ok body) s1)) ''devices'') \<and> v \<in> set (tabs s1 ''vehicles'') \<and>
     r ''vehicle_id'' = v ''id'' \<and> belongs sample_pg ''t1'' ''devices'' r \<and> \<not> belongs sample_pg ''t1'' ''vehicles'' v"
proof -
  let ?v = "(\<lambda>_. SNull)(''id'' := SUuid ''v9'', ''tenant_id'' := SUuid ''t2'') :: row"
  let ?t = "(\<lambda>_. SNull)(''id'' := SUuid ''t1'') :: row"
  let ?b = "\<lparr>db_IMEI = ''352'', db_Name = ''n'', db_Protocol = ''gt06'', db_VehicleID = Some ''v9''\<rparr>"
  let ?s1 = "\<lparr>tabs = (\<lambda>t. if t = ''tenants'' then [?t] else if t = ''vehicles'' then [?v] else []), faults = []\<rparr>"
  let ?s2 = "\<lparr>tabs = (\<lambda>t. if t = ''tenants'' then [?t] else []), faults = []\<rparr>"
  let ?r = "new_device sample_pg ''t1'' ?b (SUuid ''v9'')"
  let ?args = "[GStr ''t1'', GStr ''352'', GStr ''n'', GStr ''gt06'', GStr ''v9'']"
  let ?vs = "[SUuid ''t1'', SText ''352'', SText ''n'', SText ''gt06'', SUuid ''v9'']"
  have pg: "api_pg sample_api = sample_pg" "ctx_TenantID sample_ctx = ''t1''" "pg_fresh sample_pg = ''new-id''"
    by (simp_all add: sample_api_def sample_ctx_def ctx_TenantID_def sample_pg_def)
  have enc: "collect (map2 (pg_encode sample_pg) (fst devices_insert_sql) ?args) = Ok ?vs"
    by (simp add: devices_insert_sql_def sample_pg_def)
  have "allowed (tabs ?s1) ''devices'' [] ?r" "\<not> allowed (tabs ?s2) ''devices'' [] ?r"
    by (simp_all add: allowed_def unique_with_def present_def new_device_def)
  then have ex1: "exec sample_pg ?vs (snd devices_insert_sql) (tabs ?s1) = Ok ([[SUuid ''new-id'']], (tabs ?s1)(''devices'' := [?r]))"
    and ex2: "exec sample_pg ?vs (snd devices_insert_sql) (tabs ?s2) = Err violation"
    using insert_device_exec [of sample_pg "''t1''" ?b "SUuid ''v9''" "tabs ?s1"]
      insert_device_exec [of sample_pg "''t1''" ?b "SUuid ''v9''" "tabs ?s2"] by (simp_all add: pg)
  have run1: "run_stmt sample_pg devices_insert_sql ?args ?s1 =
      (\<lparr>a_err = None, a_rows = [[SUuid ''new-id'']], a_end = None\<rparr>, ?s1\<lparr>faults := tl (faults ?s1), tabs := (tabs ?s1)(''devices'' := [?r])\<rparr>)"
    by (rule run_stmt_clean [OF _ enc ex1]) (simp add: next_fault_def)
  have "snd (run_stmt sample_pg devices_insert_sql ?args ?s2) = ?s2 \<and> a_rows (fst (run_stmt sample_pg devices_insert_sql ?args ?s2)) = [] \<and>
      a_err (fst (run_stmt sample_pg devices_insert_sql ?args ?s2)) = None"
    using ex2 enc by (simp add: run_stmt_def next_fault_def)
  then obtain q2 where run2: "run_stmt sample_pg devices_insert_sql ?args ?s2 = (q2, ?s2)" "a_rows q2 = []" "a_err q2 = None"
    by (metis prod.collapse)
  have c1: "fst (Device_Create sample_api sample_ctx (Ok ?b) ?s1) = respondCreated (GObj [(''id'', GStr ''new-id'')])"
    "tabs (snd (Device_Create sample_api sample_ctx (Ok ?b) ?s1)) ''devices'' = [?r]"
    by (simp_all add: Device_Create_def pg run1 scan_row_def documented_scan [OF sample_pg_scans] var_def)
  have c2: "fst (Device_Create sample_api sample_ctx (Ok ?b) ?s2) = respondError 500 ''failed to create device''"
    by (simp add: Device_Create_def pg run2 scan_row_def)
  have view: "same_view sample_pg ''t1'' ?s1 ?s2"
    by (auto simp: same_view_def own_rows_def fun_eq_iff belongs_def owner_col_def sample_pg_def)
  have own: "belongs sample_pg ''t1'' ''devices'' ?r" "\<not> belongs sample_pg ''t1'' ''vehicles'' ?v"
    by (simp_all add: belongs_def owner_col_def new_device_def sample_pg_def)
  have "?r ''vehicle_id'' = ?v ''id''" by (simp add: new_device_def)
  then show ?thesis
    using c1 c2 view own by (intro exI [of _ ?s1] exI [of _ ?s2] exI [of _ ?b] exI [of _ ?r] exI [of _ ?v]) simp
qed

end
