(* ===== verification/Admin_Tables.thy ===== *)
theory Admin_Tables
  imports Ingestion Auth
begin

text \<open>
  The tables of the admin panel (\<open>api-service/internal/adminpanel/generators.go\<close>): for each
  one what the panel may do with it, the columns it lists and the fields of its form. The
  panel itself (go-admin) is a third-party program; the generators are data it is given. The
  schema is the one of \<open>migrations/\<close>.
\<close>

section \<open>Panel tables\<close>

datatype dbtype = DbVarchar | DbText | DbInt | DbFloat | DbBool | DbTimestamp

datatype formtype = FormText | FormEmail | FormTextArea | FormNumber | FormSwitch | FormSelectSingle

text \<open>A listed column: title, column, type, sortable. A form field: also its widget, whether it
  must be filled in, its options (text and value) and its default.\<close>

datatype info_field = Column (col_title: string) (col_name: string) (col_type: dbtype) (col_sortable: bool)

datatype form_field = Input (in_title: string) (in_name: string) (in_type: dbtype) (in_widget: formtype) (in_must: bool)
  (in_options: "(string \<times> string) list") (in_default: "string option")

record admin_table =
  CanAdd :: bool
  Editable :: bool
  Deletable :: bool
  Exportable :: bool
  PrimaryKey :: string
  info_fields :: "info_field list"
  info_table :: "string \<times> string \<times> string"
  form_fields :: "form_field list"
  form_table :: "(string \<times> string \<times> string) option"

definition getTenantsTable :: admin_table where
  "getTenantsTable =
     \<lparr>CanAdd = True, Editable = True, Deletable = False, Exportable = True, PrimaryKey = ''id'',
      info_fields =
       [Column ''ID'' ''id'' DbVarchar True,
        Column ''Name'' ''name'' DbVarchar True,
        Column ''Slug'' ''slug'' DbVarchar True,
        Column ''Plan'' ''plan'' DbVarchar False,
        Column ''Max Devices'' ''max_devices'' DbInt False,
        Column ''Active'' ''is_active'' DbBool False,
        Column ''Created At'' ''created_at'' DbTimestamp False],
      info_table = (''tenants'', ''Tenants'', ''Tenant management''),
      form_fields =
       [Input ''Name'' ''name'' DbVarchar FormText True [] None,
        Input ''Slug'' ''slug'' DbVarchar FormText True [] None,
        Input ''Plan'' ''plan'' DbVarchar FormSelectSingle False
          [(''Standard'', ''standard''), (''Enterprise'', ''enterprise'')] (Some ''standard''),
        Input ''Max Devices'' ''max_devices'' DbInt FormNumber False [] (Some ''100''),
        Input ''Active'' ''is_active'' DbBool FormSwitch False [('''', ''0''), ('''', ''1'')] (Some ''1'')],
      form_table = Some (''tenants'', ''Tenants'', ''Tenant management'')\<rparr>"

definition getUsersTable :: admin_table where
  "getUsersTable =
     \<lparr>CanAdd = False, Editable = True, Deletable = False, Exportable = True, PrimaryKey = ''id'',
      info_fields =
       [Column ''ID'' ''id'' DbVarchar True,
        Column ''Tenant ID'' ''tenant_id'' DbVarchar False,
        Column ''Name'' ''name'' DbVarchar True,
        Column ''Email'' ''email'' DbVarchar True,
        Column ''Role'' ''role'' DbVarchar False,
        Column ''Phone'' ''phone'' DbVarchar False,
        Column ''Active'' ''is_active'' DbBool False,
        Column ''Last Login'' ''last_login_at'' DbTimestamp False,
        Column ''Created At'' ''created_at'' DbTimestamp False],
      info_table = (''users'', ''Users'', ''Application users''),
      form_fields =
       [Input ''Name'' ''name'' DbVarchar FormText True [] None,
        Input ''Email'' ''email'' DbVarchar FormEmail True [] None,
        Input ''Role'' ''role'' DbVarchar FormSelectSingle False
          [(''Super Admin'', ''super_admin''), (''Tenant Admin'', ''tenant_admin''), (''Fleet Manager'', ''fleet_manager''), (''Dispatcher'', ''dispatcher''), (''Driver'', ''driver'')] (Some ''dispatcher''),
        Input ''Phone'' ''phone'' DbVarchar FormText False [] None,
        Input ''Active'' ''is_active'' DbBool FormSwitch False [('''', ''0''), ('''', ''1'')] (Some ''1'')],
      form_table = Some (''users'', ''Users'', ''Application users'')\<rparr>"

definition getDevicesTable :: admin_table where
  "getDevicesTable =
     \<lparr>CanAdd = True, Editable = True, Deletable = False, Exportable = True, PrimaryKey = ''id'',
      info_fields =
       [Column ''ID'' ''id'' DbVarchar True,
        Column ''Tenant ID'' ''tenant_id'' DbVarchar False,
        Column ''IMEI'' ''imei'' DbVarchar True,
        Column ''Name'' ''name'' DbVarchar True,
        Column ''Protocol'' ''protocol'' DbVarchar False,
        Column ''Vehicle ID'' ''vehicle_id'' DbVarchar False,
        Column ''Last Seen'' ''last_seen_at'' DbTimestamp False,
        Column ''Created At'' ''created_at'' DbTimestamp False],
      info_table = (''devices'', ''Devices'', ''Fleet GPS devices''),
      form_fields =
       [Input ''Tenant ID'' ''tenant_id'' DbVarchar FormText True [] None,
        Input ''IMEI'' ''imei'' DbVarchar FormText True [] None,
        Input ''Name'' ''name'' DbVarchar FormText True [] None,
        Input ''Protocol'' ''protocol'' DbVarchar FormSelectSingle False
          [(''Teltonika'', ''teltonika''), (''GT06'', ''gt06''), (''TK103'', ''tk103''), (''JT808'', ''jt808''), (''AIS140'', ''ais140'')] None,
        Input ''Vehicle ID'' ''vehicle_id'' DbVarchar FormText False [] None],
      form_table = Some (''devices'', ''Devices'', ''Fleet GPS devices'')\<rparr>"

definition getVehiclesTable :: admin_table where
  "getVehiclesTable =
     \<lparr>CanAdd = True, Editable = True, Deletable = False, Exportable = True, PrimaryKey = ''id'',
      info_fields =
       [Column ''ID'' ''id'' DbVarchar True,
        Column ''Tenant ID'' ''tenant_id'' DbVarchar False,
        Column ''Registration'' ''registration'' DbVarchar True,
        Column ''Make'' ''make'' DbVarchar False,
        Column ''Model'' ''model'' DbVarchar False,
        Column ''Year'' ''year'' DbInt False,
        Column ''Fuel Type'' ''fuel_type'' DbVarchar False,
        Column ''Device ID'' ''device_id'' DbVarchar False,
        Column ''Driver ID'' ''driver_id'' DbVarchar False,
        Column ''Created At'' ''created_at'' DbTimestamp False],
      info_table = (''vehicles'', ''Vehicles'', ''Fleet vehicles''),
      form_fields =
       [Input ''Tenant ID'' ''tenant_id'' DbVarchar FormText True [] None,
        Input ''Registration'' ''registration'' DbVarchar FormText True [] None,
        Input ''Make'' ''make'' DbVarchar FormText False [] None,
        Input ''Model'' ''model'' DbVarchar FormText False [] None,
        Input ''Year'' ''year'' DbInt FormNumber False [] None,
        Input ''Fuel Type'' ''fuel_type'' DbVarchar FormText False [] None,
        Input ''Device ID'' ''device_id'' DbVarchar FormText False [] None,
        Input ''Driver ID'' ''driver_id'' DbVarchar FormText False [] None],
      form_table = Some (''vehicles'', ''Vehicles'', ''Fleet vehicles'')\<rparr>"

definition getDriversTable :: admin_table where
  "getDriversTable =
     \<lparr>CanAdd = True, Editable = True, Deletable = False, Exportable = True, PrimaryKey = ''id'',
      info_fields =
       [Column ''ID'' ''id'' DbVarchar True,
        Column ''Tenant ID'' ''tenant_id'' DbVarchar False,
        Column ''Name'' ''name'' DbVarchar True,
        Column ''License Number'' ''license_number'' DbVarchar False,
        Column ''RFID UID'' ''rfid_uid'' DbVarchar False,
        Column ''Phone'' ''phone'' DbVarchar False,
        Column ''Email'' ''email'' DbVarchar False,
        Column ''Score'' ''score_current'' DbFloat False,
        Column ''Created At'' ''created_at'' DbTimestamp False],
      info_table = (''drivers'', ''Drivers'', ''Fleet drivers''),
      form_fields =
       [Input ''Tenant ID'' ''tenant_id'' DbVarchar FormText True [] None,
        Input ''Name'' ''name'' DbVarchar FormText True [] None,
        Input ''License Number'' ''license_number'' DbVarchar FormText False [] None,
        Input ''RFID UID'' ''rfid_uid'' DbVarchar FormText False [] None,
        Input ''Phone'' ''phone'' DbVarchar FormText False [] None,
        Input ''Email'' ''email'' DbVarchar FormEmail False [] None],
      form_table = Some (''drivers'', ''Drivers'', ''Fleet drivers'')\<rparr>"

definition getGeofencesTable :: admin_table where
  "getGeofencesTable =
     \<lparr>CanAdd = False, Editable = True, Deletable = False, Exportable = True, PrimaryKey = ''id'',
      info_fields =
       [Column ''ID'' ''id'' DbVarchar True,
        Column ''Tenant ID'' ''tenant_id'' DbVarchar False,
        Column ''Name'' ''name'' DbVarchar True,
        Column ''Description'' ''description'' DbText False,
        Column ''Shape'' ''shape_type'' DbVarchar False,
        Column ''Radius (m)'' ''radius_m'' DbFloat False,
        Column ''Color'' ''color'' DbVarchar False,
        Column ''Active'' ''is_active'' DbBool False,
        Column ''Created At'' ''created_at'' DbTimestamp False],
      info_table = (''geofences'', ''Geofences'', ''Geofence master data''),
      form_fields =
       [Input ''Name'' ''name'' DbVarchar FormText True [] None,
        Input ''Description'' ''description'' DbText FormTextArea False [] None,
        Input ''Shape'' ''shape_type'' DbVarchar FormSelectSingle False
          [(''Circle'', ''circle''), (''Polygon'', ''polygon''), (''Corridor'', ''corridor'')] None,
        Input ''Radius (m)'' ''radius_m'' DbFloat FormNumber False [] None,
        Input ''Color'' ''color'' DbVarchar FormText False [] None,
        Input ''Active'' ''is_active'' DbBool FormSwitch False [('''', ''0''), ('''', ''1'')] (Some ''1'')],
      form_table = Some (''geofences'', ''Geofences'', ''Geofence master data'')\<rparr>"

definition getGeofenceEventsTable :: admin_table where
  "getGeofenceEventsTable =
     \<lparr>CanAdd = False, Editable = False, Deletable = False, Exportable = True, PrimaryKey = ''id'',
      info_fields =
       [Column ''ID'' ''id'' DbVarchar True,
        Column ''Tenant ID'' ''tenant_id'' DbVarchar False,
        Column ''Geofence ID'' ''geofence_id'' DbVarchar False,
        Column ''Device ID'' ''device_id'' DbVarchar False,
        Column ''Vehicle ID'' ''vehicle_id'' DbVarchar False,
        Column ''Event Type'' ''event_type'' DbVarchar False,
        Column ''Triggered At'' ''triggered_at'' DbTimestamp True,
        Column ''Duration (s)'' ''duration_s'' DbInt False,
        Column ''Speed'' ''speed'' DbInt False],
      info_table = (''geofence_events'', ''Geofence Events'', ''Entry and exit events''),
      form_fields =
       [],
      form_table = None\<rparr>"

definition getTripsTable :: admin_table where
  "getTripsTable =
     \<lparr>CanAdd = False, Editable = False, Deletable = False, Exportable = True, PrimaryKey = ''id'',
      info_fields =
       [Column ''ID'' ''id'' DbVarchar True,
        Column ''Tenant ID'' ''tenant_id'' DbVarchar False,
        Column ''Device ID'' ''device_id'' DbVarchar False,
        Column ''Vehicle ID'' ''vehicle_id'' DbVarchar False,
        Column ''Driver ID'' ''driver_id'' DbVarchar False,
        Column ''Started At'' ''started_at'' DbTimestamp True,
        Column ''Ended At'' ''ended_at'' DbTimestamp False,
        Column ''Distance (m)'' ''distance_m'' DbInt False,
        Column ''Duration (s)'' ''duration_s'' DbInt False,
        Column ''Max Speed'' ''max_speed'' DbInt False,
        Column ''Avg Speed'' ''avg_speed'' DbFloat False,
        Column ''Idle Time (s)'' ''idle_time_s'' DbInt False],
      info_table = (''trips'', ''Trips'', ''Trip analytics''),
      form_fields =
       [],
      form_table = None\<rparr>"

definition getAlertRulesTable :: admin_table where
  "getAlertRulesTable =
     \<lparr>CanAdd = True, Editable = True, Deletable = False, Exportable = True, PrimaryKey = ''id'',
      info_fields =
       [Column ''ID'' ''id'' DbVarchar True,
        Column ''Tenant ID'' ''tenant_id'' DbVarchar False,
        Column ''Name'' ''name'' DbVarchar True,
        Column ''Template'' ''template_id'' DbVarchar False,
        Column ''Cooldown (s)'' ''cooldown_s'' DbInt False,
        Column ''Active'' ''is_active'' DbBool False,
        Column ''Created At'' ''created_at'' DbTimestamp False],
      info_table = (''alert_rules'', ''Alert Rules'', ''Alert rule engine configuration''),
      form_fields =
       [Input ''Tenant ID'' ''tenant_id'' DbVarchar FormText True [] None,
        Input ''Name'' ''name'' DbVarchar FormText True [] None,
        Input ''Template'' ''template_id'' DbVarchar FormText False [] None,
        Input ''Conditions JSON'' ''conditions'' DbText FormTextArea True [] None,
        Input ''Actions JSON'' ''actions'' DbText FormTextArea True [] None,
        Input ''Cooldown (s)'' ''cooldown_s'' DbInt FormNumber False [] (Some ''300''),
        Input ''Active'' ''is_active'' DbBool FormSwitch False [('''', ''0''), ('''', ''1'')] (Some ''1'')],
      form_table = Some (''alert_rules'', ''Alert Rules'', ''Alert rule engine configuration'')\<rparr>"

definition getAlertsTable :: admin_table where
  "getAlertsTable =
     \<lparr>CanAdd = False, Editable = False, Deletable = False, Exportable = True, PrimaryKey = ''id'',
      info_fields =
       [Column ''ID'' ''id'' DbVarchar True,
        Column ''Tenant ID'' ''tenant_id'' DbVarchar False,
        Column ''Device ID'' ''device_id'' DbVarchar False,
        Column ''Rule ID'' ''rule_id'' DbVarchar False,
        Column ''Type'' ''alert_type'' DbVarchar False,
        Column ''Severity'' ''severity'' DbVarchar False,
        Column ''Message'' ''message'' DbText False,
        Column ''Triggered At'' ''triggered_at'' DbTimestamp True,
        Column ''Acknowledged At'' ''acknowledged_at'' DbTimestamp False,
        Column ''Acknowledged By'' ''acknowledged_by'' DbVarchar False],
      info_table = (''alerts'', ''Alerts'', ''Triggered alerts''),
      form_fields =
       [],
      form_table = None\<rparr>"

definition getAVLRecordsTable :: admin_table where
  "getAVLRecordsTable =
     \<lparr>CanAdd = False, Editable = False, Deletable = False, Exportable = True, PrimaryKey = ''device_id'',
      info_fields =
       [Column ''Device ID'' ''device_id'' DbVarchar True,
        Column ''Tenant ID'' ''tenant_id'' DbVarchar False,
        Column ''Timestamp'' ''timestamp'' DbTimestamp True,
        Column ''Lat'' ''lat'' DbFloat False,
        Column ''Lng'' ''lng'' DbFloat False,
        Column ''Speed'' ''speed'' DbInt False,
        Column ''Heading'' ''heading'' DbInt False,
        Column ''Ignition'' ''ignition'' DbBool False,
        Column ''Movement'' ''movement'' DbBool False,
        Column ''SOS'' ''sos_event'' DbBool False],
      info_table = (''avl_records'', ''AVL Records'', ''Raw telemetry stream''),
      form_fields =
       [],
      form_table = None\<rparr>"

definition Generators :: "(string \<times> admin_table) list" where
  "Generators =
     [(''tenants'', getTenantsTable), (''users'', getUsersTable), (''devices'', getDevicesTable),
      (''vehicles'', getVehiclesTable), (''drivers'', getDriversTable), (''geofences'', getGeofencesTable),
      (''geofence-events'', getGeofenceEventsTable), (''trips'', getTripsTable), (''alert-rules'', getAlertRulesTable),
      (''alerts'', getAlertsTable), (''avl-records'', getAVLRecordsTable)]"

lemmas table_defs = getTenantsTable_def getUsersTable_def getDevicesTable_def getVehiclesTable_def getDriversTable_def
  getGeofencesTable_def getGeofenceEventsTable_def getTripsTable_def getAlertRulesTable_def getAlertsTable_def getAVLRecordsTable_def

section \<open>The schema\<close>

datatype coltype = ColText | ColUuid | ColJson | ColInt | ColBool | ColTime | ColFloat | ColGeometry | ColDate

text \<open>A column, its type, and whether an insert has to supply it (NOT NULL without a default).\<close>

datatype schema_col = SchemaCol (sc_name: string) (sc_type: coltype) (sc_required: bool)

definition tenants_schema :: "schema_col list" where
  "tenants_schema =
     [SchemaCol ''id'' ColUuid False, SchemaCol ''name'' ColText True, SchemaCol ''slug'' ColText True,
      SchemaCol ''plan'' ColText False, SchemaCol ''settings'' ColJson False, SchemaCol ''max_devices'' ColInt False,
      SchemaCol ''is_active'' ColBool False, SchemaCol ''created_at'' ColTime False, SchemaCol ''updated_at'' ColTime False,
      SchemaCol ''deleted_at'' ColTime False]"

definition users_schema :: "schema_col list" where
  "users_schema =
     [SchemaCol ''id'' ColUuid False, SchemaCol ''tenant_id'' ColUuid True, SchemaCol ''email'' ColText True,
      SchemaCol ''password_hash'' ColText True, SchemaCol ''name'' ColText True, SchemaCol ''role'' ColText False,
      SchemaCol ''phone'' ColText False, SchemaCol ''is_active'' ColBool False, SchemaCol ''last_login_at'' ColTime False,
      SchemaCol ''created_at'' ColTime False, SchemaCol ''updated_at'' ColTime False, SchemaCol ''deleted_at'' ColTime False]"

definition devices_schema :: "schema_col list" where
  "devices_schema =
     [SchemaCol ''id'' ColUuid False, SchemaCol ''tenant_id'' ColUuid True, SchemaCol ''imei'' ColText True,
      SchemaCol ''name'' ColText True, SchemaCol ''protocol'' ColText False, SchemaCol ''vehicle_id'' ColUuid False,
      SchemaCol ''firmware_ver'' ColText False, SchemaCol ''sim_iccid'' ColText False, SchemaCol ''phone_number'' ColText False,
      SchemaCol ''last_seen_at'' ColTime False, SchemaCol ''created_at'' ColTime False, SchemaCol ''updated_at'' ColTime False,
      SchemaCol ''deleted_at'' ColTime False]"

definition vehicles_schema :: "schema_col list" where
  "vehicles_schema =
     [SchemaCol ''id'' ColUuid False, SchemaCol ''tenant_id'' ColUuid True, SchemaCol ''registration'' ColText True,
      SchemaCol ''make'' ColText False, SchemaCol ''model'' ColText False, SchemaCol ''year'' ColInt False,
      SchemaCol ''fuel_type'' ColText False, SchemaCol ''device_id'' ColUuid False, SchemaCol ''driver_id'' ColUuid False,
      SchemaCol ''group_id'' ColUuid False, SchemaCol ''odometer_offset'' ColInt False, SchemaCol ''created_at'' ColTime False,
      SchemaCol ''updated_at'' ColTime False, SchemaCol ''deleted_at'' ColTime False]"

definition drivers_schema :: "schema_col list" where
  "drivers_schema =
     [SchemaCol ''id'' ColUuid False, SchemaCol ''tenant_id'' ColUuid True, SchemaCol ''name'' ColText True,
      SchemaCol ''license_number'' ColText False, SchemaCol ''license_expiry'' ColDate False, SchemaCol ''rfid_uid'' ColText False,
      SchemaCol ''phone'' ColText False, SchemaCol ''email'' ColText False, SchemaCol ''score_current'' ColFloat False,
      SchemaCol ''created_at'' ColTime False, SchemaCol ''updated_at'' ColTime False, SchemaCol ''deleted_at'' ColTime False]"

definition avl_records_schema :: "schema_col list" where
  "avl_records_schema =
     [SchemaCol ''device_id'' ColText True, SchemaCol ''tenant_id'' ColText True, SchemaCol ''timestamp'' ColTime True,
      SchemaCol ''received_at'' ColTime False, SchemaCol ''lat'' ColFloat True, SchemaCol ''lng'' ColFloat True,
      SchemaCol ''altitude'' ColInt False, SchemaCol ''speed'' ColInt False, SchemaCol ''heading'' ColInt False,
      SchemaCol ''satellites'' ColInt False, SchemaCol ''valid'' ColBool False, SchemaCol ''priority'' ColInt False,
      SchemaCol ''raw_codec'' ColInt False, SchemaCol ''ignition'' ColBool False, SchemaCol ''movement'' ColBool False,
      SchemaCol ''external_voltage'' ColFloat False, SchemaCol ''battery_voltage'' ColFloat False, SchemaCol ''battery_level'' ColInt False,
      SchemaCol ''gnss_status'' ColInt False, SchemaCol ''gsm_signal'' ColInt False, SchemaCol ''engine_rpm'' ColInt False,
      SchemaCol ''fuel_level'' ColInt False, SchemaCol ''temperature_1'' ColFloat False, SchemaCol ''user_id'' ColText False,
      SchemaCol ''sos_event'' ColBool False, SchemaCol ''can_speed'' ColInt False, SchemaCol ''io_data'' ColJson False]"

definition geofences_schema :: "schema_col list" where
  "geofences_schema =
     [SchemaCol ''id'' ColUuid False, SchemaCol ''tenant_id'' ColUuid True, SchemaCol ''name'' ColText True,
      SchemaCol ''description'' ColText False, SchemaCol ''shape_type'' ColText True, SchemaCol ''geometry'' ColGeometry True,
      SchemaCol ''radius_m'' ColFloat False, SchemaCol ''color'' ColText False, SchemaCol ''is_active'' ColBool False,
      SchemaCol ''created_at'' ColTime False, SchemaCol ''updated_at'' ColTime False, SchemaCol ''deleted_at'' ColTime False]"

definition geofence_events_schema :: "schema_col list" where
  "geofence_events_schema =
     [SchemaCol ''id'' ColUuid False, SchemaCol ''tenant_id'' ColUuid True, SchemaCol ''geofence_id'' ColUuid True,
      SchemaCol ''device_id'' ColText True, SchemaCol ''vehicle_id'' ColUuid False, SchemaCol ''event_type'' ColText True,
      SchemaCol ''triggered_at'' ColTime True, SchemaCol ''duration_s'' ColInt False, SchemaCol ''position'' ColGeometry False,
      SchemaCol ''speed'' ColInt False]"

definition trips_schema :: "schema_col list" where
  "trips_schema =
     [SchemaCol ''id'' ColUuid False, SchemaCol ''tenant_id'' ColUuid True, SchemaCol ''device_id'' ColText True,
      SchemaCol ''vehicle_id'' ColUuid False, SchemaCol ''driver_id'' ColUuid False, SchemaCol ''started_at'' ColTime True,
      SchemaCol ''ended_at'' ColTime False, SchemaCol ''start_lat'' ColFloat False, SchemaCol ''start_lng'' ColFloat False,
      SchemaCol ''start_address'' ColText False, SchemaCol ''end_lat'' ColFloat False, SchemaCol ''end_lng'' ColFloat False,
      SchemaCol ''end_address'' ColText False, SchemaCol ''distance_m'' ColInt False, SchemaCol ''duration_s'' ColInt False,
      SchemaCol ''max_speed'' ColInt False, SchemaCol ''avg_speed'' ColFloat False, SchemaCol ''idle_time_s'' ColInt False,
      SchemaCol ''fuel_used_l'' ColFloat False, SchemaCol ''driver_score'' ColFloat False, SchemaCol ''harsh_accel'' ColInt False,
      SchemaCol ''harsh_brake'' ColInt False, SchemaCol ''harsh_corner'' ColInt False, SchemaCol ''overspeed_count'' ColInt False,
      SchemaCol ''path'' ColGeometry False, SchemaCol ''created_at'' ColTime False]"

definition alert_rules_schema :: "schema_col list" where
  "alert_rules_schema =
     [SchemaCol ''id'' ColUuid False, SchemaCol ''tenant_id'' ColUuid True, SchemaCol ''name'' ColText True,
      SchemaCol ''template_id'' ColText False, SchemaCol ''conditions'' ColJson True, SchemaCol ''actions'' ColJson True,
      SchemaCol ''cooldown_s'' ColInt False, SchemaCol ''is_active'' ColBool False, SchemaCol ''created_at'' ColTime False,
      SchemaCol ''updated_at'' ColTime False]"

definition alerts_schema :: "schema_col list" where
  "alerts_schema =
     [SchemaCol ''id'' ColUuid False, SchemaCol ''tenant_id'' ColUuid True, SchemaCol ''device_id'' ColText True,
      SchemaCol ''rule_id'' ColUuid False, SchemaCol ''alert_type'' ColText True, SchemaCol ''severity'' ColText False,
      SchemaCol ''message'' ColText True, SchemaCol ''lat'' ColFloat False, SchemaCol ''lng'' ColFloat False,
      SchemaCol ''speed'' ColInt False, SchemaCol ''io_snapshot'' ColJson False, SchemaCol ''triggered_at'' ColTime False,
      SchemaCol ''acknowledged_at'' ColTime False, SchemaCol ''acknowledged_by'' ColUuid False]"

definition schema :: "string \<Rightarrow> schema_col list" where
  "schema t =
     (if t = ''tenants'' then tenants_schema else if t = ''users'' then users_schema
      else if t = ''devices'' then devices_schema else if t = ''vehicles'' then vehicles_schema
      else if t = ''drivers'' then drivers_schema else if t = ''avl_records'' then avl_records_schema
      else if t = ''geofences'' then geofences_schema else if t = ''geofence_events'' then geofence_events_schema
      else if t = ''trips'' then trips_schema else if t = ''alert_rules'' then alert_rules_schema
      else if t = ''alerts'' then alerts_schema else [])"

lemmas schema_defs = tenants_schema_def users_schema_def devices_schema_def vehicles_schema_def drivers_schema_def
  avl_records_schema_def geofences_schema_def geofence_events_schema_def trips_schema_def alert_rules_schema_def alerts_schema_def

fun presents :: "dbtype \<Rightarrow> coltype \<Rightarrow> bool" where
  "presents DbVarchar c \<longleftrightarrow> c \<in> {ColText, ColUuid}"
| "presents DbText c \<longleftrightarrow> c \<in> {ColText, ColJson}"
| "presents DbInt c \<longleftrightarrow> c = ColInt"
| "presents DbFloat c \<longleftrightarrow> c = ColFloat"
| "presents DbBool c \<longleftrightarrow> c = ColBool"
| "presents DbTimestamp c \<longleftrightarrow> c = ColTime"

definition typed_column :: "string \<Rightarrow> string \<Rightarrow> dbtype \<Rightarrow> bool" where
  "typed_column t c ty \<longleftrightarrow> list_ex (\<lambda>s. sc_name s = c \<and> presents ty (sc_type s)) (schema t)"

text \<open>
  A table fits its schema: every listed column and every form field is a column of the table
  with the declared type, the primary key is one, and if rows can be added the form asks for
  every column that an insert has to supply, and insists on it.
\<close>

definition fits_schema :: "admin_table \<Rightarrow> bool" where
  "fits_schema a \<longleftrightarrow>
     (let t = fst (info_table a) in
      list_all (\<lambda>f. typed_column t (col_name f) (col_type f)) (info_fields a) \<and>
      list_all (\<lambda>f. typed_column t (in_name f) (in_type f)) (form_fields a) \<and>
      list_ex (\<lambda>s. sc_name s = PrimaryKey a) (schema t) \<and>
      (CanAdd a \<longrightarrow> list_all (\<lambda>s. sc_required s \<longrightarrow> list_ex (\<lambda>f. in_name f = sc_name s \<and> in_must f) (form_fields a)) (schema t)))"

text \<open>The values a form offers for a column.\<close>

definition offered :: "admin_table \<Rightarrow> string \<Rightarrow> string set" where
  "offered a c = set (concat (map (\<lambda>f. if in_name f = c then map snd (in_options f) else []) (form_fields a)))"

lemma tables_fit:
  "fits_schema getTenantsTable" "fits_schema getUsersTable" "fits_schema getDevicesTable" "fits_schema getVehiclesTable"
  "fits_schema getDriversTable" "fits_schema getGeofencesTable" "fits_schema getGeofenceEventsTable" "fits_schema getTripsTable"
  "fits_schema getAlertRulesTable" "fits_schema getAlertsTable" "fits_schema getAVLRecordsTable"
  by code_simp+


end
