(* ===== verification/Stream_Consumer.thy ===== *)
theory Stream_Consumer
  imports Stream_Processor
begin

text \<open>
  The consumer loop of the stream processor (\<open>stream-processor/cmd/main.go\<close>): messages of
  all devices are handled one after the other. The trip machine keeps its state in two
  Redis keys per device; the loop keeps the devices apart as long as their keys differ.
\<close>

section \<open>The loop\<close>

text \<open>
  The messages the iterator delivers until it fails, each with the processor's clock at the
  time it is handled.
\<close>

definition consume :: "'w services \<Rightarrow> codecs \<Rightarrow> (int \<times> string) list \<Rightarrow> 'w sys \<Rightarrow> 'w sys" where
  "consume svc cd msgs s = foldl (\<lambda>s (now, data). processMessage svc cd now data s) s msgs"

text \<open>Documented of Redis and JetStream: publishing changes no key.\<close>

definition publish_keeps :: "'w services \<Rightarrow> ('w \<Rightarrow> string \<rightharpoonup> string) \<Rightarrow> bool" where
  "publish_keeps svc kv \<longleftrightarrow>
     (\<forall>ch v w. kv (snd (redis_op svc (RPublish ch v) w)) = kv w) \<and> (\<forall>a b c w. kv (snd (js_op svc a b c w)) = kv w)"

lemma sample_services_publish: "publish_keeps sample_services (\<lambda>w. w)"
  by (simp add: publish_keeps_def sample_services_def)

section \<open>What a message leaves alone\<close>

definition live_key :: "string \<Rightarrow> bool" where
  "live_key k \<longleftrightarrow> (\<exists>t d. k = KeyDeviceLive t d)"

lemma trip_keys_not_live [simp]: "\<not> live_key (stateKey d)" "\<not> live_key (tripIdKey d)"
  by (auto simp: live_key_def KeyDeviceLive_def stateKey_def tripIdKey_def)

text \<open>Same trip keys and same statements on trips so far.\<close>

definition trip_same :: "('w \<Rightarrow> string \<rightharpoonup> string) \<Rightarrow> 'w sys \<Rightarrow> 'w sys \<Rightarrow> bool" where
  "trip_same kv s s' \<longleftrightarrow> (\<forall>k. \<not> live_key k \<longrightarrow> kv (ext s') k = kv (ext s) k) \<and> trip_sqls (trace s') = trip_sqls (trace s)"

lemma trip_same_refl [simp]: "trip_same kv s s"
  by (simp add: trip_same_def)

lemma trip_same_trans: "trip_same kv s t \<Longrightarrow> trip_same kv t u \<Longrightarrow> trip_same kv s u"
  by (simp add: trip_same_def)

fun on_trips :: "sql \<Rightarrow> bool" where
  "on_trips (InsertTrip t d ts la lo) = True"
| "on_trips (EndTrip ts la lo i) = True"
| "on_trips q = False"

lemma trip_same_ops:
  assumes "redis_view svc kv" "publish_keeps svc kv"
  shows "\<not> on_trips q \<Longrightarrow> trip_same kv s (snd (run_sql svc q s))"
    "trip_same kv s (snd (run_redis svc (RSet (KeyDeviceLive t d) v ttl) s))"
    "trip_same kv s (snd (run_redis svc (RPublish ch v) s))"
    "trip_same kv s (snd (run_publish svc a b c s))"
    "trip_same kv s (emit Ack s)" "trip_same kv s (emit Nak s)"
proof -
  show "\<not> on_trips q \<Longrightarrow> trip_same kv s (snd (run_sql svc q s))"
    by (cases q) (simp_all add: trip_same_def kv_run [OF assms(1)] trip_sqls_append trip_sqls_def)
  show "trip_same kv s (snd (run_redis svc (RSet (KeyDeviceLive t d) v ttl) s))"
    by (auto simp: trip_same_def kv_run [OF assms(1)] trip_sqls_append live_key_def) (simp add: trip_sqls_def)
  show "trip_same kv s (snd (run_redis svc (RPublish ch v) s))" "trip_same kv s (snd (run_publish svc a b c s))"
    using assms(2) by (simp_all add: trip_same_def publish_keeps_def run_redis_def run_publish_def case_prod_unfold trip_sqls_append)
      (simp_all add: trip_sqls_def)
  show "trip_same kv s (emit Ack s)" "trip_same kv s (emit Nak s)"
    by (simp_all add: trip_same_def emit_def trip_sqls_append) (simp_all add: trip_sqls_def)
qed

lemma trip_same_pipeline:
  assumes kv: "redis_view svc kv" "publish_keeps svc kv"
  shows "trip_same kv s (snd (lookup_tenant svc raw s))"
    "trip_same kv s (AlertEvaluator_Evaluate svc rec (GeofenceEngine_Check svc rec s))"
    "trip_same kv s (snd (TimescaleWriter_Write svc io rec s))"
    "trip_same kv s (snd (UpdateLive svc m rec s))" "trip_same kv s (snd (PublishLive svc m rec s))"
proof -
  note ops = trip_same_ops [OF kv]
  show "trip_same kv s (snd (lookup_tenant svc raw s))"
    by (auto simp: lookup_tenant_def case_prod_unfold intro: ops)
  have "trip_same kv s (GeofenceEngine_Check svc rec s)" by (simp add: GeofenceEngine_Check_def ops)
  moreover have "trip_same kv t (AlertEvaluator_Evaluate svc rec t)" for t
    by (auto simp: AlertEvaluator_Evaluate_def Let_def alert_row_def intro!: ops trip_same_trans [OF ops(1) ops(1)])
  ultimately show "trip_same kv s (AlertEvaluator_Evaluate svc rec (GeofenceEngine_Check svc rec s))" by (blast intro: trip_same_trans)
  obtain r s1 where w: "run_sql svc (InsertAVL rec (io (er_IOData rec))) s = (r, s1)" by fastforce
  have "trip_same kv s s1" using ops(1) [of "InsertAVL rec (io (er_IOData rec))" s] w by simp
  then show "trip_same kv s (snd (TimescaleWriter_Write svc io rec s))"
    by (cases r) (auto simp: TimescaleWriter_Write_def w intro: trip_same_trans [OF _ ops(1)])
  show "trip_same kv s (snd (UpdateLive svc m rec s))" "trip_same kv s (snd (PublishLive svc m rec s))"
    by (auto simp: UpdateLive_def PublishLive_def case_prod_unfold split: option.splits intro: ops)
qed

text \<open>Seen from the trips, handling a message is running the trip machine on its enriched record.\<close>

lemma message_is_trip_step:
  assumes kv: "redis_view svc kv" "publish_keeps svc kv" and raw: "unmarshal_raw cd data = Some raw"
  obtains rec s0 where "er_DeviceID rec = DeviceID raw" "er_Speed rec = Speed raw" "trip_same kv s s0"
    "trip_same kv (TripMachine_Process svc rec s0) (processMessage svc cd now data s)"
proof -
  let ?s0 = "snd (lookup_tenant svc raw s)"
  obtain rec s1 where p: "Pipeline_Process svc now raw s = (rec, s1)" by fastforce
  then have s1: "s1 = AlertEvaluator_Evaluate svc rec (GeofenceEngine_Check svc rec (TripMachine_Process svc rec ?s0))"
    by (auto simp: Pipeline_Process_eq case_prod_unfold Let_def)
  note same = trip_same_pipeline [OF kv] and ops = trip_same_ops [OF kv]
  obtain r s2 where w: "TimescaleWriter_Write svc (marshal_io cd) rec s1 = (r, s2)" by fastforce
  have s2: "trip_same kv s1 s2" using same(3) [of s1 "marshal_io cd" rec] w by simp
  let ?s3 = "snd (UpdateLive svc (marshal_map cd) rec s2)"
  let ?s4 = "case marshal_enriched cd rec of Some d \<Rightarrow> snd (run_publish svc SubjectEnrichedAVL (enriched_msgID rec) d ?s3) | None \<Rightarrow> ?s3"
  have "trip_same kv s2 ?s4"
    using same(4) [of s2 "marshal_map cd" rec] by (auto split: option.splits intro: trip_same_trans ops(4))
  then have "trip_same kv s2 (emit Ack (snd (PublishLive svc (marshal_map cd) rec ?s4)))"
    by (blast intro: trip_same_trans same(5) ops(5))
  moreover have "processMessage svc cd now data s \<in>
      {emit Ack s1, emit Nak s2, emit Ack (snd (PublishLive svc (marshal_map cd) rec ?s4))}"
    using raw p w by (cases r) (auto simp: processMessage_def Let_def)
  ultimately have "trip_same kv s1 (processMessage svc cd now data s)"
    using s2 ops(5) [of s1] ops(6) [of s2] by (auto intro: trip_same_trans)
  with same(2) have "trip_same kv (TripMachine_Process svc rec ?s0) (processMessage svc cd now data s)"
    unfolding s1 by (blast intro: trip_same_trans)
  then show thesis using rec_of_pipeline [of svc now raw s] p by (intro that [of rec ?s0]) (simp_all add: same(1))
qed

lemma TripMachine_frame:
  assumes kv: "redis_view svc kv" and "k \<noteq> stateKey (er_DeviceID rec)" "k \<noteq> tripIdKey (er_DeviceID rec)"
  shows "kv (ext (TripMachine_Process svc rec s)) k = kv (ext s) k"
  using assms(2,3) by (auto simp: TripMachine_Process_def case_prod_unfold Let_def kv_run [OF kv] split: sum.splits)

lemma represents_cong:
  "m' (stateKey d) = m (stateKey d) \<Longrightarrow> m' (tripIdKey d) = m (tripIdKey d) \<Longrightarrow> represents m' d t = represents m d t"
  by (cases t) simp_all

section \<open>Devices are kept apart\<close>

text \<open>No device of the set is named like another one's trip key.\<close>

definition keys_apart :: "string set \<Rightarrow> bool" where
  "keys_apart devs \<longleftrightarrow> (\<forall>d \<in> devs. d @ '':tripid'' \<notin> devs)"

lemma keys_apartD:
  assumes "keys_apart devs" "d \<in> devs" "e \<in> devs" "d \<noteq> e"
  shows "stateKey e \<noteq> stateKey d" "stateKey e \<noteq> tripIdKey d" "tripIdKey e \<noteq> stateKey d" "tripIdKey e \<noteq> tripIdKey d"
  using assms by (auto simp: keys_apart_def stateKey_def tripIdKey_def)

definition of_device :: "string \<Rightarrow> (EnrichedRecord \<times> sql list) list \<Rightarrow> (EnrichedRecord \<times> sql list) list" where
  "of_device d steps = filter (\<lambda>p. er_DeviceID (fst p) = d) steps"

definition decoded :: "codecs \<Rightarrow> (int \<times> string) list \<Rightarrow> ParsedRecord list" where
  "decoded cd msgs = List.map_filter (\<lambda>m. unmarshal_raw cd (snd m)) msgs"

lemma consume_simps [simp]:
  "consume svc cd [] s = s"
  "consume svc cd (m # msgs) s = consume svc cd msgs (processMessage svc cd (fst m) (snd m) s)"
  by (simp_all add: consume_def case_prod_unfold)

lemma trip_same_represents: "trip_same kv s s' \<Longrightarrow> represents (kv (ext s')) d t = represents (kv (ext s)) d t"
  by (rule represents_cong) (simp_all add: trip_same_def)

text \<open>One message: its device makes a step of the specification, the others none.\<close>

lemma message_refines:
  assumes kv: "redis_view svc kv" "publish_keeps svc kv" and ids: "trip_ids svc" and apart: "keys_apart devs"
    and raw: "unmarshal_raw cd data = Some raw" "DeviceID raw \<in> devs" and rep: "\<forall>d \<in> devs. represents (kv (ext s)) d (T d)"
  shows "\<exists>rec out t'. er_DeviceID rec = DeviceID raw \<and> er_Speed rec = Speed raw \<and> trip_step (T (DeviceID raw)) rec out t' \<and>
    trip_sqls (trace (processMessage svc cd now data s)) = trip_sqls (trace s) @ out \<and>
    (\<forall>d \<in> devs. represents (kv (ext (processMessage svc cd now data s))) d ((T(DeviceID raw := t')) d))"
proof -
  let ?s' = "processMessage svc cd now data s" and ?e = "DeviceID raw"
  obtain rec s0 where m: "er_DeviceID rec = ?e" "er_Speed rec = Speed raw" "trip_same kv s s0" "trip_same kv (TripMachine_Process svc rec s0) ?s'"
    by (rule message_is_trip_step [OF kv raw(1)])
  let ?s1 = "TripMachine_Process svc rec s0"
  have "represents (kv (ext s0)) (er_DeviceID rec) (T ?e)" using rep raw(2) m(1) trip_same_represents [OF m(3)] by simp
  from trip_step_refines [OF kv(1) ids this] obtain t' out es where
    st: "trip_step (T ?e) rec out t'" "represents (kv (ext ?s1)) ?e t'" "trace ?s1 = trace s0 @ es" "trip_sqls es = out"
    using m(1) by auto
  have "represents (kv (ext ?s')) d ((T(?e := t')) d)" if d: "d \<in> devs" for d
  proof (cases "d = ?e")
    case True
    with st(2) trip_same_represents [OF m(4)] show ?thesis by simp
  next
    case False
    note differ = keys_apartD [OF apart raw(2) d False [symmetric]]
    have "represents (kv (ext ?s1)) d (T d) = represents (kv (ext s0)) d (T d)"
      by (rule represents_cong) (simp_all add: TripMachine_frame [OF kv(1)] differ m(1))
    with rep d False trip_same_represents [OF m(3)] trip_same_represents [OF m(4)] show ?thesis by simp
  qed
  moreover have "trip_sqls (trace ?s') = trip_sqls (trace s) @ out"
    using m(3,4) st(3,4) by (simp add: trip_same_def trip_sqls_append)
  ultimately show ?thesis using m(1,2) st(1) by blast
qed



text \<open>
  Without that condition they are not: the state of a tracker that gives its identifier as
  another one's with \<open>:tripid\<close> added (the text protocols take any identifier) is overwritten
  when the other one starts a trip, and its own trip is never ended.
\<close>

definition moving :: "string \<Rightarrow> u16 \<Rightarrow> EnrichedRecord" where
  "moving d v = initial_record 0 ''tenant-a'' (zero_record\<lparr>DeviceID := d, Speed := v\<rparr>)"

lemma trip_keys_collide:
  "trip_sqls (trace (foldl (\<lambda>s r. TripMachine_Process sample_services r s) \<lparr>ext = Map.empty, trace = []\<rparr>
     [moving ''7:tripid'' 40, moving ''7'' 40, moving ''7:tripid'' 0])) =
   [InsertTrip ''tenant-a'' ''7:tripid'' 0 (Fin 0) (Fin 0), InsertTrip ''tenant-a'' ''7'' 0 (Fin 0) (Fin 0)]"
  by (simp add: TripMachine_Process_def run_redis_def run_sql_def sample_services_def moving_def initial_record_def zero_record_def
      stateKey_def tripIdKey_def StateIdle_def StateActive_def Let_def trip_sqls_def)

end
