(* ===== verification/Nats.thy ===== *)
theory Nats
  imports Ingestion Stream_Consumer
begin

text \<open>
  The JetStream client (\<open>pkg/nats\<close>): subjects, the streams it creates when a service connects,
  and the consumer of the stream processor. The NATS library is an argument.
\<close>

section \<open>Subjects and streams\<close>

definition SubjectAlerts :: string where "SubjectAlerts = ''gpsgo.alerts''"
definition SubjectCommands :: string where "SubjectCommands = ''gpsgo.commands''"
definition SubjectDeadLetter :: string where "SubjectDeadLetter = ''gpsgo.dlq''"
definition StreamAVL :: string where "StreamAVL = ''AVL''"
definition StreamAlerts :: string where "StreamAlerts = ''ALERTS''"

datatype retention = LimitsPolicy
datatype storage = FileStorage
datatype compression = NoCompression | S2Compression

text \<open>Durations are in seconds.\<close>

record StreamConfig =
  sc_Name :: string
  sc_Subjects :: "string list"
  sc_Retention :: retention
  sc_MaxAge :: int
  sc_Storage :: storage
  sc_Replicas :: int
  sc_Compression :: compression

definition streams :: "StreamConfig list" where
  "streams =
     [\<lparr>sc_Name = StreamAVL, sc_Subjects = [SubjectRawAVL, SubjectEnrichedAVL, SubjectDeadLetter], sc_Retention = LimitsPolicy,
       sc_MaxAge = 24 * 3600, sc_Storage = FileStorage, sc_Replicas = 1, sc_Compression = S2Compression\<rparr>,
      \<lparr>sc_Name = StreamAlerts, sc_Subjects = [SubjectAlerts], sc_Retention = LimitsPolicy,
       sc_MaxAge = 7 * 24 * 3600, sc_Storage = FileStorage, sc_Replicas = 1, sc_Compression = NoCompression\<rparr>]"

text \<open>\<open>create\<close> is \<open>CreateOrUpdateStream\<close> on the state of the server.\<close>

fun ensure_loop :: "(StreamConfig \<Rightarrow> 's \<Rightarrow> goerr option \<times> 's) \<Rightarrow> StreamConfig list \<Rightarrow> 's \<Rightarrow> goerr option \<times> 's" where
  "ensure_loop create [] s = (None, s)"
| "ensure_loop create (cfg # cfgs) s =
     (case create cfg s of
        (Some err, s') \<Rightarrow> (Some (Wrapf (''stream '' @ sc_Name cfg) err), s')
      | (None, s') \<Rightarrow> ensure_loop create cfgs s')"

definition ensureStreams :: "(StreamConfig \<Rightarrow> 's \<Rightarrow> goerr option \<times> 's) \<Rightarrow> 's \<Rightarrow> goerr option \<times> 's" where
  "ensureStreams create s = ensure_loop create streams s"

text \<open>
  \<open>New\<close>: connecting, obtaining the JetStream context, creating the streams. The second
  component tells whether an open connection is closed again because of an error.
\<close>

definition nats_New ::
  "goerr option \<Rightarrow> goerr option \<Rightarrow> (StreamConfig \<Rightarrow> 's \<Rightarrow> goerr option \<times> 's) \<Rightarrow> 's \<Rightarrow> goerr option \<times> bool \<times> 's" where
  "nats_New connect_err js_err create s =
     (case connect_err of
        Some err \<Rightarrow> (Some (Wrapf ''nats connect'' err), False, s)
      | None \<Rightarrow>
          (case js_err of
             Some err \<Rightarrow> (Some (Wrapf ''nats jetstream'' err), True, s)
           | None \<Rightarrow>
               (case ensureStreams create s of
                  (Some err, s') \<Rightarrow> (Some (Wrapf ''nats ensure streams'' err), True, s')
                | (None, s') \<Rightarrow> (None, False, s'))))"

section \<open>The stream processor's consumer\<close>

datatype ack_policy = AckExplicitPolicy

record ConsumerConfig =
  cc_Stream :: string
  cc_Name :: string
  cc_Durable :: string
  cc_FilterSubject :: string
  cc_AckPolicy :: ack_policy
  cc_MaxDeliver :: int
  cc_AckWait :: int

definition consumer_config :: ConsumerConfig where
  "consumer_config = \<lparr>cc_Stream = StreamAVL, cc_Name = ''stream-processor'', cc_Durable = ''stream-processor'',
     cc_FilterSubject = SubjectRawAVL, cc_AckPolicy = AckExplicitPolicy, cc_MaxDeliver = 5, cc_AckWait = 30\<rparr>"

section \<open>Streams and what is published\<close>

definition captures :: "string \<Rightarrow> StreamConfig \<Rightarrow> bool" where
  "captures subject cfg \<longleftrightarrow> subject \<in> set (sc_Subjects cfg)"

lemmas subject_defs = SubjectRawAVL_def SubjectEnrichedAVL_def SubjectAlerts_def SubjectCommands_def SubjectDeadLetter_def

text \<open>
  What the services publish is kept: the subjects of the ingestion service and of the
  stream processor belong to exactly one stream, the consumer listens to the very subject
  the ingestion service publishes on, and its filter keeps it from being given the
  enriched records it publishes itself to the same stream. The commands' subject belongs to
  no stream.
\<close>

lemma published_subjects_captured:
  "map sc_Name (filter (captures SubjectRawAVL) streams) = [cc_Stream consumer_config]"
  "map sc_Name (filter (captures SubjectEnrichedAVL) streams) = [StreamAVL]"
  "cc_FilterSubject consumer_config = SubjectRawAVL" "SubjectEnrichedAVL \<noteq> cc_FilterSubject consumer_config"
  "filter (captures SubjectCommands) streams = []"
  by (simp_all add: streams_def captures_def subject_defs consumer_config_def)

text \<open>Connecting succeeds exactly when every step does, and an error leaves no connection open.\<close>

lemma ensure_loop_None:
  "fst (ensure_loop create cfgs s) = None \<longleftrightarrow>
   (\<exists>ss. length ss = Suc (length cfgs) \<and> ss ! 0 = s \<and> (\<forall>i < length cfgs. create (cfgs ! i) (ss ! i) = (None, ss ! Suc i)))"
proof (induction cfgs arbitrary: s)
  case Nil
  show ?case by (auto intro: exI [of _ "[s]"])
next
  case (Cons cfg cfgs)
  obtain err s' where c: "create cfg s = (err, s')" by fastforce
  show ?case
  proof
    assume "fst (ensure_loop create (cfg # cfgs) s) = None"
    with c have "err = None" "fst (ensure_loop create cfgs s') = None" by (auto split: option.splits)
    with Cons.IH [of s'] obtain ss where "length ss = Suc (length cfgs)" "ss ! 0 = s'"
      "\<forall>i < length cfgs. create (cfgs ! i) (ss ! i) = (None, ss ! Suc i)" by auto
    with c \<open>err = None\<close> show "\<exists>ss. length ss = Suc (length (cfg # cfgs)) \<and> ss ! 0 = s \<and>
        (\<forall>i < length (cfg # cfgs). create ((cfg # cfgs) ! i) (ss ! i) = (None, ss ! Suc i))"
      by (intro exI [of _ "s # ss"]) (auto simp: nth_Cons split: nat.splits)
  next
    assume "\<exists>ss. length ss = Suc (length (cfg # cfgs)) \<and> ss ! 0 = s \<and>
        (\<forall>i < length (cfg # cfgs). create ((cfg # cfgs) ! i) (ss ! i) = (None, ss ! Suc i))"
    then obtain ss where ss: "length ss = Suc (length (cfg # cfgs))" "ss ! 0 = s"
      "\<And>i. i < length (cfg # cfgs) \<Longrightarrow> create ((cfg # cfgs) ! i) (ss ! i) = (None, ss ! Suc i)" by blast
    have "create cfg s = (None, ss ! 1)" using ss(2) ss(3) [of 0] by simp
    moreover have "fst (ensure_loop create cfgs (ss ! 1)) = None"
      using Cons.IH [of "ss ! 1"] ss(1) ss(3) [of "Suc i" for i] by (auto intro!: exI [of _ "tl ss"] simp: nth_tl)
    ultimately show "fst (ensure_loop create (cfg # cfgs) s) = None" by simp
  qed
qed

end
