(* ===== verification/Api_Service.thy ===== *)
theory Api_Service
  imports Api_Router
begin

text \<open>
  The API as its clients see it (\<open>New\<close> of \<open>internal/router/router.go\<close>): all paths, those in
  front of the authentication included, and the authentication handlers with their query and
  their JSON (\<open>internal/handler/auth.go\<close>). What is not answered by the repository's own code,
  the pages of the admin panel and the static files, is an answer of its own kind.
\<close>

section \<open>Authentication handlers\<close>

definition login_user_sql :: prepared where
  "login_user_sql = ([PText], Select [Col ''id'', Col ''tenant_id'', Col ''password_hash'', Col ''role''] ''users''
     [Eq ''email'' (Par 1), IsNull ''deleted_at''] None None)"

text \<open>The variables after a scan without error.\<close>

fun login_vars :: "goval list option \<times> goerr option \<Rightarrow> user_row option" where
  "login_vars (Some [GStr userID, GStr tenantID, GStr passwordHash, GStr roleStr], None) =
     Some \<lparr>u_id = userID, u_tenant_id = tenantID, u_password_hash = passwordHash, u_role = roleStr\<rparr>"
| "login_vars _ = None"

definition userInfo_obj :: "userInfo \<Rightarrow> goval" where
  "userInfo_obj u = GObj [(''id'', GStr (ui_ID u)), (''tenant_id'', GStr (ui_TenantID u)), (''email'', GStr (ui_Email u)), (''role'', GStr (ui_Role u))]"

text \<open>The expiry is an instant of the API's clock, which counts nanoseconds.\<close>

fun auth_response :: "api \<Rightarrow> auth_reply \<Rightarrow> response" where
  "auth_response a (Tokens r) =
     respondOK (GObj ([(''access_token'', GStr (AccessToken r)), (''refresh_token'', GStr (RefreshToken r)),
       (''expires_at'', GTime (api_now a + 15 * 60 * 1000000000))] @
       (case tr_User r of Some u \<Rightarrow> [(''user'', userInfo_obj u)] | None \<Rightarrow> [])))"
| "auth_response a (Refused status msg) = respondError status msg"

definition Login_handler ::
  "api \<Rightarrow> (string \<Rightarrow> string \<Rightarrow> bool) \<Rightarrow> Manager \<Rightarrow> int \<Rightarrow> (goerr, string \<times> string) outcome \<Rightarrow> dbstate \<Rightarrow> response \<times> dbstate" where
  "Login_handler a pw_ok m now req s =
     (case req of
        Ok (email, password) \<Rightarrow>
          (case run_stmt (api_pg a) login_user_sql [GStr email] s of (q, s') \<Rightarrow>
             (auth_response a (Login (\<lambda>_. login_vars (scan_row (api_pg a) [DString, DString, DString, DString] q)) pw_ok m now req), s'))
      | _ \<Rightarrow> (auth_response a (Login (\<lambda>_. None) pw_ok m now req), s))"

definition Refresh_handler :: "api \<Rightarrow> Manager \<Rightarrow> int \<Rightarrow> (goerr, string) outcome \<Rightarrow> response" where
  "Refresh_handler a m now body = auth_response a (auth_Refresh m now body)"

text \<open>Whom a successful login authenticates.\<close>

lemma login_scanned:
  assumes "run_stmt pg login_user_sql [GStr email] s = (q, s')" "encodes_as_documented uuid pg" "scans_as_documented pg"
    "login_vars (scan_row pg [DString, DString, DString, DString] q) = Some u"
    "list_all (\<lambda>r. list_all2 fits [DString, DString, DString, DString] (map r [''id'', ''tenant_id'', ''password_hash'', ''role''])) (tabs s ''users'')"
  shows "\<exists>r \<in> set (tabs s ''users''). r ''email'' = SText email \<and> r ''deleted_at'' = SNull \<and> go_of (r ''id'') = GStr (u_id u) \<and>
    go_of (r ''tenant_id'') = GStr (u_tenant_id u) \<and> go_of (r ''password_hash'') = GStr (u_password_hash u) \<and> go_of (r ''role'') = GStr (u_role u)"
proof -
  from assms(4) have sc: "scan_row pg [DString, DString, DString, DString] q =
      (Some [GStr (u_id u), GStr (u_tenant_id u), GStr (u_password_hash u), GStr (u_role u)], None)"
    by (cases "scan_row pg [DString, DString, DString, DString] q" rule: login_vars.cases) auto
  have "login_user_sql = ([PText], Select (map Col [''id'', ''tenant_id'', ''password_hash'', ''role'']) ''users'' [Eq ''email'' (Par 1), IsNull ''deleted_at''] None None)"
    by (simp add: login_user_sql_def)
  from selected_by_email [OF assms(1) [unfolded this] assms(2,3) sc assms(5)] show ?thesis by simp
qed

lemma Login_handler_tokens:
  assumes "Login_handler a pw_ok m now (Ok (email, pw)) s = (JSON 200 body, s')" "encodes_as_documented uuid (api_pg a)" "scans_as_documented (api_pg a)"
    "list_all (\<lambda>r. list_all2 fits [DString, DString, DString, DString] (map r [''id'', ''tenant_id'', ''password_hash'', ''role''])) (tabs s ''users'')"
  obtains r u t where "r \<in> set (tabs s ''users'')" "r ''email'' = SText email" "r ''deleted_at'' = SNull" "go_of (r ''id'') = GStr (u_id u)"
    "go_of (r ''tenant_id'') = GStr (u_tenant_id u)" "go_of (r ''password_hash'') = GStr (u_password_hash u)" "go_of (r ''role'') = GStr (u_role u)"
    "Login (\<lambda>_. Some u) pw_ok m now (Ok (email, pw)) = Tokens t" "JSON 200 body = auth_response a (Tokens t)"
proof -
  obtain q s1 where q: "run_stmt (api_pg a) login_user_sql [GStr email] s = (q, s1)" by fastforce
  let ?v = "login_vars (scan_row (api_pg a) [DString, DString, DString, DString] q)"
  from assms(1) q have resp: "JSON 200 body = auth_response a (Login (\<lambda>_. ?v) pw_ok m now (Ok (email, pw)))"
    by (simp add: Login_handler_def)
  obtain u t where u: "?v = Some u" and t: "Login (\<lambda>_. Some u) pw_ok m now (Ok (email, pw)) = Tokens t"
    using resp by (auto simp: Login_def issue_tokens_def respondError_def split: option.splits if_splits outcome.splits)
  from login_scanned [OF q assms(2,3) u assms(4)] resp t u that show thesis by auto
qed

section \<open>All paths\<close>

record http_request =
  q_url :: "string list"
  q_login :: "(goerr, string \<times> string) outcome"
  q_refresh :: "(goerr, string) outcome"
  q_api :: request

datatype page = Answer response | Redirect nat string | Third_Party

definition api_url :: "string list" where
  "api_url = [''api'', ''v1'']"

text \<open>\<open>ping\<close> is the outcome of \<open>pool.Ping\<close>.\<close>

definition serve ::
  "(string \<Rightarrow> 'w \<Rightarrow> (goerr, int) outcome \<times> 'w) \<Rightarrow> (string \<Rightarrow> int \<Rightarrow> 'w \<Rightarrow> 'w) \<Rightarrow> (string \<Rightarrow> string \<Rightarrow> bool) \<Rightarrow> Manager \<Rightarrow> int \<Rightarrow>
   (string \<Rightarrow> goval option) \<Rightarrow> goerr option \<Rightarrow> api \<Rightarrow> http_request \<Rightarrow> 'w \<Rightarrow> dbstate \<Rightarrow> page \<times> 'w \<times> dbstate" where
  "serve incr expire pw_ok m now unmarshal ping a q w s =
     (let meth = r_method (q_api q); url = q_url q in
      if meth = ''GET'' \<and> url = [''health''] then (Answer Health, w, s)
      else if meth = ''GET'' \<and> url = [''ready''] then (Answer (Ready ping), w, s)
      else if meth = ''GET'' \<and> url \<in> {[''admin''], [''admin'', []]} then (Redirect 307 ''/admin/login'', w, s)
      else if meth = ''POST'' \<and> url = api_url @ [''auth'', ''login''] then
        (case Login_handler a pw_ok m now (q_login q) s of (r, s') \<Rightarrow> (Answer r, w, s'))
      else if meth = ''POST'' \<and> url = api_url @ [''auth'', ''refresh''] then (Answer (Refresh_handler a m now (q_refresh q)), w, s)
      else if meth = ''POST'' \<and> url = api_url @ [''auth'', ''logout''] then (Answer Logout, w, s)
      else if take 2 url = api_url then
        (case serve_protected incr expire m now unmarshal a ((q_api q)\<lparr>r_path := drop 2 url\<rparr>) w s of
           (r, w', s') \<Rightarrow> (Answer r, w', s'))
      else if take 1 url \<in> {[''admin''], [''uploads'']} then (Third_Party, w, s)
      else (Answer (JSON 404 GNil), w, s))"

section \<open>Without a token\<close>

definition no_token :: "Manager \<Rightarrow> int \<Rightarrow> request \<Rightarrow> bool" where
  "no_token m now r \<longleftrightarrow> (\<forall>tok claims. r_authz r = bearer @ tok \<longrightarrow> Validate m now tok \<noteq> Ok claims)"

lemma protected_no_token:
  assumes "no_token m now r"
  shows "\<exists>resp. \<forall>a s. serve_protected incr expire m now unmarshal a r w s = (resp, w, s)"
proof -
  obtain fl w' where chain: "protected_chain incr expire m now (r_authz r) w = (fl, w')" by fastforce
  show ?thesis
  proof (cases fl)
    case (Abort status msg)
    have "w' = w" using chain assms Abort
      by (auto simp: protected_chain_def auth_Middleware_def no_token_def RLS_def split: if_splits outcome.splits prod.splits)
        (metis append_take_drop_id)+
    then show ?thesis by (cases "find_route (protected_routes unmarshal) r") (simp_all add: serve_protected_def chain Abort case_prod_unfold)
  next
    case (Next c)
    with protected_chain_token [of incr expire m now "r_authz r" w c] chain assms show ?thesis by (auto simp: no_token_def)
  qed
qed

text \<open>A query without changes of one table sees nothing else.\<close>

lemma exec_select:
  "exec pg vs (Select es t cs ord lmt) ts =
     (case project pg vs es (limit_rows lmt (order_rows pg ord (filter (holds_all pg vs cs) (ts t)))) of
        Ok rows \<Rightarrow> Ok (rows, ts) | Err e \<Rightarrow> Err e | Panic \<Rightarrow> Panic)"
  by (cases "project pg vs es (limit_rows lmt (order_rows pg ord (filter (holds_all pg vs cs) (ts t))))") simp_all

lemma run_select_table:
  assumes "snd p = Select es t cs ord lmt" "tabs s1 t = tabs s2 t" "faults s1 = faults s2"
  shows "fst (run_stmt pg p args s1) = fst (run_stmt pg p args s2)" "tabs (snd (run_stmt pg p args s1)) = tabs s1"
  using assms
  by (auto simp: run_stmt_def Let_def next_fault_def exec_select simp del: exec.simps split: option.splits fault.splits outcome.splits list.splits)

lemma login_reads_users:
  assumes "api_now a1 = api_now a2" "api_pg a1 = api_pg a2" "tabs s1 ''users'' = tabs s2 ''users''" "faults s1 = faults s2"
  shows "fst (Login_handler a1 pw_ok m now req s1) = fst (Login_handler a2 pw_ok m now req s2)"
    "tabs (snd (Login_handler a1 pw_ok m now req s1)) = tabs s1"
proof -
  have r: "auth_response a1 rep = auth_response a2 rep" for rep using assms(1) by (cases rep) auto
  have sel: "snd login_user_sql = Select [Col ''id'', Col ''tenant_id'', Col ''password_hash'', Col ''role''] ''users''
     [Eq ''email'' (Par 1), IsNull ''deleted_at''] None None" by (simp add: login_user_sql_def)
  note run = run_select_table [OF sel assms(3,4)]
  show "fst (Login_handler a1 pw_ok m now req s1) = fst (Login_handler a2 pw_ok m now req s2)"
    "tabs (snd (Login_handler a1 pw_ok m now req s1)) = tabs s1"
    using run by (auto simp: Login_handler_def r assms(2) case_prod_unfold split: outcome.split)
qed


text \<open>A request of a stranger for the devices.\<close>

definition stranger :: http_request where
  "stranger = \<lparr>q_url = [''api'', ''v1'', ''devices''], q_login = Err EOF, q_refresh = Err EOF,
     q_api = (sample_request ''GET'' [])\<lparr>r_authz := bearer @ ''forged''\<rparr>\<rparr>"


end
