(* ===== verification/Startup.thy ===== *)
theory Startup
  imports Nats Ws_Handlers Api_Service
begin

text \<open>
  How the services start (\<open>cmd/main.go\<close> of each service, \<open>NewManager\<close> of \<open>pkg/auth\<close>, \<open>NewPool\<close>
  and \<open>NewRedis\<close> of \<open>pkg/db\<close>): which resources they open, in which order, and with which
  settings. Files, key parsing, the database and Redis clients are arguments; a service that
  cannot open something ends with \<open>logger.Fatal\<close>, which does not run deferred calls.
  Durations are in seconds.
\<close>

section \<open>Keys\<close>

record ('priv, 'pub) rsa_lib =
  ReadFile :: "string \<Rightarrow> (goerr, bytes) outcome"
  ParsePrivate :: "bytes \<Rightarrow> (goerr, 'priv) outcome"
  ParsePublic :: "bytes \<Rightarrow> (goerr, 'pub) outcome"
  jwt_with :: "'priv \<Rightarrow> 'pub \<Rightarrow> jwt"

definition NewManager :: "('priv, 'pub) rsa_lib \<Rightarrow> string \<Rightarrow> string \<Rightarrow> int \<Rightarrow> int \<Rightarrow> (goerr, Manager) outcome" where
  "NewManager lib privateKeyPath publicKeyPath attl rttl =
     bind_o (map_err (Wrapf ''read private key'') (ReadFile lib privateKeyPath)) (\<lambda>privBytes.
     bind_o (map_err (Wrapf ''parse private key'') (ParsePrivate lib privBytes)) (\<lambda>privKey.
     bind_o (map_err (Wrapf ''read public key'') (ReadFile lib publicKeyPath)) (\<lambda>pubBytes.
     bind_o (map_err (Wrapf ''parse public key'') (ParsePublic lib pubBytes)) (\<lambda>pubKey.
       Ok \<lparr>mgr_jwt = jwt_with lib privKey pubKey, accessTTL = attl, refreshTTL = rttl\<rparr>))))"

section \<open>Database clients\<close>

record PoolConfig =
  pc_dsn :: string
  MaxConns :: int
  MinConns :: int
  MaxConnLifetime :: int
  MaxConnIdleTime :: int
  HealthCheckPeriod :: int

record RedisConfig =
  rc_Addr :: string
  rc_Password :: string
  rc_DB :: int

record RedisOptions =
  ro_Addr :: string
  ro_Password :: string
  ro_DB :: int
  ro_DialTimeout :: int
  ro_ReadTimeout :: int
  ro_WriteTimeout :: int
  ro_PoolSize :: int
  ro_MinIdleConns :: int
  ro_PoolTimeout :: int

text \<open>The outcomes of \<open>ParseConfig\<close>, \<open>NewWithConfig\<close> and the two pings.\<close>

record db_lib =
  ParseConfig :: "string \<Rightarrow> goerr option"
  NewWithConfig :: "PoolConfig \<Rightarrow> goerr option"
  PingPool :: "PoolConfig \<Rightarrow> goerr option"
  PingRedis :: "RedisOptions \<Rightarrow> goerr option"

definition NewPool :: "db_lib \<Rightarrow> string \<Rightarrow> (goerr, PoolConfig) outcome" where
  "NewPool lib dsn =
     (case ParseConfig lib dsn of
        Some err \<Rightarrow> Err (Wrapf ''pgxpool parse config'' err)
      | None \<Rightarrow>
          (let cfg = \<lparr>pc_dsn = dsn, MaxConns = 50, MinConns = 5, MaxConnLifetime = 30 * 60, MaxConnIdleTime = 5 * 60, HealthCheckPeriod = 60\<rparr> in
           case NewWithConfig lib cfg of
             Some err \<Rightarrow> Err (Wrapf ''pgxpool new'' err)
           | None \<Rightarrow> (case PingPool lib cfg of Some err \<Rightarrow> Err (Wrapf ''pgxpool ping'' err) | None \<Rightarrow> Ok cfg)))"

definition NewRedis :: "db_lib \<Rightarrow> RedisConfig \<Rightarrow> (goerr, RedisOptions) outcome" where
  "NewRedis lib cfg =
     (let opts = \<lparr>ro_Addr = rc_Addr cfg, ro_Password = rc_Password cfg, ro_DB = rc_DB cfg, ro_DialTimeout = 5, ro_ReadTimeout = 3,
        ro_WriteTimeout = 3, ro_PoolSize = 20, ro_MinIdleConns = 5, ro_PoolTimeout = 4\<rparr> in
      case PingRedis lib opts of Some err \<Rightarrow> Err (Wrapf ''redis ping'' err) | None \<Rightarrow> Ok opts)"

section \<open>Services\<close>

datatype 'a start = Fatal string goerr | Started 'a

text \<open>\<open>or_fatal\<close> is the test after each step of a \<open>main\<close>.\<close>

fun or_fatal :: "string \<Rightarrow> (goerr, 'a) outcome \<Rightarrow> ('a \<Rightarrow> 'b start) \<Rightarrow> 'b start" where
  "or_fatal msg (Ok x) k = k x"
| "or_fatal msg (Err e) k = Fatal msg e"
| "or_fatal msg Panic k = Fatal msg (Errorf ''panic'')"

definition redis_of :: "(string \<Rightarrow> string) \<Rightarrow> RedisConfig" where
  "redis_of env = \<lparr>rc_Addr = envStr env ''REDIS_ADDR'' ''localhost:6379'', rc_Password = envStr env ''REDIS_PASSWORD'' [], rc_DB = 0\<rparr>"

definition manager_of :: "(string \<Rightarrow> string) \<Rightarrow> ('priv, 'pub) rsa_lib \<Rightarrow> (goerr, Manager) outcome" where
  "manager_of env keys = NewManager keys (envStr env ''JWT_PRIVATE_KEY_PATH'' ''secrets/jwt_private.pem'')
     (envStr env ''JWT_PUBLIC_KEY_PATH'' ''secrets/jwt_public.pem'') (15 * 60) (7 * 24 * 3600)"

record http_server =
  hs_Addr :: string
  hs_ReadTimeout :: int
  hs_WriteTimeout :: int
  hs_IdleTimeout :: "int option"

record api_service =
  as_pool :: PoolConfig
  as_redis :: RedisOptions
  as_mgr :: Manager
  as_server :: http_server

definition api_main :: "(string \<Rightarrow> string) \<Rightarrow> db_lib \<Rightarrow> ('priv, 'pub) rsa_lib \<Rightarrow> api_service start" where
  "api_main env db keys =
     or_fatal ''TimescaleDB connect'' (NewPool db (envStr env ''TIMESCALE_DSN'' [])) (\<lambda>pool.
     or_fatal ''Redis connect'' (NewRedis db (redis_of env)) (\<lambda>rdb.
     or_fatal ''JWT manager init'' (manager_of env keys) (\<lambda>authMgr.
       Started \<lparr>as_pool = pool, as_redis = rdb, as_mgr = authMgr,
         as_server = \<lparr>hs_Addr = '':'' @ envStr env ''API_PORT'' ''8080'', hs_ReadTimeout = 15, hs_WriteTimeout = 30, hs_IdleTimeout = Some 60\<rparr>\<rparr>)))"

record ws_service =
  wv_redis :: RedisOptions
  wv_mgr :: Manager
  wv_hub :: hub
  wv_server :: http_server

definition ws_main :: "(string \<Rightarrow> string) \<Rightarrow> db_lib \<Rightarrow> ('priv, 'pub) rsa_lib \<Rightarrow> ws_service start" where
  "ws_main env db keys =
     or_fatal ''Redis connect'' (NewRedis db (redis_of env)) (\<lambda>rdb.
     or_fatal ''auth manager'' (manager_of env keys) (\<lambda>authMgr.
       Started \<lparr>wv_redis = rdb, wv_mgr = authMgr, wv_hub = hub_New,
         wv_server = \<lparr>hs_Addr = '':'' @ envStr env ''WS_PORT'' ''8081'', hs_ReadTimeout = 5, hs_WriteTimeout = 60, hs_IdleTimeout = None\<rparr>\<rparr>))"

text \<open>The paths of the WebSocket service.\<close>

definition ws_route :: "string \<Rightarrow> (Manager \<Rightarrow> int \<Rightarrow> bool \<Rightarrow> ws_request \<Rightarrow> hub \<Rightarrow> hub flow) option" where
  "ws_route path =
     (if path = ''/ws/v1/live'' then Some LiveHandler_ServeWS
      else if path = ''/ws/v1/alerts'' then Some AlertHandler_ServeWS
      else None)"

record 's sp_service =
  sp_pool :: PoolConfig
  sp_redis :: RedisOptions
  sp_broker :: 's

text \<open>\<open>nats_err\<close> and \<open>js_err\<close> are the errors of connecting; \<open>subscribe\<close> and \<open>messages\<close> create the consumer and its iterator.\<close>

definition sp_main ::
  "(string \<Rightarrow> string) \<Rightarrow> (string \<Rightarrow> goerr option) \<Rightarrow> goerr option \<Rightarrow> (StreamConfig \<Rightarrow> 's \<Rightarrow> goerr option \<times> 's) \<Rightarrow> db_lib \<Rightarrow>
   (ConsumerConfig \<Rightarrow> 's \<Rightarrow> (goerr, 's) outcome) \<Rightarrow> ('s \<Rightarrow> (goerr, 's) outcome) \<Rightarrow> 's \<Rightarrow> 's sp_service start" where
  "sp_main env nats_err js_err create db subscribe messages s =
     (case nats_New (nats_err (envStr env ''NATS_URL'' ''nats://localhost:4222'')) js_err create s of
        (Some err, cl, s1) \<Rightarrow> Fatal ''NATS connect'' err
      | (None, cl, s1) \<Rightarrow>
          or_fatal ''TimescaleDB connect'' (NewPool db (envStr env ''TIMESCALE_DSN'' [])) (\<lambda>pool.
          or_fatal ''Redis connect'' (NewRedis db (redis_of env)) (\<lambda>rdb.
          or_fatal ''create consumer'' (subscribe consumer_config s1) (\<lambda>s2.
          or_fatal ''messages iterator'' (messages s2) (\<lambda>s3.
            Started \<lparr>sp_pool = pool, sp_redis = rdb, sp_broker = s3\<rparr>)))))"

section \<open>What a running service has opened\<close>

lemma or_fatal_Started: "or_fatal msg x k = Started y \<longleftrightarrow> (\<exists>v. x = Ok v \<and> k v = Started y)"
  by (cases x) simp_all

lemma api_main_Started:
  "api_main env db keys = Started a \<Longrightarrow> manager_of env keys = Ok (as_mgr a) \<and> NewRedis db (redis_of env) = Ok (as_redis a)"
  by (auto simp: api_main_def or_fatal_Started)

lemma ws_main_Started:
  "ws_main env db keys = Started w \<Longrightarrow> manager_of env keys = Ok (wv_mgr w) \<and> NewRedis db (redis_of env) = Ok (wv_redis w) \<and> wv_hub w = hub_New"
  by (auto simp: ws_main_def or_fatal_Started)

lemma manager_ttl: "manager_of env keys = Ok m \<Longrightarrow> accessTTL m = 900 \<and> refreshTTL m = 604800"
  by (auto simp: manager_of_def NewManager_def elim!: bind_o_OkE)

text \<open>
  C37: one login is enough for both services: when the API and the WebSocket service have
  started in the same environment and a request with address and password is answered with
  status 200, there is a user of that address in the users table whose stored hash the
  password matches, and for fifteen minutes the access token of the answer admits the bearer to
  the protected part of the API with this user's identity, tenant and role and to the live
  channel of the user's tenant. The key files have to hold a pair of keys for which the token
  library does what it documents, the columns have to be of their declared types, and the rate
  limit has to admit the request.
\<close>

theorem login_opens_both_services:
  assumes started: "api_main env db keys = Started a" "ws_main env db keys = Started v" "jwt_ok (mgr_jwt (as_mgr a))"
    and login: "Login_handler api pw_ok (as_mgr a) t0 (Ok (email, pw)) s = (JSON 200 (GObj [(''data'', GObj ((''access_token'', GStr tok) # rest))]), s')"
    and docs: "encodes_as_documented uuid (api_pg api)" "scans_as_documented (api_pg api)"
      "list_all (\<lambda>r. list_all2 fits [DString, DString, DString, DString] (map r [''id'', ''tenant_id'', ''password_hash'', ''role''])) (tabs s ''users'')"
    and use: "now < t0 + 900" "tok \<noteq> []" "\<forall>r \<in> set (tabs s ''users''). go_of (r ''tenant_id'') \<noteq> GStr []"
      "\<And>k. \<exists>count w1. incr k w = (Ok count, w1) \<and> count \<le> 1000"
  shows "\<exists>r \<in> set (tabs s ''users''). \<exists>hash userID tenantID role. r ''email'' = SText email \<and> r ''deleted_at'' = SNull \<and>
    go_of (r ''password_hash'') = GStr hash \<and> pw_ok hash pw \<and>
    go_of (r ''id'') = GStr userID \<and> go_of (r ''tenant_id'') = GStr tenantID \<and> go_of (r ''role'') = GStr role \<and>
    fst (protected_chain incr expire (as_mgr a) now (bearer @ tok) w) =
      Next \<lparr>ctx_user_id = Some userID, ctx_tenant_id = Some tenantID, ctx_role = Some role\<rparr> \<and>
    LiveHandler_ServeWS (wv_mgr v) now True \<lparr>q_token = tok, q_devices = [], hdr_Authorization = []\<rparr> h = Next (hub_Register tenantID [] h)"
proof -
  have same: "wv_mgr v = as_mgr a" using api_main_Started [OF started(1)] ws_main_Started [OF started(2)] by simp
  have ttl: "accessTTL (as_mgr a) = 900" using api_main_Started [OF started(1)] manager_ttl by blast
  from Login_handler_tokens [OF login docs] obtain r u t where
    r: "r \<in> set (tabs s ''users'')" "r ''email'' = SText email" "r ''deleted_at'' = SNull" "go_of (r ''id'') = GStr (u_id u)"
      "go_of (r ''tenant_id'') = GStr (u_tenant_id u)" "go_of (r ''password_hash'') = GStr (u_password_hash u)" "go_of (r ''role'') = GStr (u_role u)"
    and t: "Login (\<lambda>_. Some u) pw_ok (as_mgr a) t0 (Ok (email, pw)) = Tokens t"
      "JSON 200 (GObj [(''data'', GObj ((''access_token'', GStr tok) # rest))]) = auth_response api (Tokens t)" .
  have tok: "AccessToken t = tok" using t(2) by (simp add: respondOK_def)
  from login_valid [OF started(3) refl t(1), of now] use(1) ttl obtain claims where
    c: "Validate (as_mgr a) now tok = Ok claims" "cl_UserID claims = u_id u" "cl_TenantID claims = u_tenant_id u" "cl_Role claims = u_role u"
    "pw_ok (u_password_hash u) pw" by (auto simp: tok)
  have tn: "u_tenant_id u \<noteq> []" using use(3) r(1,5) by auto
  obtain count w1 where w: "incr (rate_key (u_tenant_id u)) w = (Ok count, w1)" "count \<le> 1000" using use(4) by blast
  have "fst (protected_chain incr expire (as_mgr a) now (bearer @ tok) w) =
      Next \<lparr>ctx_user_id = Some (u_id u), ctx_tenant_id = Some (u_tenant_id u), ctx_role = Some (u_role u)\<rparr> \<and>
    LiveHandler_ServeWS (wv_mgr v) now True \<lparr>q_token = tok, q_devices = [], hdr_Authorization = []\<rparr> h = Next (hub_Register (u_tenant_id u) [] h)"
    using c tn w use(2)
    by (simp add: same LiveHandler_ServeWS_def protected_chain_def auth_Middleware_def RLS_def RateLimit_def ctx_TenantID_def empty_ctx_def Let_def)
  with r c(5) show ?thesis
    by (intro bexI [OF _ r(1)] exI [of _ "u_password_hash u"] exI [of _ "u_id u"] exI [of _ "u_tenant_id u"] exI [of _ "u_role u"]) simp
qed

text \<open>Services with a token library that knows one user's access and refresh tokens.\<close>

definition sample_jwt :: jwt where
  "sample_jwt = \<lparr>jwt_sign = (\<lambda>cl. if cl = sample_claims then Ok ''acc'' else if cl = sample_claims\<lparr>cl_ExpiresAt := 604800\<rparr> then Ok ''ref'' else Err (Errorf ''no key'')),
     jwt_parse = (\<lambda>now tok. if tok = ''acc'' \<and> now < 900 then Ok sample_claims
       else if tok = ''ref'' \<and> now < 604800 then Ok (sample_claims\<lparr>cl_ExpiresAt := 604800\<rparr>) else Err (Errorf ''token is invalid''))\<rparr>"

definition sample_keys :: "(unit, unit) rsa_lib" where
  "sample_keys = \<lparr>ReadFile = (\<lambda>_. Ok []), ParsePrivate = (\<lambda>_. Ok ()), ParsePublic = (\<lambda>_. Ok ()), jwt_with = (\<lambda>_ _. sample_jwt)\<rparr>"

definition sample_dbs :: db_lib where
  "sample_dbs = \<lparr>ParseConfig = (\<lambda>_. None), NewWithConfig = (\<lambda>_. None), PingPool = (\<lambda>_. None), PingRedis = (\<lambda>_. None)\<rparr>"

definition sample_account :: row where
  "sample_account = (\<lambda>_. SNull)(''id'' := SUuid ''u1'', ''tenant_id'' := SUuid ''t1'', ''email'' := SText ''a@b'',
     ''password_hash'' := SText ''pw'', ''role'' := SText RoleDriver)"

theorem login_opens_both_services_witness:
  "\<exists>a v. api_main (\<lambda>_. []) sample_dbs sample_keys = Started a \<and> ws_main (\<lambda>_. []) sample_dbs sample_keys = Started v \<and>
     LiveHandler_ServeWS (wv_mgr v) 5 True \<lparr>q_token = ''acc'', q_devices = [], hdr_Authorization = []\<rparr> hub_New = Next (hub_Register ''t1'' [] hub_New)"
proof -
  let ?s = "\<lparr>tabs = (\<lambda>t. if t = ''users'' then [sample_account] else []), faults = []\<rparr>"
  obtain a v where s: "api_main (\<lambda>_. []) sample_dbs sample_keys = Started a" "ws_main (\<lambda>_. []) sample_dbs sample_keys = Started v"
    by (simp add: api_main_def ws_main_def NewPool_def NewRedis_def manager_of_def NewManager_def sample_dbs_def sample_keys_def)
  then have m: "as_mgr a = \<lparr>mgr_jwt = sample_jwt, accessTTL = 900, refreshTTL = 604800\<rparr>"
    using api_main_Started [OF s(1)] by (simp add: manager_of_def NewManager_def sample_keys_def)
  have ok: "jwt_ok (mgr_jwt (as_mgr a))" by (auto simp: m jwt_ok_def sample_jwt_def sample_claims_def split: if_splits)
  have q: "run_stmt sample_pg login_user_sql [GStr ''a@b''] ?s =
      (\<lparr>a_err = None, a_rows = [map sample_account [''id'', ''tenant_id'', ''password_hash'', ''role'']], a_end = None\<rparr>, ?s)"
    using run_stmt_clean [of ?s sample_pg login_user_sql "[GStr ''a@b'']" "[SText ''a@b'']" "[map sample_account [''id'', ''tenant_id'', ''password_hash'', ''role'']]" "tabs ?s"]
    by (simp add: next_fault_def login_user_sql_def documented_encode [OF sample_pg_encodes] holds_all_def sample_account_def project_def)
  have sc: "pg_scan sample_pg [DString, DString, DString, DString] (map sample_account [''id'', ''tenant_id'', ''password_hash'', ''role'']) =
      ([GStr ''u1'', GStr ''t1'', GStr ''pw'', GStr RoleDriver], None)"
    using documented_scan [OF sample_pg_scans, of "[DString, DString, DString, DString]" "map sample_account [''id'', ''tenant_id'', ''password_hash'', ''role'']"]
    by (simp add: sample_account_def)
  obtain rest where l: "Login_handler sample_api (\<lambda>h p. h = p) (as_mgr a) 0 (Ok (''a@b'', ''pw'')) ?s =
      (JSON 200 (GObj [(''data'', GObj ((''access_token'', GStr ''acc'') # rest))]), ?s)"
    using q sc by (simp add: Login_handler_def sample_api_def scan_row_def Login_def issue_tokens_def m GenerateAccess_def
        GenerateRefresh_def mgr_sign_def sample_jwt_def sample_claims_def respondOK_def)
  have t: "list_all (\<lambda>r. list_all2 fits [DString, DString, DString, DString] (map r [''id'', ''tenant_id'', ''password_hash'', ''role''])) (tabs ?s ''users'')"
    "\<forall>r \<in> set (tabs ?s ''users''). go_of (r ''tenant_id'') \<noteq> GStr []" by (simp_all add: sample_account_def)
  have pg: "encodes_as_documented Some (api_pg sample_api)" "scans_as_documented (api_pg sample_api)"
    by (simp_all add: sample_api_def sample_pg_encodes sample_pg_scans)
  from login_opens_both_services [OF s ok l pg t(1), of 5 "\<lambda>k w. (Ok 1, w)" "()" "\<lambda>k n w. w" hub_New] t(2) s
  show ?thesis by (auto simp: sample_account_def)
qed

end
