(* ===== verification/Pg_Tables.thy ===== *)
theory Pg_Tables
  imports Sql Go_Strings
begin

text \<open>
  PostgreSQL tables that the program creates itself: columns with types, defaults and serial
  numbers, keys, and \<open>INSERT ... ON CONFLICT\<close>. As in the database, a failing statement takes
  its rows back but not the serial numbers it drew.
\<close>

section \<open>Schemas\<close>

datatype coltype = Varchar nat | Unbounded | Integer | Bigint | Timestamp_Local

datatype coldefault = No_Default | Serial | Default sval | Default_Now

datatype column = Column_Def (c_name: string) (c_type: coltype) (c_notnull: bool) (c_default: coldefault)

text \<open>The keys are the PRIMARY KEY and UNIQUE constraints.\<close>

record schema =
  cols :: "column list"
  keys :: "string list list"

text \<open>The existing tables with their rows, and the next serial number of each.\<close>

record reldb =
  rel :: "string \<Rightarrow> (schema \<times> row list) option"
  seqs :: "string \<Rightarrow> int"

section \<open>Storing values\<close>

text \<open>Lengths are counted in characters: the bytes that do not continue a UTF-8 sequence.\<close>

definition starts_char :: "char \<Rightarrow> bool" where
  "starts_char ch \<longleftrightarrow> \<not> is_cont (of_char ch)"

definition chars :: "string \<Rightarrow> nat" where
  "chars s = length (filter starts_char s)"

fun take_chars :: "nat \<Rightarrow> string \<Rightarrow> string" where
  "take_chars n [] = []"
| "take_chars n (ch # s) =
     (if starts_char ch then (case n of 0 \<Rightarrow> [] | Suc m \<Rightarrow> ch # take_chars m s) else ch # take_chars n s)"

text \<open>A text that is too long is refused, unless only spaces are too many: they are cut off.\<close>

fun store :: "coltype \<Rightarrow> sval \<Rightarrow> (goerr, sval) outcome" where
  "store ty SNull = Ok SNull"
| "store (Varchar n) (SText s) =
     (if chars s \<le> n then Ok (SText s)
      else if list_all (\<lambda>ch. ch = CHR '' '') (drop (length (take_chars n s)) s) then Ok (SText (take_chars n s))
      else Err (Errorf ''value too long for type character varying''))"
| "store Unbounded (SText s) = Ok (SText s)"
| "store Integer (SInt i) = (if - (2 ^ 31) \<le> i \<and> i < 2 ^ 31 then Ok (SInt i) else Err (Errorf ''integer out of range''))"
| "store Bigint (SInt i) = (if - (2 ^ 63) \<le> i \<and> i < 2 ^ 63 then Ok (SInt i) else Err (Errorf ''bigint out of range''))"
| "store Timestamp_Local (STime t) = Ok (STime t)"
| "store ty v = Err (Errorf ''column is of another type'')"

definition checked :: "column \<Rightarrow> sval \<Rightarrow> (goerr, sval) outcome" where
  "checked c v = bind_o (store (c_type c) v) (\<lambda>w. if c_notnull c \<and> w = SNull then Err violation else Ok w)"

definition column_value :: "pg \<Rightarrow> int \<Rightarrow> (string \<times> sval) list \<Rightarrow> column \<Rightarrow> sval" where
  "column_value pg q given c =
     (case map_of given (c_name c) of
        Some v \<Rightarrow> v
      | None \<Rightarrow> (case c_default c of
          No_Default \<Rightarrow> SNull | Serial \<Rightarrow> SInt q | Default v \<Rightarrow> v | Default_Now \<Rightarrow> STime (pg_now pg)))"

definition complete_row :: "pg \<Rightarrow> schema \<Rightarrow> int \<Rightarrow> (string \<times> sval) list \<Rightarrow> (goerr, row) outcome" where
  "complete_row pg sch q given =
     (if list_all (\<lambda>(c, v). c \<in> set (map c_name (cols sch))) given
      then bind_o (collect (map (\<lambda>c. bind_o (checked c (column_value pg q given c)) (\<lambda>v. Ok (c_name c, v))) (cols sch)))
             (\<lambda>cvs. Ok (set_cols cvs (\<lambda>_. SNull)))
      else Err (Errorf ''column does not exist''))"

section \<open>Conflicts\<close>

datatype setter = Excluded string | Current_Time

datatype conflict = Do_Nothing "string list option" | Do_Update "string list" "(string \<times> setter) list"

definition same_key :: "string list \<Rightarrow> row \<Rightarrow> row \<Rightarrow> bool" where
  "same_key k r r' \<longleftrightarrow> list_all (\<lambda>c. sql_eq (r' c) (r c)) k"

primrec unique_rows :: "string list \<Rightarrow> row list \<Rightarrow> bool" where
  "unique_rows k [] \<longleftrightarrow> True"
| "unique_rows k (r # rs) \<longleftrightarrow> unique_with rs k r \<and> unique_rows k rs"

fun set_value :: "pg \<Rightarrow> row \<Rightarrow> setter \<Rightarrow> sval" where
  "set_value pg r (Excluded c) = r c"
| "set_value pg r Current_Time = STime (pg_now pg)"

definition update_conflicting ::
  "pg \<Rightarrow> schema \<Rightarrow> (string \<times> setter) list \<Rightarrow> row \<Rightarrow> row \<Rightarrow> (goerr, row) outcome" where
  "update_conflicting pg sch sets r old =
     bind_o (collect (map (\<lambda>(c, e). case find (\<lambda>col. c_name col = c) (cols sch) of
          None \<Rightarrow> Err (Errorf ''column does not exist'')
        | Some col \<Rightarrow> bind_o (checked col (set_value pg r e)) (\<lambda>v. Ok (c, v))) sets))
       (\<lambda>cvs. Ok (set_cols cvs old))"

definition insert_one :: "pg \<Rightarrow> schema \<Rightarrow> conflict \<Rightarrow> row list \<Rightarrow> row \<Rightarrow> (goerr, row list) outcome" where
  "insert_one pg sch conf rows r =
     (let arbiters = (case conf of Do_Nothing None \<Rightarrow> keys sch | Do_Nothing (Some k) \<Rightarrow> [k] | Do_Update k sets \<Rightarrow> [k]) in
      if \<not> set arbiters \<subseteq> set (keys sch) then Err (Errorf ''no unique constraint matching the ON CONFLICT specification'')
      else if list_all (\<lambda>k. unique_with rows k r) arbiters then
        (if list_all (\<lambda>k. unique_with rows k r) (keys sch) then Ok (rows @ [r]) else Err violation)
      else (case conf of
          Do_Nothing _ \<Rightarrow> Ok rows
        | Do_Update k sets \<Rightarrow>
            bind_o (collect (map (\<lambda>old. if same_key k r old then update_conflicting pg sch sets r old else Ok old) rows))
              (\<lambda>rows'. if list_all (\<lambda>k. unique_rows k rows') (keys sch) then Ok rows' else Err violation)))"

section \<open>Statements\<close>

text \<open>
  \<open>Insert_Pairs t (a, b) (t1, k1, e1) (t2, k2, e2) conf\<close> is
  \<open>INSERT INTO t (a, b) SELECT x.id, y.id FROM t1 x, t2 y WHERE x.k1 = e1 AND y.k2 = e2 ON CONFLICT conf\<close>.
\<close>

datatype relstmt =
    Create_Table string schema
  | Insert_Row string "(string \<times> sexpr) list" conflict
  | Insert_Pairs string "string \<times> string" "string \<times> string \<times> sexpr" "string \<times> string \<times> sexpr" conflict

definition max_serial :: int where
  "max_serial = 2 ^ 31 - 1"

definition draws_serial :: "schema \<Rightarrow> (string \<times> sval) list \<Rightarrow> bool" where
  "draws_serial sch given \<longleftrightarrow> list_ex (\<lambda>c. c_default c = Serial \<and> map_of given (c_name c) = None) (cols sch)"

fun insert_rows ::
  "pg \<Rightarrow> schema \<Rightarrow> conflict \<Rightarrow> (string \<times> sval) list list \<Rightarrow> row list \<Rightarrow> int \<Rightarrow> (goerr, row list) outcome \<times> int" where
  "insert_rows pg sch conf [] rows q = (Ok rows, q)"
| "insert_rows pg sch conf (given # more_rows) rows q =
     (if draws_serial sch given \<and> max_serial < q then (Err (Errorf ''reached maximum value of sequence''), q)
      else let q' = (if draws_serial sch given then q + 1 else q) in
        case bind_o (complete_row pg sch q given) (insert_one pg sch conf rows) of
          Ok rows' \<Rightarrow> insert_rows pg sch conf more_rows rows' q'
        | Err e \<Rightarrow> (Err e, q')
        | Panic \<Rightarrow> (Panic, q'))"

definition insert_into ::
  "pg \<Rightarrow> string \<Rightarrow> conflict \<Rightarrow> (goerr, (string \<times> sval) list list) outcome \<Rightarrow> reldb \<Rightarrow> goerr option \<times> reldb" where
  "insert_into pg t conf source d =
     (case rel d t of
        None \<Rightarrow> (Some (Errorf ''relation does not exist''), d)
      | Some (sch, rows) \<Rightarrow>
          (case source of
             Ok gs \<Rightarrow>
               (case insert_rows pg sch conf gs rows (seqs d t) of
                  (Ok rows', q) \<Rightarrow> (None, d\<lparr>rel := (rel d)(t \<mapsto> (sch, rows')), seqs := (seqs d)(t := q)\<rparr>)
                | (Err e, q) \<Rightarrow> (Some e, d\<lparr>seqs := (seqs d)(t := q)\<rparr>)
                | (Panic, q) \<Rightarrow> (Some violation, d\<lparr>seqs := (seqs d)(t := q)\<rparr>))
           | Err e \<Rightarrow> (Some e, d)
           | Panic \<Rightarrow> (Some violation, d)))"

definition rows_where :: "pg \<Rightarrow> sval list \<Rightarrow> reldb \<Rightarrow> string \<times> string \<times> sexpr \<Rightarrow> (goerr, row list) outcome" where
  "rows_where pg vs d = (\<lambda>(t, k, e).
     case rel d t of
       None \<Rightarrow> Err (Errorf ''relation does not exist'')
     | Some (sch, rows) \<Rightarrow> bind_o (eval pg vs (\<lambda>_. SNull) e) (\<lambda>v. Ok (filter (\<lambda>r. sql_eq (r k) v) rows)))"

fun exec_rel :: "pg \<Rightarrow> sval list \<Rightarrow> relstmt \<Rightarrow> reldb \<Rightarrow> goerr option \<times> reldb" where
  "exec_rel pg vs (Create_Table t sch) d =
     (case rel d t of
        Some _ \<Rightarrow> (None, d)
      | None \<Rightarrow> (None, d\<lparr>rel := (rel d)(t \<mapsto> (sch, [])), seqs := (seqs d)(t := 1)\<rparr>))"
| "exec_rel pg vs (Insert_Row t sets conf) d =
     insert_into pg t conf (bind_o (eval_sets pg vs (\<lambda>_. SNull) sets) (\<lambda>g. Ok [g])) d"
| "exec_rel pg vs (Insert_Pairs t (a, b) from1 from2 conf) d =
     insert_into pg t conf
       (bind_o (rows_where pg vs d from1) (\<lambda>xs. bind_o (rows_where pg vs d from2) (\<lambda>ys.
          Ok (concat (map (\<lambda>x. map (\<lambda>y. [(a, x ''id''), (b, y ''id'')]) ys) xs))))) d"

section \<open>What inserting does to a table\<close>

definition keys_ok :: "schema \<Rightarrow> row list \<Rightarrow> bool" where
  "keys_ok sch rows \<longleftrightarrow> list_all (\<lambda>k. unique_rows k rows) (keys sch)"

fun arbiters :: "schema \<Rightarrow> conflict \<Rightarrow> string list set" where
  "arbiters sch (Do_Nothing None) = set (keys sch)"
| "arbiters sch (Do_Nothing (Some k)) = {k}"
| "arbiters sch (Do_Update k sets) = {k}"

fun conf_cols :: "conflict \<Rightarrow> string set" where
  "conf_cols (Do_Nothing k) = {}"
| "conf_cols (Do_Update k sets) = fst ` set sets"

definition agree :: "string set \<Rightarrow> row \<Rightarrow> row \<Rightarrow> bool" where
  "agree changed r r' \<longleftrightarrow> (\<forall>c. c \<notin> changed \<longrightarrow> r' c = r c)"

lemma agree_refl [simp]: "agree S r r"
  by (simp add: agree_def)

lemma agree_trans: "agree S a b \<Longrightarrow> agree S b c \<Longrightarrow> agree S a c"
  by (simp add: agree_def)

lemma unique_with_append [simp]: "unique_with (xs @ ys) k r \<longleftrightarrow> unique_with xs k r \<and> unique_with ys k r"
  by (simp add: unique_with_def)

lemma unique_with_swap: "unique_with [a] k r \<longleftrightarrow> unique_with [r] k a"
  by (auto simp: unique_with_def list_all_iff) metis+

lemma unique_with_Cons: "unique_with (a # rows) k r \<longleftrightarrow> unique_with [a] k r \<and> unique_with rows k r"
  by (simp add: unique_with_def)

lemma unique_rows_snoc: "unique_rows k (rows @ [r]) \<longleftrightarrow> unique_rows k rows \<and> unique_with rows k r"
proof (induction rows)
  case (Cons a rows)
  then show ?case using unique_with_swap [of a k r] by (auto simp: unique_with_Cons [of a rows])
qed (simp add: unique_with_def)

lemma list_all2_fwd: "list_all2 P xs ys \<Longrightarrow> x \<in> set xs \<Longrightarrow> \<exists>y \<in> set ys. P x y"
  by (induction rule: list_all2_induct) auto

lemma list_all2_bwd: "list_all2 P xs ys \<Longrightarrow> y \<in> set ys \<Longrightarrow> \<exists>x \<in> set xs. P x y"
  by (induction rule: list_all2_induct) auto

lemma set_cols_agree: "agree (fst ` set cvs) r (set_cols cvs r)"
  by (simp add: agree_def set_cols_other)

lemma collect_OkD: "collect xs = Ok vs \<Longrightarrow> list_all2 (\<lambda>x v. x = Ok v) xs vs"
  by (induction xs arbitrary: vs) (auto elim!: bind_o_OkE)

lemma update_conflicting_agree:
  assumes "update_conflicting pg sch sets r old = Ok new"
  shows "agree (fst ` set sets) old new"
proof -
  let ?f = "\<lambda>(c, e). case find (\<lambda>col. c_name col = c) (cols sch) of
      None \<Rightarrow> Err (Errorf ''column does not exist'')
    | Some col \<Rightarrow> bind_o (checked col (set_value pg r e)) (\<lambda>v. Ok (c, v))"
  obtain cvs where cvs: "collect (map ?f sets) = Ok cvs" and new: "new = set_cols cvs old"
    using assms by (auto simp: update_conflicting_def elim!: bind_o_OkE)
  from collect_OkD [OF cvs] have "list_all2 (\<lambda>s cv. fst cv = fst s) sets cvs"
    by (auto simp: list_all2_map1 elim!: list_all2_mono bind_o_OkE split: option.splits)
  then have "map fst cvs = map fst sets" by (induction) auto
  then have "fst ` set cvs = fst ` set sets" by (metis list.set_map)
  with set_cols_agree [of cvs old] show ?thesis by (simp add: new)
qed

lemma insert_one_Ok:
  assumes "insert_one pg sch conf rows r = Ok rows'"
  shows "rows' = rows @ [r] \<and> list_all (\<lambda>k. unique_with rows k r) (keys sch) \<or>
    list_all2 (agree (conf_cols conf)) rows rows' \<and> (rows' = rows \<or> keys_ok sch rows') \<and>
      (\<exists>k \<in> arbiters sch conf. \<not> unique_with rows k r)"
proof -
  have upd: "list_all2 (agree (fst ` set sets)) rows rows'"
    if "collect (map (\<lambda>old. if same_key k r old then update_conflicting pg sch sets r old else Ok old) rows) = Ok rows'" for k sets rows'
    using collect_OkD [OF that]
    by (auto simp: list_all2_map1 elim!: list_all2_mono split: if_splits intro: update_conflicting_agree)
  show ?thesis
    using assms by (cases conf rule: conf_cols.cases; cases "fst (case conf of Do_Nothing k \<Rightarrow> (k, ()) | _ \<Rightarrow> (None, ()))")
      (auto simp: insert_one_def Let_def list_all_iff keys_ok_def list_all2_same upd elim!: bind_o_OkE split: if_splits)
qed

lemma insert_one_keys: "insert_one pg sch conf rows r = Ok rows' \<Longrightarrow> keys_ok sch rows \<Longrightarrow> keys_ok sch rows'"
  by (drule insert_one_Ok) (auto simp: keys_ok_def list_all_iff unique_rows_snoc)

text \<open>After a successful insert some row has the keys of the row that was to be inserted.\<close>

lemma insert_one_present:
  assumes ins: "insert_one pg sch conf rows r = Ok rows'" and "keys sch \<noteq> []"
    and untouched: "\<And>k. k \<in> arbiters sch conf \<Longrightarrow> set k \<inter> conf_cols conf = {}"
  shows "\<exists>r' \<in> set rows'. \<exists>k \<in> arbiters sch conf. \<forall>c \<in> set k. r' c = r c"
proof -
  have "arbiters sch conf \<noteq> {}" using assms(2) by (cases conf rule: conf_cols.cases) (auto, metis arbiters.simps empty_not_insert not_None_eq set_empty)
  from insert_one_Ok [OF ins] show ?thesis
  proof (elim disjE)
    assume "rows' = rows @ [r] \<and> list_all (\<lambda>k. unique_with rows k r) (keys sch)"
    with \<open>arbiters sch conf \<noteq> {}\<close> show ?thesis by auto
  next
    assume "list_all2 (agree (conf_cols conf)) rows rows' \<and> (rows' = rows \<or> keys_ok sch rows') \<and>
      (\<exists>k \<in> arbiters sch conf. \<not> unique_with rows k r)"
    then obtain k where k: "k \<in> arbiters sch conf" "\<not> unique_with rows k r" and upd: "list_all2 (agree (conf_cols conf)) rows rows'"
      by blast
    from k(2) obtain old where old: "old \<in> set rows" "\<forall>c \<in> set k. old c = r c" by (auto simp: unique_with_def list_ex_iff list_all_iff)
    obtain new where new: "new \<in> set rows'" "agree (conf_cols conf) old new" using list_all2_fwd [OF upd old(1)] by blast
    from untouched [OF k(1)] new(2) old(2) have "\<forall>c \<in> set k. new c = r c" by (auto simp: agree_def)
    with new(1) k(1) show ?thesis by blast
  qed
qed

lemma insert_one_counterparts:
  assumes "insert_one pg sch conf rows r = Ok rows'"
  shows "old \<in> set rows \<Longrightarrow> \<exists>new \<in> set rows'. agree (conf_cols conf) old new"
    and "new \<in> set rows' \<Longrightarrow> \<exists>old \<in> insert r (set rows). agree (conf_cols conf) old new"
proof -
  show "\<exists>new \<in> set rows'. agree (conf_cols conf) old new" if "old \<in> set rows"
    using insert_one_Ok [OF assms] that list_all2_fwd [of "agree (conf_cols conf)" rows rows' old] agree_refl by fastforce
  show "\<exists>old \<in> insert r (set rows). agree (conf_cols conf) old new" if "new \<in> set rows'"
    using insert_one_Ok [OF assms] that list_all2_bwd [of "agree (conf_cols conf)" rows rows' new] agree_refl by fastforce
qed

text \<open>The same for several rows; \<open>insert_rows_step\<close> is one turn of the loop.\<close>

lemma insert_rows_step:
  assumes "insert_rows pg sch conf (g # gs) rows q = (Ok rows', q')"
  obtains r rows1 q1 where "complete_row pg sch q g = Ok r" "insert_one pg sch conf rows r = Ok rows1"
    "insert_rows pg sch conf gs rows1 q1 = (Ok rows', q')" "q \<le> q1" "draws_serial sch g \<Longrightarrow> q \<le> max_serial \<and> q < q1"
  using assms by (auto simp: Let_def elim!: bind_o_OkE split: if_splits outcome.splits)

lemma insert_rows_seq: "insert_rows pg sch conf gs rows q = (out, q') \<Longrightarrow> q \<le> q'"
  by (induction gs arbitrary: rows q) (fastforce simp: Let_def split: if_splits outcome.splits)+

lemma insert_rows_keys:
  "insert_rows pg sch conf gs rows q = (Ok rows', q') \<Longrightarrow> keys_ok sch rows \<Longrightarrow> keys_ok sch rows'"
proof (induction gs arbitrary: rows q)
  case (Cons g gs)
  then show ?case by (blast elim: insert_rows_step intro: insert_one_keys)
qed simp

lemma insert_rows_kept:
  "insert_rows pg sch conf gs rows q = (Ok rows', q') \<Longrightarrow> old \<in> set rows \<Longrightarrow> \<exists>new \<in> set rows'. agree (conf_cols conf) old new"
proof (induction gs arbitrary: rows q old)
  case (Cons g gs)
  then show ?case by (meson insert_rows_step insert_one_counterparts(1) agree_trans)
qed (auto intro: agree_refl)

lemma insert_rows_origin:
  "insert_rows pg sch conf gs rows q = (Ok rows', q') \<Longrightarrow> new \<in> set rows' \<Longrightarrow>
   (\<exists>old \<in> set rows. agree (conf_cols conf) old new) \<or>
   (\<exists>g \<in> set gs. \<exists>p r. complete_row pg sch p g = Ok r \<and> agree (conf_cols conf) r new \<and>
      (draws_serial sch g \<longrightarrow> q \<le> p \<and> p \<le> max_serial \<and> p < q'))"
proof (induction gs arbitrary: rows q)
  case Nil
  then show ?case by (auto intro: agree_refl)
next
  case (Cons g gs)
  from Cons.prems(1) obtain r rows1 q1 where g: "complete_row pg sch q g = Ok r" "insert_one pg sch conf rows r = Ok rows1"
    "insert_rows pg sch conf gs rows1 q1 = (Ok rows', q')" "q \<le> q1" "draws_serial sch g \<Longrightarrow> q \<le> max_serial \<and> q < q1"
    by (rule insert_rows_step) blast
  from Cons.IH [OF g(3) Cons.prems(2)] show ?case
  proof (elim disjE bexE)
    fix mid assume mid: "mid \<in> set rows1" "agree (conf_cols conf) mid new"
    from insert_one_counterparts(2) [OF g(2) mid(1)] obtain old where
      old: "old = r \<or> old \<in> set rows" "agree (conf_cols conf) old mid" by auto
    with mid(2) have "agree (conf_cols conf) old new" by (blast intro: agree_trans)
    with old(1) g(1,4,5) insert_rows_seq [OF g(3)] show ?thesis by fastforce
  next
    fix h assume "h \<in> set gs" "\<exists>p r. complete_row pg sch p h = Ok r \<and> agree (conf_cols conf) r new \<and>
      (draws_serial sch h \<longrightarrow> q1 \<le> p \<and> p \<le> max_serial \<and> p < q')"
    with g(4) show ?thesis by fastforce
  qed
qed

lemma insert_rows_present:
  assumes "insert_rows pg sch conf gs rows q = (Ok rows', q')" "g \<in> set gs" "keys sch \<noteq> []"
    "\<And>k. k \<in> arbiters sch conf \<Longrightarrow> set k \<inter> conf_cols conf = {}"
  shows "\<exists>p r. complete_row pg sch p g = Ok r \<and> (\<exists>new \<in> set rows'. \<exists>k \<in> arbiters sch conf. \<forall>c \<in> set k. new c = r c)"
  using assms(1,2)
proof (induction gs arbitrary: rows q)
  case (Cons h gs)
  from Cons.prems(1) obtain r rows1 q1 where h: "complete_row pg sch q h = Ok r" "insert_one pg sch conf rows r = Ok rows1"
    "insert_rows pg sch conf gs rows1 q1 = (Ok rows', q')" by (rule insert_rows_step) blast
  show ?case
  proof (cases "g = h")
    case True
    from insert_one_present [OF h(2) assms(3,4)] obtain mid k where
      mid: "mid \<in> set rows1" "k \<in> arbiters sch conf" "\<forall>c \<in> set k. mid c = r c" by blast
    from insert_rows_kept [OF h(3) mid(1)] obtain new where new: "new \<in> set rows'" "agree (conf_cols conf) mid new" by blast
    with mid assms(4) [OF mid(2)] have "\<forall>c \<in> set k. new c = r c" by (auto simp: agree_def)
    with True h(1) mid(2) new(1) show ?thesis by blast
  next
    case False
    with Cons.prems(2) Cons.IH [OF h(3)] show ?thesis by simp
  qed
qed simp

lemma complete_row_value:
  assumes "complete_row pg sch q given = Ok r" "distinct (map c_name (cols sch))" "c \<in> set (cols sch)"
  shows "checked c (column_value pg q given c) = Ok (r (c_name c))"
proof -
  let ?f = "\<lambda>c. bind_o (checked c (column_value pg q given c)) (\<lambda>v. Ok (c_name c, v))"
  from assms(1) obtain cvs where cvs: "collect (map ?f (cols sch)) = Ok cvs" and r: "r = set_cols cvs (\<lambda>_. SNull)"
    by (auto simp: complete_row_def elim!: bind_o_OkE split: if_splits)
  have all: "list_all2 (\<lambda>c cv. checked c (column_value pg q given c) = Ok (snd cv) \<and> fst cv = c_name c) (cols sch) cvs"
    using collect_OkD [OF cvs] by (auto simp: list_all2_map1 elim!: list_all2_mono bind_o_OkE)
  then have "map fst cvs = map c_name (cols sch)" by (induction rule: list_all2_induct) auto
  with assms(2) have "distinct (map fst cvs)" by simp
  moreover obtain v where "(c_name c, v) \<in> set cvs" "checked c (column_value pg q given c) = Ok v"
    using list_all2_fwd [OF all assms(3)] by force
  ultimately show ?thesis by (simp add: r set_cols_value)
qed

end
