(* ===== verification/Admin_Panel.thy ===== *)
theory Admin_Panel
  imports Pg_Tables
begin

text \<open>
  The admin panel's own tables and its login (\<open>api-service/internal/adminpanel/auth.go\<close> and
  \<open>ensureGoAdminTables\<close> of \<open>internal/router/router.go\<close>). The panel is a third-party program;
  the service creates its tables at start-up, checks passwords against the users of the
  platform, and mirrors whoever logs in into the panel's tables. bcrypt's comparison and
  Unicode's case table are arguments.
\<close>

section \<open>Tables\<close>

definition serial_id :: column where
  "serial_id = Column_Def ''id'' Integer True Serial"

definition stamps :: "column list" where
  "stamps = [Column_Def ''created_at'' Timestamp_Local False Default_Now, Column_Def ''updated_at'' Timestamp_Local False Default_Now]"

definition pair_schema :: "string \<Rightarrow> string \<Rightarrow> schema" where
  "pair_schema a b = \<lparr>cols = [Column_Def a Bigint True No_Default, Column_Def b Bigint True No_Default] @ stamps, keys = [[a, b]]\<rparr>"

definition users_schema :: schema where
  "users_schema =
      \<lparr>cols = [serial_id, Column_Def ''username'' (Varchar 190) True No_Default, Column_Def ''password'' (Varchar 255) True No_Default,
         Column_Def ''name'' (Varchar 255) True No_Default, Column_Def ''avatar'' (Varchar 255) False No_Default,
         Column_Def ''remember_token'' (Varchar 100) False No_Default] @ stamps,
       keys = [[''id''], [''username'']]\<rparr>"

definition roles_schema :: schema where
  "roles_schema =
      \<lparr>cols = [serial_id, Column_Def ''name'' (Varchar 255) True No_Default, Column_Def ''slug'' (Varchar 255) True No_Default] @ stamps,
       keys = [[''id''], [''slug'']]\<rparr>"

definition permissions_schema :: schema where
  "permissions_schema =
      \<lparr>cols = [serial_id, Column_Def ''name'' (Varchar 255) True No_Default, Column_Def ''slug'' (Varchar 255) True No_Default,
         Column_Def ''http_method'' (Varchar 255) False No_Default, Column_Def ''http_path'' Unbounded False No_Default] @ stamps,
       keys = [[''id''], [''slug'']]\<rparr>"

definition menu_schema :: schema where
  "menu_schema =
      \<lparr>cols = [serial_id, Column_Def ''parent_id'' Bigint False (Default (SInt 0)), Column_Def ''type'' Integer False (Default (SInt 1)),
         Column_Def ''order'' Integer False (Default (SInt 0)), Column_Def ''title'' (Varchar 255) True No_Default,
         Column_Def ''icon'' (Varchar 255) False No_Default, Column_Def ''uri'' (Varchar 255) False No_Default,
         Column_Def ''header'' (Varchar 255) False No_Default, Column_Def ''plugin_name'' (Varchar 150) True (Default (SText [])),
         Column_Def ''uuid'' (Varchar 150) True (Default (SText []))] @ stamps,
       keys = [[''id'']]\<rparr>"

definition goadmin_schemas :: "(string \<times> schema) list" where
  "goadmin_schemas =
    [(''goadmin_session'',
      \<lparr>cols = [serial_id, Column_Def ''sid'' (Varchar 50) True No_Default, Column_Def ''values'' (Varchar 3000) True No_Default] @ stamps,
       keys = [[''id'']]\<rparr>),
     (''goadmin_site'',
      \<lparr>cols = [serial_id, Column_Def ''key'' (Varchar 100) True No_Default, Column_Def ''value'' Unbounded True No_Default,
         Column_Def ''type'' Integer False (Default (SInt 0)), Column_Def ''description'' (Varchar 3000) False No_Default,
         Column_Def ''state'' Integer False (Default (SInt 0))] @ stamps,
       keys = [[''id'']]\<rparr>),
     (''goadmin_users'', users_schema),
     (''goadmin_roles'', roles_schema),
     (''goadmin_permissions'', permissions_schema),
     (''goadmin_menu'', menu_schema),
     (''goadmin_role_users'', pair_schema ''role_id'' ''user_id''),
     (''goadmin_role_permissions'', pair_schema ''role_id'' ''permission_id''),
     (''goadmin_role_menu'', pair_schema ''role_id'' ''menu_id''),
     (''goadmin_user_permissions'', pair_schema ''user_id'' ''permission_id''),
     (''goadmin_operation_log'',
      \<lparr>cols = [serial_id, Column_Def ''user_id'' Bigint False No_Default, Column_Def ''path'' (Varchar 255) False No_Default,
         Column_Def ''method'' (Varchar 10) False No_Default, Column_Def ''ip'' (Varchar 50) False No_Default,
         Column_Def ''input'' Unbounded False No_Default] @ stamps,
       keys = [[''id'']]\<rparr>)]"

section \<open>Statements\<close>

definition principal_user_sql :: relstmt where
  "principal_user_sql = Insert_Row ''goadmin_users''
     [(''username'', Par 1), (''name'', Par 2), (''password'', Par 3), (''remember_token'', Lit (SText []))]
     (Do_Update [''username''] [(''name'', Excluded ''name''), (''password'', Excluded ''password''), (''updated_at'', Current_Time)])"

definition role_sql :: relstmt where
  "role_sql = Insert_Row ''goadmin_roles'' [(''name'', Lit (SText ''Administrator'')), (''slug'', Lit (SText ''administrator''))]
     (Do_Nothing (Some [''slug'']))"

definition permission_sql :: relstmt where
  "permission_sql = Insert_Row ''goadmin_permissions''
     [(''name'', Lit (SText ''All permission'')), (''slug'', Lit (SText ''*'')), (''http_method'', Lit (SText [])), (''http_path'', Lit (SText ''*''))]
     (Do_Nothing (Some [''slug'']))"

definition role_users_sql :: relstmt where
  "role_users_sql = Insert_Pairs ''goadmin_role_users'' (''role_id'', ''user_id'')
     (''goadmin_roles'', ''slug'', Lit (SText ''administrator'')) (''goadmin_users'', ''username'', Par 1) (Do_Nothing None)"

definition role_permissions_sql :: relstmt where
  "role_permissions_sql = Insert_Pairs ''goadmin_role_permissions'' (''role_id'', ''permission_id'')
     (''goadmin_roles'', ''slug'', Lit (SText ''administrator'')) (''goadmin_permissions'', ''slug'', Lit (SText ''*'')) (Do_Nothing None)"

definition menu_sql :: relstmt where
  "menu_sql = Insert_Row ''goadmin_menu''
     [(''parent_id'', Lit (SInt 0)), (''type'', Lit (SInt 1)), (''order'', Lit (SInt 1)), (''title'', Lit (SText ''Dashboard'')),
      (''icon'', Lit (SText ''fa-bar-chart'')), (''uri'', Lit (SText ''/'')), (''header'', Lit (SText [])),
      (''plugin_name'', Lit (SText [])), (''uuid'', Lit (SText []))]
     (Do_Nothing None)"

definition role_menu_sql :: relstmt where
  "role_menu_sql = Insert_Pairs ''goadmin_role_menu'' (''role_id'', ''menu_id'')
     (''goadmin_roles'', ''slug'', Lit (SText ''administrator'')) (''goadmin_menu'', ''uri'', Lit (SText ''/'')) (Do_Nothing None)"

definition bootstrap_statements :: "relstmt list" where
  "bootstrap_statements = map (\<lambda>(t, sch). Create_Table t sch) goadmin_schemas @
     [role_sql, permission_sql, menu_sql, role_permissions_sql, role_menu_sql]"

definition principal_statements :: "(ptype list \<times> relstmt) list" where
  "principal_statements = [([PText, PText, PText], principal_user_sql), ([], role_sql), ([], permission_sql),
     ([PText], role_users_sql), ([], role_permissions_sql)]"

section \<open>The pool\<close>

text \<open>The platform's tables with the faults to come, and the panel's tables.\<close>

record panel =
  p_db :: dbstate
  p_rel :: reldb

text \<open>\<open>pool.Exec\<close> on the panel's tables: its error and the state afterwards.\<close>

definition run_rel :: "pg \<Rightarrow> ptype list \<times> relstmt \<Rightarrow> goval list \<Rightarrow> panel \<Rightarrow> goerr option \<times> panel" where
  "run_rel pg p args w =
     (let w' = w\<lparr>p_db := (p_db w)\<lparr>faults := tl (faults (p_db w))\<rparr>\<rparr> in
      case next_fault (p_db w) of
        Some (Rejected e) \<Rightarrow> (Some e, w')
      | flt \<Rightarrow>
          (case collect (map2 (pg_encode pg) (fst p) args) of
             Ok vs \<Rightarrow>
               (case exec_rel pg vs (snd p) (p_rel w) of
                  (err, d) \<Rightarrow> ((case (err, flt) of (None, Some (Broken e k)) \<Rightarrow> Some e | _ \<Rightarrow> err), w'\<lparr>p_rel := d\<rparr>))
           | Err e \<Rightarrow> (Some e, w')
           | Panic \<Rightarrow> (Some bad_arg, w')))"

text \<open>\<open>SELECT id FROM t WHERE k = $1\<close> as \<open>pool.QueryRow\<close> sends it.\<close>

definition query_id :: "pg \<Rightarrow> string \<Rightarrow> string \<Rightarrow> goval \<Rightarrow> panel \<Rightarrow> answer \<times> panel" where
  "query_id pg t k arg w =
     (let w' = w\<lparr>p_db := (p_db w)\<lparr>faults := tl (faults (p_db w))\<rparr>\<rparr>;
          failed = (\<lambda>e. (\<lparr>a_err = Some e, a_rows = [], a_end = Some e\<rparr>, w')) in
      case next_fault (p_db w) of
        Some (Rejected e) \<Rightarrow> failed e
      | flt \<Rightarrow>
          (case bind_o (pg_encode pg PText arg) (\<lambda>v. rows_where pg [v] (p_rel w) (t, k, Par 1)) of
             Ok rs \<Rightarrow>
               (let ids = map (\<lambda>r. [r ''id'']) rs in
                case flt of
                  Some (Broken e n) \<Rightarrow> (\<lparr>a_err = None, a_rows = take n ids, a_end = Some e\<rparr>, w')
                | _ \<Rightarrow> (\<lparr>a_err = None, a_rows = ids, a_end = None\<rparr>, w'))
           | Err e \<Rightarrow> failed e
           | Panic \<Rightarrow> failed bad_arg))"

section \<open>Start-up and login\<close>

definition ensureGoAdminTables :: "pg \<Rightarrow> panel \<Rightarrow> panel" where
  "ensureGoAdminTables pg w = foldl (\<lambda>w stmt. snd (run_rel pg ([], stmt) [] w)) w bootstrap_statements"

definition principal_args :: "nat \<Rightarrow> string \<Rightarrow> string \<Rightarrow> string \<Rightarrow> goval list" where
  "principal_args i email name passwordHash =
     (if i = 0 then [GStr email, GStr name, GStr passwordHash] else if i = 3 then [GStr email] else [])"

fun principal_loop :: "pg \<Rightarrow> (nat \<Rightarrow> goval list) \<Rightarrow> (nat \<times> ptype list \<times> relstmt) list \<Rightarrow> panel \<Rightarrow> goerr option \<times> panel" where
  "principal_loop pg args [] w = (None, w)"
| "principal_loop pg args ((i, stmt) # stmts) w =
     (case run_rel pg stmt (args i) w of
        (Some err, w') \<Rightarrow> (Some err, w')
      | (None, w') \<Rightarrow> principal_loop pg args stmts w')"

definition ensureGoAdminPrincipal :: "pg \<Rightarrow> string \<Rightarrow> string \<Rightarrow> string \<Rightarrow> panel \<Rightarrow> goerr option \<times> panel" where
  "ensureGoAdminPrincipal pg email name passwordHash w =
     principal_loop pg (\<lambda>i. principal_args i email name passwordHash) (enumerate 0 principal_statements) w"

record UserModel =
  um_Id :: int
  um_UserName :: string
  um_Name :: string

definition no_user :: UserModel where
  "no_user = \<lparr>um_Id = 0, um_UserName = [], um_Name = []\<rparr>"

definition admin_user_sql :: prepared where
  "admin_user_sql = ([PText], Select [Col ''password_hash'', Col ''name'', Col ''is_active''] ''users''
     [Eq ''email'' (Par 1), IsNull ''deleted_at''] None None)"

definition wrong_login :: string where
  "wrong_login = ''wrong password or username''"

text \<open>The variables after a scan without error; the driver leaves values of their types in them.\<close>

fun user_vars :: "goval list option \<times> goerr option \<Rightarrow> (string \<times> string \<times> bool) option" where
  "user_vars (Some [GStr passwordHash, GStr name, GBool isActive], None) = Some (passwordHash, name, isActive)"
| "user_vars _ = None"

fun id_var :: "goval list option \<times> goerr option \<Rightarrow> int option" where
  "id_var (Some [GInt i], None) = Some i"
| "id_var _ = None"

text \<open>The result is the model, whether the login is accepted, and the message.\<close>

definition BackendAuthProcessor ::
  "pg \<Rightarrow> (nat \<Rightarrow> nat) \<Rightarrow> (string \<Rightarrow> string \<Rightarrow> bool) \<Rightarrow> string \<Rightarrow> string \<Rightarrow> panel \<Rightarrow> (UserModel \<times> bool \<times> string) \<times> panel" where
  "BackendAuthProcessor pg tbl pw_ok username password w =
     (let email = TrimSpace (ToLower tbl username) in
      if email = [] \<or> password = [] then ((no_user, False, wrong_login), w)
      else case run_stmt pg admin_user_sql [GStr email] (p_db w) of (q, db) \<Rightarrow>
        (let w1 = w\<lparr>p_db := db\<rparr> in
         case user_vars (scan_row pg [DString, DString, DBool] q) of
           None \<Rightarrow> ((no_user, False, wrong_login), w1)
         | Some (passwordHash, name, isActive) \<Rightarrow>
             if \<not> isActive then ((no_user, False, ''account is inactive''), w1)
             else if \<not> pw_ok passwordHash password then ((no_user, False, wrong_login), w1)
             else (case ensureGoAdminPrincipal pg email name passwordHash w1 of
               (Some err, w2) \<Rightarrow> ((no_user, False, ''admin login setup failed''), w2)
             | (None, w2) \<Rightarrow>
                 (case query_id pg ''goadmin_users'' ''username'' (GStr email) w2 of (q2, w3) \<Rightarrow>
                   (case id_var (scan_row pg [DInt] q2) of
                      None \<Rightarrow> ((no_user, False, ''admin account not provisioned''), w3)
                    | Some goAdminUserID \<Rightarrow>
                        ((\<lparr>um_Id = goAdminUserID, um_UserName = email, um_Name = name\<rparr>, True, []), w3))))))"

end
