(* ===== verification/Admin_Access.thy ===== *)
theory Admin_Access
  imports Admin_Panel
begin

text \<open>
  What start-ups and logins do to the panel's tables over time: an invariant of every
  reachable state, and what successful statements leave behind. The panel's own pages,
  through which an administrator may edit the same tables, are outside the model.
\<close>

section \<open>The invariant\<close>

text \<open>The columns of a link table with the tables they refer to; the schema declares no foreign keys.\<close>

definition links :: "string \<Rightarrow> (string \<times> string) list" where
  "links t =
     (if t = ''goadmin_role_users'' then [(''role_id'', ''goadmin_roles''), (''user_id'', ''goadmin_users'')]
      else if t = ''goadmin_role_permissions'' then [(''role_id'', ''goadmin_roles''), (''permission_id'', ''goadmin_permissions'')]
      else if t = ''goadmin_role_menu'' then [(''role_id'', ''goadmin_roles''), (''menu_id'', ''goadmin_menu'')]
      else [])"

definition table_rows :: "reldb \<Rightarrow> string \<Rightarrow> row list" where
  "table_rows d t = (case rel d t of None \<Rightarrow> [] | Some (sch, rows) \<Rightarrow> rows)"

definition ids :: "reldb \<Rightarrow> string \<Rightarrow> sval set" where
  "ids d t = (\<lambda>r. r ''id'') ` set (table_rows d t)"

definition serials_ok :: "int \<Rightarrow> row list \<Rightarrow> bool" where
  "serials_ok q rows \<longleftrightarrow> 1 \<le> q \<and> (\<forall>r \<in> set rows. \<exists>i. r ''id'' = SInt i \<and> 1 \<le> i \<and> i < q \<and> i \<le> max_serial)"

text \<open>
  Every table has the schema of the bootstrap, its keys hold, serial numbers stay below the
  next one, and the links of its rows lead to existing rows.
\<close>

definition goadmin_inv :: "reldb \<Rightarrow> bool" where
  "goadmin_inv d \<longleftrightarrow>
     (\<forall>t sch rows. rel d t = Some (sch, rows) \<longrightarrow>
        map_of goadmin_schemas t = Some sch \<and> keys_ok sch rows \<and>
        (serial_id \<in> set (cols sch) \<longrightarrow> serials_ok (seqs d t) rows) \<and>
        (\<forall>(c, t') \<in> set (links t). \<forall>r \<in> set rows. r c \<in> ids d t'))"

fun safe_stmt :: "relstmt \<Rightarrow> bool" where
  "safe_stmt (Create_Table t sch) \<longleftrightarrow> map_of goadmin_schemas t = Some sch"
| "safe_stmt (Insert_Row t sets conf) \<longleftrightarrow> links t = [] \<and> ''id'' \<notin> fst ` set sets \<and> ''id'' \<notin> conf_cols conf"
| "safe_stmt (Insert_Pairs t (a, b) (t1, k1, e1) (t2, k2, e2) conf) \<longleftrightarrow> links t = [(a, t1), (b, t2)] \<and> conf_cols conf = {}"

lemmas schema_defs = users_schema_def roles_schema_def permissions_schema_def menu_schema_def pair_schema_def serial_id_def stamps_def

lemma schema_of [simp]:
  "map_of goadmin_schemas ''goadmin_users'' = Some users_schema" "map_of goadmin_schemas ''goadmin_roles'' = Some roles_schema"
  "map_of goadmin_schemas ''goadmin_permissions'' = Some permissions_schema" "map_of goadmin_schemas ''goadmin_menu'' = Some menu_schema"
  "map_of goadmin_schemas ''goadmin_role_users'' = Some (pair_schema ''role_id'' ''user_id'')"
  "map_of goadmin_schemas ''goadmin_role_permissions'' = Some (pair_schema ''role_id'' ''permission_id'')"
  "map_of goadmin_schemas ''goadmin_role_menu'' = Some (pair_schema ''role_id'' ''menu_id'')"
  by (simp_all add: goadmin_schemas_def)

lemma serial_schemas [simp]:
  "serial_id \<in> set (cols users_schema)" "serial_id \<in> set (cols roles_schema)" "serial_id \<in> set (cols permissions_schema)"
  "serial_id \<in> set (cols menu_schema)"
  by (simp_all add: schema_defs)

lemma schemas_distinct: "map_of goadmin_schemas t = Some sch \<Longrightarrow> distinct (map c_name (cols sch))"
proof -
  have "list_all (\<lambda>(t, sch). distinct (map c_name (cols sch))) goadmin_schemas"
    by (simp add: goadmin_schemas_def schema_defs)
  then show "map_of goadmin_schemas t = Some sch \<Longrightarrow> distinct (map c_name (cols sch))"
    by (auto simp: list_all_iff dest: map_of_SomeD)
qed

lemma link_schema:
  assumes "links t = [(a, t1), (b, t2)]" "map_of goadmin_schemas t = Some sch"
  shows "sch = pair_schema a b" "serial_id \<notin> set (cols sch)"
  using assms by (auto simp: links_def schema_defs split: if_splits)

text \<open>An insert that fails leaves the rows as they are and may only have drawn serial numbers.\<close>

lemma insert_into_cases:
  assumes "insert_into pg t conf src d = (err, d')"
  obtains (nothing) q where "seqs d t \<le> q" "d' = d\<lparr>seqs := (seqs d)(t := q)\<rparr>" "err \<noteq> None"
  | (inserted) sch rows gs rows' q where "rel d t = Some (sch, rows)" "src = Ok gs" "err = None"
      "insert_rows pg sch conf gs rows (seqs d t) = (Ok rows', q)"
      "d' = d\<lparr>rel := (rel d)(t \<mapsto> (sch, rows')), seqs := (seqs d)(t := q)\<rparr>"
proof (cases "\<exists>sch rows gs rows' q. rel d t = Some (sch, rows) \<and> src = Ok gs \<and> insert_rows pg sch conf gs rows (seqs d t) = (Ok rows', q)")
  case True
  with assms show thesis by (auto simp: insert_into_def intro: inserted)
next
  case False
  have "\<exists>q. seqs d t \<le> q \<and> d' = d\<lparr>seqs := (seqs d)(t := q)\<rparr> \<and> err \<noteq> None"
  proof (cases "\<exists>sch rows gs. rel d t = Some (sch, rows) \<and> src = Ok gs")
    case True
    then obtain sch rows gs where c: "rel d t = Some (sch, rows)" "src = Ok gs" by blast
    obtain out q where r: "insert_rows pg sch conf gs rows (seqs d t) = (out, q)" by fastforce
    with assms c False insert_rows_seq [OF r] show ?thesis by (cases out) (auto simp: insert_into_def)
  next
    case False
    with assms have "d' = d" "err \<noteq> None" by (auto simp: insert_into_def split: option.splits outcome.splits)
    then show ?thesis by (intro exI [of _ "seqs d t"]) simp
  qed
  then obtain q where "seqs d t \<le> q" "d' = d\<lparr>seqs := (seqs d)(t := q)\<rparr>" "err \<noteq> None" by blast
  then show thesis by (rule nothing)
qed

lemma inv_seq:
  assumes "goadmin_inv d" "seqs d t \<le> q"
  shows "goadmin_inv (d\<lparr>seqs := (seqs d)(t := q)\<rparr>)"
  using assms by (fastforce simp: goadmin_inv_def serials_ok_def ids_def table_rows_def)

text \<open>
  Replacing the rows of one table keeps the invariant if it is right for the table itself
  and no id disappears.
\<close>

lemma inv_rows:
  assumes inv: "goadmin_inv d" and t: "rel d t = Some (sch, rows)" and kept: "\<And>r. r \<in> set rows \<Longrightarrow> \<exists>r' \<in> set rows'. r' ''id'' = r ''id''"
    and d': "d' = d\<lparr>rel := (rel d)(t \<mapsto> (sch, rows')), seqs := (seqs d)(t := q)\<rparr>"
    and own: "keys_ok sch rows'" "serial_id \<in> set (cols sch) \<Longrightarrow> serials_ok q rows'"
      "\<And>c t' r. (c, t') \<in> set (links t) \<Longrightarrow> r \<in> set rows' \<Longrightarrow> r c \<in> ids d t'"
  shows "goadmin_inv d'"
proof -
  have "(\<lambda>r. r ''id'') ` set rows \<subseteq> (\<lambda>r. r ''id'') ` set rows'"
  proof
    fix v assume "v \<in> (\<lambda>r. r ''id'') ` set rows"
    then obtain r where "r \<in> set rows" "v = r ''id''" by auto
    with kept show "v \<in> (\<lambda>r. r ''id'') ` set rows'" by (metis imageI)
  qed
  then have mono: "ids d t' \<subseteq> ids d' t'" for t' by (simp add: ids_def table_rows_def d' t)
  show ?thesis
    unfolding goadmin_inv_def
  proof (intro allI impI)
    fix u sch1 rows1 assume u: "rel d' u = Some (sch1, rows1)"
    show "map_of goadmin_schemas u = Some sch1 \<and> keys_ok sch1 rows1 \<and> (serial_id \<in> set (cols sch1) \<longrightarrow> serials_ok (seqs d' u) rows1) \<and>
      (\<forall>(c, t') \<in> set (links u). \<forall>r \<in> set rows1. r c \<in> ids d' t')"
    proof (cases "u = t")
      case True
      with u t inv own mono show ?thesis by (fastforce simp: goadmin_inv_def d')
    next
      case False
      with u have old: "rel d u = Some (sch1, rows1)" "seqs d' u = seqs d u" by (simp_all add: d')
      from inv old(1) have "map_of goadmin_schemas u = Some sch1 \<and> keys_ok sch1 rows1 \<and> (serial_id \<in> set (cols sch1) \<longrightarrow> serials_ok (seqs d u) rows1) \<and>
        (\<forall>(c, t') \<in> set (links u). \<forall>r \<in> set rows1. r c \<in> ids d t')" by (auto simp: goadmin_inv_def)
      with old(2) mono show ?thesis by fastforce
    qed
  qed
qed

section \<open>Every statement keeps the invariant\<close>

lemma store_Bigint: "store Bigint v = Ok w \<Longrightarrow> w = v"
  by (cases v) (auto split: if_splits)

lemma pair_row:
  assumes "complete_row pg (pair_schema a b) q [(a, x), (b, y)] = Ok r" "a \<noteq> b" "a \<notin> {''created_at'', ''updated_at''}" "b \<notin> {''created_at'', ''updated_at''}"
  shows "r a = x" "r b = y"
proof -
  have "distinct (map c_name (cols (pair_schema a b)))" using assms(2-4) by (auto simp: pair_schema_def stamps_def)
  note val = complete_row_value [OF assms(1) this]
  from val [of "Column_Def a Bigint True No_Default"] val [of "Column_Def b Bigint True No_Default"] assms(2)
  show "r a = x" "r b = y"
    by (auto simp: pair_schema_def checked_def column_value_def elim!: bind_o_OkE split: if_splits dest: store_Bigint)
qed

lemma serial_row:
  assumes "complete_row pg sch p g = Ok r" "distinct (map c_name (cols sch))" "serial_id \<in> set (cols sch)"
    "''id'' \<notin> fst ` set g" "1 \<le> p" "p \<le> max_serial"
  shows "r ''id'' = SInt p"
proof -
  have "map_of g ''id'' = None" using assms(4) by (simp add: map_of_eq_None_iff)
  with complete_row_value [OF assms(1-3)] assms(5,6) show ?thesis
    by (simp add: serial_id_def checked_def column_value_def max_serial_def)
qed

lemma draws_serialI: "serial_id \<in> set (cols sch) \<Longrightarrow> ''id'' \<notin> fst ` set g \<Longrightarrow> draws_serial sch g"
  by (force simp: draws_serial_def list_ex_iff serial_id_def map_of_eq_None_iff)

lemma insert_row_inv:
  assumes inv: "goadmin_inv d" and safe: "links t = []" "''id'' \<notin> conf_cols conf" and gs: "\<And>g. g \<in> set gs \<Longrightarrow> ''id'' \<notin> fst ` set g"
    and t: "rel d t = Some (sch, rows)" and ins: "insert_rows pg sch conf gs rows (seqs d t) = (Ok rows', q)"
  shows "goadmin_inv (d\<lparr>rel := (rel d)(t \<mapsto> (sch, rows')), seqs := (seqs d)(t := q)\<rparr>)"
proof (rule inv_rows [OF inv t _ refl])
  from inv t have old: "map_of goadmin_schemas t = Some sch" "keys_ok sch rows" "serial_id \<in> set (cols sch) \<Longrightarrow> serials_ok (seqs d t) rows"
    by (auto simp: goadmin_inv_def)
  show "\<exists>r' \<in> set rows'. r' ''id'' = r ''id''" if "r \<in> set rows" for r
    using insert_rows_kept [OF ins that] safe(2) by (auto simp: agree_def)
  show "keys_ok sch rows'" using insert_rows_keys [OF ins old(2)] .
  show "r c \<in> ids d t'" if "(c, t') \<in> set (links t)" for c t' r using that safe(1) by simp
  show "serials_ok q rows'" if ser: "serial_id \<in> set (cols sch)"
  proof -
    have ok: "serials_ok (seqs d t) rows" using old(3) ser .
    have le: "seqs d t \<le> q" using insert_rows_seq [OF ins] .
    have "\<exists>i. r ''id'' = SInt i \<and> 1 \<le> i \<and> i < q \<and> i \<le> max_serial" if r: "r \<in> set rows'" for r
      using insert_rows_origin [OF ins r]
    proof (elim disjE bexE exE conjE)
      fix o' assume "o' \<in> set rows" "agree (conf_cols conf) o' r"
      with ok safe(2) le show ?thesis by (fastforce simp: serials_ok_def agree_def)
    next
      fix g p r0 assume g: "g \<in> set gs" "complete_row pg sch p g = Ok r0" "agree (conf_cols conf) r0 r"
        "draws_serial sch g \<longrightarrow> seqs d t \<le> p \<and> p \<le> max_serial \<and> p < q"
      with draws_serialI [OF ser gs [OF g(1)]] ok have p: "1 \<le> p" "p \<le> max_serial" "p < q" by (auto simp: serials_ok_def)
      from serial_row [OF g(2) schemas_distinct [OF old(1)] ser gs [OF g(1)] p(1,2)] g(3) safe(2) p show ?thesis by (simp add: agree_def)
    qed
    with ok le show ?thesis by (auto simp: serials_ok_def)
  qed
qed

lemma insert_pairs_inv:
  assumes inv: "goadmin_inv d" and safe: "links t = [(a, t1), (b, t2)]" "conf_cols conf = {}"
    and gs: "\<And>g. g \<in> set gs \<Longrightarrow> \<exists>x \<in> ids d t1. \<exists>y \<in> ids d t2. g = [(a, x), (b, y)]"
    and t: "rel d t = Some (sch, rows)" and ins: "insert_rows pg sch conf gs rows (seqs d t) = (Ok rows', q)"
  shows "goadmin_inv (d\<lparr>rel := (rel d)(t \<mapsto> (sch, rows')), seqs := (seqs d)(t := q)\<rparr>)"
proof (rule inv_rows [OF inv t _ refl])
  from inv t have sch: "map_of goadmin_schemas t = Some sch" and keys: "keys_ok sch rows" and
    linked: "\<And>c t' r. (c, t') \<in> set (links t) \<Longrightarrow> r \<in> set rows \<Longrightarrow> r c \<in> ids d t'"
    unfolding goadmin_inv_def by (blast, blast, fastforce)
  note schema = link_schema [OF safe(1) sch]
  have same: "r' = r" if "agree (conf_cols conf) r r'" for r r' using that safe(2) by (auto simp: agree_def)
  show "\<exists>r' \<in> set rows'. r' ''id'' = r ''id''" if "r \<in> set rows" for r
    using insert_rows_kept [OF ins that] same by blast
  show "keys_ok sch rows'" using insert_rows_keys [OF ins keys] .
  show "serials_ok q rows'" if "serial_id \<in> set (cols sch)" using that schema(2) by simp
  have cols: "a \<noteq> b" "a \<notin> {''created_at'', ''updated_at''}" "b \<notin> {''created_at'', ''updated_at''}"
    using safe(1) by (auto simp: links_def split: if_splits)
  show "r c \<in> ids d t'" if c: "(c, t') \<in> set (links t)" and r: "r \<in> set rows'" for c t' r
    using insert_rows_origin [OF ins r]
  proof (elim disjE bexE exE conjE)
    fix o' assume "o' \<in> set rows" "agree (conf_cols conf) o' r"
    with linked [OF c] same show ?thesis by blast
  next
    fix g p r0 assume g: "g \<in> set gs" "complete_row pg sch p g = Ok r0" "agree (conf_cols conf) r0 r"
    from gs [OF g(1)] obtain x y where xy: "x \<in> ids d t1" "y \<in> ids d t2" "g = [(a, x), (b, y)]" by blast
    from pair_row [OF _ cols] g(2) xy(3) schema(1) have "r0 a = x" "r0 b = y" by auto
    with same [OF g(3)] xy c safe(1) show ?thesis by auto
  qed
qed

lemma rows_where_ids: "rows_where pg vs d (t, k, e) = Ok rs \<Longrightarrow> r \<in> set rs \<Longrightarrow> r ''id'' \<in> ids d t"
  by (auto simp: rows_where_def ids_def table_rows_def elim!: bind_o_OkE split: option.splits)

lemma eval_sets_given: "eval_sets pg vs r sets = Ok g \<Longrightarrow> fst ` set g = fst ` set sets"
  using eval_sets_cols [of pg vs r sets g] by (metis list.set_map)

lemma exec_rel_inv:
  assumes "safe_stmt st" "goadmin_inv d" "exec_rel pg vs st d = (err, d')"
  shows "goadmin_inv d'"
proof (cases st)
  case (Create_Table t sch)
  show ?thesis
  proof (cases "rel d t")
    case None
    have "goadmin_inv (d\<lparr>rel := (rel d)(t \<mapsto> (sch, [])), seqs := (seqs d)(t := 1)\<rparr>)"
      using assms(1,2) None unfolding Create_Table
      by (auto simp: goadmin_inv_def keys_ok_def list_all_iff serials_ok_def ids_def table_rows_def split: option.splits) fastforce+
    with assms(3) None show ?thesis by (simp add: Create_Table)
  qed (use assms in \<open>simp add: Create_Table\<close>)
next
  case (Insert_Row t sets conf)
  with assms(3) have "insert_into pg t conf (bind_o (eval_sets pg vs (\<lambda>_. SNull) sets) (\<lambda>g. Ok [g])) d = (err, d')" by simp
  then show ?thesis
  proof (cases rule: insert_into_cases)
    case (inserted sch rows gs rows' q)
    then obtain g where g: "eval_sets pg vs (\<lambda>_. SNull) sets = Ok g" "gs = [g]" by (auto elim!: bind_o_OkE)
    have "''id'' \<notin> fst ` set g" using assms(1) eval_sets_given [OF g(1)] by (simp add: Insert_Row)
    with insert_row_inv [OF assms(2) _ _ _ inserted(1,4)] assms(1) g(2) inserted(5) show ?thesis by (simp add: Insert_Row)
  qed (use inv_seq [OF assms(2)] in simp)
next
  case (Insert_Pairs t ab from1 from2 conf)
  obtain a b t1 k1 e1 t2 k2 e2 where p: "ab = (a, b)" "from1 = (t1, k1, e1)" "from2 = (t2, k2, e2)" by (metis prod.exhaust)
  let ?src = "bind_o (rows_where pg vs d from1) (\<lambda>xs. bind_o (rows_where pg vs d from2) (\<lambda>ys.
      Ok (concat (map (\<lambda>x. map (\<lambda>y. [(a, x ''id''), (b, y ''id'')]) ys) xs))))"
  from assms(3) have "insert_into pg t conf ?src d = (err, d')" by (simp add: Insert_Pairs p)
  then show ?thesis
  proof (cases rule: insert_into_cases)
    case (inserted sch rows gs rows' q)
    from inserted(2) obtain xs ys where xy: "rows_where pg vs d from1 = Ok xs" "rows_where pg vs d from2 = Ok ys"
      "gs = concat (map (\<lambda>x. map (\<lambda>y. [(a, x ''id''), (b, y ''id'')]) ys) xs)" by (auto elim!: bind_o_OkE)
    have "\<exists>x \<in> ids d t1. \<exists>y \<in> ids d t2. g = [(a, x), (b, y)]" if "g \<in> set gs" for g
      using that rows_where_ids [OF xy(1) [unfolded p]] rows_where_ids [OF xy(2) [unfolded p]] by (auto simp: xy(3))
    with insert_pairs_inv [OF assms(2) _ _ _ inserted(1,4)] assms(1) inserted(5) show ?thesis by (simp add: Insert_Pairs p)
  qed (use inv_seq [OF assms(2)] in simp)
qed

section \<open>Starts and logins\<close>

lemma run_rel_shape:
  assumes "run_rel pg p args w = (err, w')"
  shows "p_rel w' = p_rel w \<and> err \<noteq> None \<or>
    (\<exists>vs err'. collect (map2 (pg_encode pg) (fst p) args) = Ok vs \<and> exec_rel pg vs (snd p) (p_rel w) = (err', p_rel w') \<and>
       (err = None \<longrightarrow> err' = None))"
  using assms
  by (auto simp: run_rel_def Let_def split: option.splits fault.splits outcome.splits prod.splits)

lemma run_rel_inv:
  "safe_stmt (snd p) \<Longrightarrow> goadmin_inv (p_rel w) \<Longrightarrow> goadmin_inv (p_rel (snd (run_rel pg p args w)))"
  using run_rel_shape [of pg p args w "fst (run_rel pg p args w)" "snd (run_rel pg p args w)"] exec_rel_inv by fastforce

lemma run_rel_kept: "run_rel pg p args w = (err, w') \<Longrightarrow> safe_stmt (snd p) \<Longrightarrow> goadmin_inv (p_rel w) \<Longrightarrow> goadmin_inv (p_rel w')"
  using run_rel_inv by (metis snd_conv)

lemma statements_safe: "list_all safe_stmt bootstrap_statements" "list_all (\<lambda>p. safe_stmt (snd p)) principal_statements"
proof -
  have "distinct (map fst goadmin_schemas)" by (simp add: goadmin_schemas_def)
  then have "list_all (\<lambda>(t, sch). map_of goadmin_schemas t = Some sch) goadmin_schemas" by (auto simp: list_all_iff)
  then show "list_all safe_stmt bootstrap_statements"
    by (auto simp: bootstrap_statements_def list_all_iff role_sql_def permission_sql_def menu_sql_def role_permissions_sql_def
        role_menu_sql_def links_def)
  show "list_all (\<lambda>p. safe_stmt (snd p)) principal_statements"
    by (simp add: principal_statements_def principal_user_sql_def role_sql_def permission_sql_def role_users_sql_def
        role_permissions_sql_def links_def)
qed

lemma start_inv: "goadmin_inv (p_rel w) \<Longrightarrow> goadmin_inv (p_rel (ensureGoAdminTables pg w))"
proof -
  have "goadmin_inv (p_rel (foldl (\<lambda>w st. snd (run_rel pg ([], st) [] w)) w sts))"
    if "goadmin_inv (p_rel w)" "list_all safe_stmt sts" for sts
    using that by (induction sts arbitrary: w) (simp_all add: run_rel_inv)
  then show "goadmin_inv (p_rel w) \<Longrightarrow> ?thesis" using statements_safe(1) by (simp add: ensureGoAdminTables_def)
qed

lemma principal_loop_inv:
  "goadmin_inv (p_rel w) \<Longrightarrow> list_all (\<lambda>(i, p). safe_stmt (snd p)) ps \<Longrightarrow> goadmin_inv (p_rel (snd (principal_loop pg args ps w)))"
proof (induction ps arbitrary: w)
  case (Cons p ps)
  obtain i st where p: "p = (i, st)" by (cases p)
  have "goadmin_inv (p_rel (snd (run_rel pg st (args i) w)))" using Cons.prems p by (simp add: run_rel_inv)
  with Cons p show ?case by (auto split: prod.splits option.splits)
qed simp

lemma principal_inv: "goadmin_inv (p_rel w) \<Longrightarrow> goadmin_inv (p_rel (snd (ensureGoAdminPrincipal pg email name h w)))"
  unfolding ensureGoAdminPrincipal_def
proof (rule principal_loop_inv)
  show "list_all (\<lambda>(i, p). safe_stmt (snd p)) (enumerate 0 principal_statements)"
    using statements_safe(2) by (auto simp: list_all_iff in_set_enumerate_eq) (metis nth_mem snd_conv)
qed

lemma query_id_rel: "query_id pg t k v w = (a, w') \<Longrightarrow> p_rel w' = p_rel w"
  by (auto simp: query_id_def Let_def split: option.splits fault.splits outcome.splits)

text \<open>Either nothing happens to the panel's tables, or the password has been checked.\<close>

lemma login_cases:
  fixes w
  defines "email \<equiv> \<lambda>tbl u. TrimSpace (ToLower tbl u)"
  obtains (refused) msg db where "BackendAuthProcessor pg tbl pw_ok u p w = ((no_user, False, msg), w\<lparr>p_db := db\<rparr>)"
  | (verified) h name q db out w2 where "run_stmt pg admin_user_sql [GStr (email tbl u)] (p_db w) = (q, db)"
      "user_vars (scan_row pg [DString, DString, DBool] q) = Some (h, name, True)" "pw_ok h p"
      "ensureGoAdminPrincipal pg (email tbl u) name h (w\<lparr>p_db := db\<rparr>) = (out, w2)"
      "p_rel (snd (BackendAuthProcessor pg tbl pw_ok u p w)) = p_rel w2"
      "fst (snd (fst (BackendAuthProcessor pg tbl pw_ok u p w))) \<Longrightarrow> out = None \<and>
         (\<exists>q2 w3 i. query_id pg ''goadmin_users'' ''username'' (GStr (email tbl u)) w2 = (q2, w3) \<and>
            id_var (scan_row pg [DInt] q2) = Some i \<and>
            fst (BackendAuthProcessor pg tbl pw_ok u p w) = (\<lparr>um_Id = i, um_UserName = email tbl u, um_Name = name\<rparr>, True, []))"
proof -
  let ?e = "email tbl u" and ?R = "BackendAuthProcessor pg tbl pw_ok u p w"
  obtain q db where q: "run_stmt pg admin_user_sql [GStr ?e] (p_db w) = (q, db)" by fastforce
  show thesis
  proof (cases "?e = [] \<or> p = [] \<or> (\<forall>h name. user_vars (scan_row pg [DString, DString, DBool] q) = Some (h, name, True) \<longrightarrow> \<not> pw_ok h p)")
    case True
    then have "\<exists>msg db. ?R = ((no_user, False, msg), w\<lparr>p_db := db\<rparr>)"
      using q by (auto simp: BackendAuthProcessor_def Let_def email_def split: option.splits) (metis panel.surjective panel.update_convs(1))+
    with refused show thesis by blast
  next
    case False
    then obtain h name where c: "user_vars (scan_row pg [DString, DString, DBool] q) = Some (h, name, True)" "pw_ok h p" by blast
    obtain out w2 where en: "ensureGoAdminPrincipal pg ?e name h (w\<lparr>p_db := db\<rparr>) = (out, w2)" by fastforce
    obtain q2 w3 where q2: "query_id pg ''goadmin_users'' ''username'' (GStr ?e) w2 = (q2, w3)" by fastforce
    have R: "?R = (case out of Some err \<Rightarrow> ((no_user, False, ''admin login setup failed''), w2)
        | None \<Rightarrow> (case id_var (scan_row pg [DInt] q2) of
            None \<Rightarrow> ((no_user, False, ''admin account not provisioned''), w3)
          | Some i \<Rightarrow> ((\<lparr>um_Id = i, um_UserName = ?e, um_Name = name\<rparr>, True, []), w3)))"
      using False q c en q2 by (simp add: BackendAuthProcessor_def Let_def email_def split: option.splits)
    show thesis
      by (rule verified [OF q c en]) (use q2 query_id_rel [OF q2] in \<open>auto simp: R split: option.splits\<close>)
  qed
qed

lemma login_inv: "goadmin_inv (p_rel w) \<Longrightarrow> goadmin_inv (p_rel (snd (BackendAuthProcessor pg tbl pw_ok u p w)))"
  using login_cases [of pg tbl pw_ok u p w] principal_inv
  by (metis (no_types, lifting) panel.ext_inject panel.surjective panel.update_convs(1) snd_conv)

text \<open>
  The service is started, somebody tries to log in, or something happens outside: other
  statements change the platform's tables, and statements will fail or not.
\<close>

inductive panel_step :: "panel \<Rightarrow> panel \<Rightarrow> bool" where
  start: "panel_step w (ensureGoAdminTables pg w)"
| login: "panel_step w (snd (BackendAuthProcessor pg tbl pw_ok username password w))"
| outside: "panel_step w (w\<lparr>p_db := db\<rparr>)"

inductive_cases panel_stepE: "panel_step w w'"

definition new_panel :: "dbstate \<Rightarrow> panel" where
  "new_panel db = \<lparr>p_db = db, p_rel = \<lparr>rel = Map.empty, seqs = (\<lambda>_. 1)\<rparr>\<rparr>"

definition panel_reachable :: "panel \<Rightarrow> bool" where
  "panel_reachable w \<longleftrightarrow> (\<exists>db. panel_step\<^sup>*\<^sup>* (new_panel db) w)"

lemma panel_step_inv: "panel_step w w' \<Longrightarrow> goadmin_inv (p_rel w) \<Longrightarrow> goadmin_inv (p_rel w')"
  by (erule panel_stepE) (simp_all add: start_inv login_inv)

lemma reachable_inv:
  assumes "panel_reachable w"
  shows "goadmin_inv (p_rel w)"
proof -
  from assms obtain db where "panel_step\<^sup>*\<^sup>* (new_panel db) w" by (auto simp: panel_reachable_def)
  then show ?thesis
  proof (induction rule: rtranclp_induct)
    case base
    show ?case by (simp add: new_panel_def goadmin_inv_def)
  next
    case (step y z)
    then show ?case by (blast intro: panel_step_inv)
  qed
qed

section \<open>What the statements of a login leave behind\<close>

definition is_administrator :: "reldb \<Rightarrow> int \<Rightarrow> bool" where
  "is_administrator d uid \<longleftrightarrow>
     (\<exists>r \<in> set (table_rows d ''goadmin_roles''). r ''slug'' = SText ''administrator'' \<and>
        (\<exists>l \<in> set (table_rows d ''goadmin_role_users''). l ''role_id'' = r ''id'' \<and> l ''user_id'' = SInt uid) \<and>
        (\<exists>p \<in> set (table_rows d ''goadmin_permissions''). p ''slug'' = SText ''*'' \<and>
           (\<exists>l \<in> set (table_rows d ''goadmin_role_permissions''). l ''role_id'' = r ''id'' \<and> l ''permission_id'' = p ''id'')))"

fun stmt_table :: "relstmt \<Rightarrow> string" where
  "stmt_table (Create_Table t sch) = t"
| "stmt_table (Insert_Row t sets conf) = t"
| "stmt_table (Insert_Pairs t ab from1 from2 conf) = t"

lemma exec_rel_other:
  assumes "exec_rel pg vs st d = (err, d')" "u \<noteq> stmt_table st"
  shows "rel d' u = rel d u" "seqs d' u = seqs d u"
proof -
  have ins: "rel d' u = rel d u \<and> seqs d' u = seqs d u" if "insert_into pg t conf src d = (err, d')" "u \<noteq> t" for t conf src
    using that(1) by (cases rule: insert_into_cases) (use that(2) in auto)
  have "rel d' u = rel d u \<and> seqs d' u = seqs d u"
  proof (cases st)
    case (Insert_Pairs t ab from1 from2 conf)
    with assms ins show ?thesis by (cases ab) auto
  qed (use assms ins in \<open>auto split: option.splits\<close>)
  then show "rel d' u = rel d u" "seqs d' u = seqs d u" by simp_all
qed

lemma chars_le: "chars s \<le> length s"
  by (simp add: chars_def)

lemma checked_text: "chars s \<le> n \<Longrightarrow> checked (Column_Def c (Varchar n) nn df) (SText s) = Ok (SText s)"
  by (simp add: checked_def)

text \<open>After a successful insert that tolerates a conflict on \<open>k\<close>, there is a row with the given \<open>k\<close>.\<close>

lemma insert_row_success:
  assumes ex: "exec_rel pg vs (Insert_Row t sets conf) d = (None, d')" and inv: "goadmin_inv d"
    and sch: "map_of goadmin_schemas t = Some sch" "keys sch \<noteq> []" and k: "arbiters sch conf = {[k]}" "k \<notin> conf_cols conf"
    and col: "Column_Def k (Varchar n) nn df \<in> set (cols sch)" "(k, e) \<in> set sets" "eval pg vs (\<lambda>_. SNull) e = Ok (SText v)"
      "distinct (map fst sets)" "chars v \<le> n"
  shows "\<exists>r \<in> set (table_rows d' t). r k = SText v"
proof -
  from ex have "insert_into pg t conf (bind_o (eval_sets pg vs (\<lambda>_. SNull) sets) (\<lambda>g. Ok [g])) d = (None, d')" by simp
  then show ?thesis
  proof (cases rule: insert_into_cases)
    case (inserted sch' rows gs rows' q)
    from inv inserted(1) sch(1) have same: "sch' = sch" by (auto simp: goadmin_inv_def)
    from inserted(2) obtain g where g: "eval_sets pg vs (\<lambda>_. SNull) sets = Ok g" "gs = [g]" by (auto elim!: bind_o_OkE)
    from eval_sets_value [OF g(1) col(2)] eval_sets_cols [OF g(1)] col(3,4) have val: "map_of g k = Some (SText v)" by simp
    from insert_rows_present [OF inserted(4), of g] g(2) sch(2) k same obtain p r new where
      r: "complete_row pg sch p g = Ok r" "new \<in> set rows'" "new k = r k" by auto
    from complete_row_value [OF r(1) schemas_distinct [OF sch(1)] col(1)] val checked_text [OF col(5)]
    have "r k = SText v" by (simp add: column_value_def)
    with r inserted(5) show ?thesis by (auto simp: table_rows_def)
  qed simp
qed

lemma insert_pairs_success:
  assumes ex: "exec_rel pg vs (Insert_Pairs t (a, b) (t1, k1, e1) (t2, k2, e2) (Do_Nothing None)) d = (None, d')"
    and inv: "goadmin_inv d" and t: "links t = [(a, t1), (b, t2)]"
    and x: "x \<in> set (table_rows d t1)" "eval pg vs (\<lambda>_. SNull) e1 = Ok (x k1)" "x k1 \<noteq> SNull"
    and y: "y \<in> set (table_rows d t2)" "eval pg vs (\<lambda>_. SNull) e2 = Ok (y k2)" "y k2 \<noteq> SNull"
  shows "\<exists>r \<in> set (table_rows d' t). r a = x ''id'' \<and> r b = y ''id''"
proof -
  let ?src = "bind_o (rows_where pg vs d (t1, k1, e1)) (\<lambda>xs. bind_o (rows_where pg vs d (t2, k2, e2)) (\<lambda>ys.
      Ok (concat (map (\<lambda>x. map (\<lambda>y. [(a, x ''id''), (b, y ''id'')]) ys) xs))))"
  from ex have "insert_into pg t (Do_Nothing None) ?src d = (None, d')" by simp
  then show ?thesis
  proof (cases rule: insert_into_cases)
    case (inserted sch rows gs rows' q)
    from inv inserted(1) have "map_of goadmin_schemas t = Some sch" by (auto simp: goadmin_inv_def)
    from link_schema(1) [OF t this] have sch: "sch = pair_schema a b" .
    from inserted(2) obtain xs ys where xy: "rows_where pg vs d (t1, k1, e1) = Ok xs" "rows_where pg vs d (t2, k2, e2) = Ok ys"
      "gs = concat (map (\<lambda>x. map (\<lambda>y. [(a, x ''id''), (b, y ''id'')]) ys) xs)" by (auto elim!: bind_o_OkE)
    have "x \<in> set xs" "y \<in> set ys"
      using xy(1,2) x y by (auto simp: rows_where_def table_rows_def split: option.splits)
    then have g: "[(a, x ''id''), (b, y ''id'')] \<in> set gs" by (auto simp: xy(3))
    have cols: "a \<noteq> b" "a \<notin> {''created_at'', ''updated_at''}" "b \<notin> {''created_at'', ''updated_at''}"
      using t by (auto simp: links_def split: if_splits)
    from insert_rows_present [OF inserted(4) g] obtain p r new where
      r: "complete_row pg sch p [(a, x ''id''), (b, y ''id'')] = Ok r" "new \<in> set rows'" "new a = r a" "new b = r b"
      by (auto simp: sch pair_schema_def)
    from pair_row [OF r(1) [unfolded sch] cols] r(2-4) inserted(5) show ?thesis by (auto simp: table_rows_def)
  qed simp
qed

lemma run_rel_success:
  assumes "run_rel pg p args w = (None, w')"
  obtains vs where "collect (map2 (pg_encode pg) (fst p) args) = Ok vs" "exec_rel pg vs (snd p) (p_rel w) = (None, p_rel w')"
  using run_rel_shape [OF assms] by auto

lemma principal_success:
  assumes inv: "goadmin_inv (p_rel w)" and ok: "ensureGoAdminPrincipal pg email name h w = (None, w')"
    and enc: "pg_encode pg PText (GStr email) = Ok (SText email)"
    and u: "u \<in> set (table_rows (p_rel w') ''goadmin_users'')" "u ''username'' = SText email" "u ''id'' = SInt i"
  shows "is_administrator (p_rel w') i"
proof -
  from ok obtain w1 w2 w3 w4 where
    r0: "run_rel pg ([PText, PText, PText], principal_user_sql) [GStr email, GStr name, GStr h] w = (None, w1)" and
    r1: "run_rel pg ([], role_sql) [] w1 = (None, w2)" and r2: "run_rel pg ([], permission_sql) [] w2 = (None, w3)" and
    r3: "run_rel pg ([PText], role_users_sql) [GStr email] w3 = (None, w4)" and
    r4: "run_rel pg ([], role_permissions_sql) [] w4 = (None, w')"
    by (auto simp: ensureGoAdminPrincipal_def principal_statements_def principal_args_def split: prod.splits option.splits)
  note safe = statements_safe(2) [unfolded principal_statements_def, simplified]
  have inv1: "goadmin_inv (p_rel w1)" using run_rel_kept [OF r0 _ inv] safe by simp
  have inv2: "goadmin_inv (p_rel w2)" using run_rel_kept [OF r1 _ inv1] safe by simp
  have inv3: "goadmin_inv (p_rel w3)" using run_rel_kept [OF r2 _ inv2] safe by simp
  have inv4: "goadmin_inv (p_rel w4)" using run_rel_kept [OF r3 _ inv3] safe by simp
  from run_rel_success [OF r1] have e1: "exec_rel pg [] role_sql (p_rel w1) = (None, p_rel w2)" by auto
  from run_rel_success [OF r2] have e2: "exec_rel pg [] permission_sql (p_rel w2) = (None, p_rel w3)" by auto
  from run_rel_success [OF r3] enc have e3: "exec_rel pg [SText email] role_users_sql (p_rel w3) = (None, p_rel w4)" by auto
  from run_rel_success [OF r4] have e4: "exec_rel pg [] role_permissions_sql (p_rel w4) = (None, p_rel w')" by auto
  have roles: "table_rows (p_rel w') ''goadmin_roles'' = table_rows (p_rel w2) ''goadmin_roles''"
      "table_rows (p_rel w4) ''goadmin_roles'' = table_rows (p_rel w2) ''goadmin_roles''"
      "table_rows (p_rel w3) ''goadmin_roles'' = table_rows (p_rel w2) ''goadmin_roles''"
    and perms: "table_rows (p_rel w') ''goadmin_permissions'' = table_rows (p_rel w3) ''goadmin_permissions''"
      "table_rows (p_rel w4) ''goadmin_permissions'' = table_rows (p_rel w3) ''goadmin_permissions''"
    and users: "table_rows (p_rel w') ''goadmin_users'' = table_rows (p_rel w3) ''goadmin_users''"
    and rusers: "table_rows (p_rel w') ''goadmin_role_users'' = table_rows (p_rel w4) ''goadmin_role_users''"
    using exec_rel_other(1) [OF e2] exec_rel_other(1) [OF e3] exec_rel_other(1) [OF e4]
    by (simp_all add: table_rows_def permission_sql_def role_users_sql_def role_permissions_sql_def)
  obtain r where r: "r \<in> set (table_rows (p_rel w2) ''goadmin_roles'')" "r ''slug'' = SText ''administrator''"
    using insert_row_success [OF e1 [unfolded role_sql_def] inv1, of _ "''slug''" 255 True No_Default "Lit (SText ''administrator'')" "''administrator''"]
      chars_le [of "''administrator''"] by (auto simp: schema_defs)
  obtain p where p: "p \<in> set (table_rows (p_rel w3) ''goadmin_permissions'')" "p ''slug'' = SText ''*''"
    using insert_row_success [OF e2 [unfolded permission_sql_def] inv2, of _ "''slug''" 255 True No_Default "Lit (SText ''*'')" "''*''"]
      chars_le [of "''*''"] by (auto simp: schema_defs)
  from insert_pairs_success [OF e3 [unfolded role_users_sql_def] inv3, of r u] r u roles users
  obtain l where l: "l \<in> set (table_rows (p_rel w4) ''goadmin_role_users'')" "l ''role_id'' = r ''id''" "l ''user_id'' = SInt i"
    by (auto simp: links_def)
  from insert_pairs_success [OF e4 [unfolded role_permissions_sql_def] inv4, of r p] r p roles perms
  obtain m where m: "m \<in> set (table_rows (p_rel w') ''goadmin_role_permissions'')" "m ''role_id'' = r ''id''" "m ''permission_id'' = p ''id''"
    by (auto simp: links_def)
  from r p l m roles(1) perms(1) rusers show ?thesis unfolding is_administrator_def by metis
qed

lemma query_id_Ok:
  assumes "query_id pg t k arg w = (q, w')" "scan_row pg ds q = (Some vs, None)" "pg_encode pg PText arg = Ok v"
  obtains r where "r \<in> set (table_rows (p_rel w) t)" "r k = v" "pg_scan pg ds [r ''id''] = (vs, None)"
proof -
  from scan_row_Ok [OF assms(2)] obtain x xs where
    x: "a_rows q = x # xs" "a_end q = None" "pg_scan pg ds x = (vs, None)" by blast
  from assms(1) x(1,2) obtain rs where rs: "rows_where pg [v] (p_rel w) (t, k, Par 1) = Ok rs" "x \<in> (\<lambda>r. [r ''id'']) ` set rs"
    by (auto simp: query_id_def Let_def assms(3) split: option.splits fault.splits outcome.splits)
  then obtain r where "r \<in> set rs" "x = [r ''id'']" by blast
  with rs(1) x(3) show thesis
    by (intro that [of r]) (auto simp: rows_where_def table_rows_def split: option.splits)
qed

lemma scanned_user:
  assumes "run_stmt pg admin_user_sql [GStr email] s = (q, s')" "encodes_as_documented uuid pg" "scans_as_documented pg"
    "user_vars (scan_row pg [DString, DString, DBool] q) = Some (h, name, act)"
    "list_all (\<lambda>r. list_all2 fits [DString, DString, DBool] (map r [''password_hash'', ''name'', ''is_active''])) (tabs s ''users'')"
  shows "\<exists>r \<in> set (tabs s ''users''). r ''email'' = SText email \<and> r ''deleted_at'' = SNull \<and>
    go_of (r ''password_hash'') = GStr h \<and> go_of (r ''name'') = GStr name \<and> r ''is_active'' = SBool act"
proof -
  from assms(4) have sc: "scan_row pg [DString, DString, DBool] q = (Some [GStr h, GStr name, GBool act], None)"
    by (cases "scan_row pg [DString, DString, DBool] q" rule: user_vars.cases) auto
  have "admin_user_sql = ([PText], Select (map Col [''password_hash'', ''name'', ''is_active'']) ''users'' [Eq ''email'' (Par 1), IsNull ''deleted_at''] None None)"
    by (simp add: admin_user_sql_def)
  from selected_by_email [OF assms(1) [unfolded this] assms(2,3) sc assms(5)] obtain r where
    r: "r \<in> set (tabs s ''users'')" "r ''email'' = SText email \<and> r ''deleted_at'' = SNull \<and>
      map (\<lambda>c. go_of (r c)) [''password_hash'', ''name'', ''is_active''] = [GStr h, GStr name, GBool act]" by (rule bexE)
  have "go_of v = GBool b \<longleftrightarrow> v = SBool b" for v b by (cases v) auto
  with r(2) show ?thesis by (intro bexI [OF _ r(1)]) simp
qed

lemma inv_serial:
  assumes "goadmin_inv d" "r \<in> set (table_rows d t)" "map_of goadmin_schemas t = Some sch" "serial_id \<in> set (cols sch)"
  shows "\<exists>i. r ''id'' = SInt i \<and> 1 \<le> i \<and> i < seqs d t \<and> i \<le> max_serial"
proof -
  from assms(2) obtain sch' rows where t: "rel d t = Some (sch', rows)" "r \<in> set rows"
    by (cases "rel d t") (auto simp: table_rows_def)
  with assms show ?thesis by (fastforce simp: goadmin_inv_def serials_ok_def)
qed

end
