(* ===== verification/Admin_Progress.thy ===== *)
theory Admin_Progress
  imports Admin_Access
begin

text \<open>
  When the panel's statements do succeed: with tables that exist, serial numbers left and no
  failing connection, start-ups and logins go through. From this and the invariant: the
  panel's tables stay consistent, whoever logs in becomes administrator, active users are
  not kept out, and every start adds another menu entry.
\<close>

section \<open>Inserts that succeed\<close>

lemma collect_total: "(\<And>x. x \<in> set xs \<Longrightarrow> \<exists>v. x = Ok v) \<Longrightarrow> \<exists>vs. collect xs = Ok vs"
proof (induction xs)
  case (Cons x xs)
  obtain v where "x = Ok v" using Cons.prems [of x] by auto
  moreover obtain vs where "collect xs = Ok vs" using Cons.IH Cons.prems by auto
  ultimately show ?case by simp
qed simp

lemma unique_with_agree:
  "list_all2 (agree S) rows rows' \<Longrightarrow> set k \<inter> S = {} \<Longrightarrow> agree S r r' \<Longrightarrow> unique_with rows' k r' = unique_with rows k r"
proof (induction rule: list_all2_induct)
  case (Cons x xs y ys)
  have "c \<in> set k \<Longrightarrow> y c = x c \<and> r' c = r c" for c using Cons by (auto simp: agree_def)
  then have "unique_with [y] k r' = unique_with [x] k r" by (auto simp: unique_with_def list_all_iff)
  with Cons.IH [OF Cons.prems] show ?case by (simp add: unique_with_Cons [of y ys] unique_with_Cons [of x xs])
qed (simp add: unique_with_def)

lemma unique_rows_agree:
  "list_all2 (agree S) rows rows' \<Longrightarrow> set k \<inter> S = {} \<Longrightarrow> unique_rows k rows' = unique_rows k rows"
  by (induction rule: list_all2_induct) (simp_all add: unique_with_agree)

lemma insert_one_total:
  assumes keys: "keys_ok sch rows" "arbiters sch conf \<subseteq> set (keys sch)"
    and fresh: "\<And>k. k \<in> set (keys sch) \<Longrightarrow> k \<notin> arbiters sch conf \<Longrightarrow> unique_with rows k r"
    and untouched: "\<And>k. k \<in> set (keys sch) \<Longrightarrow> set k \<inter> conf_cols conf = {}"
    and upd: "\<And>k sets old. conf = Do_Update k sets \<Longrightarrow> \<exists>new. update_conflicting pg sch sets r old = Ok new"
  shows "\<exists>rows'. insert_one pg sch conf rows r = Ok rows'"
proof (cases conf)
  case (Do_Nothing k)
  with keys fresh show ?thesis by (cases k) (auto simp: insert_one_def Let_def list_all_iff)
next
  case (Do_Update k sets)
  let ?xs = "map (\<lambda>old. if same_key k r old then update_conflicting pg sch sets r old else Ok old) rows"
  have "\<exists>vs. collect ?xs = Ok vs" by (rule collect_total) (use upd [OF Do_Update] in auto)
  then obtain rows' where rows': "collect ?xs = Ok rows'" by blast
  have "list_all2 (agree (conf_cols conf)) rows rows'"
    using collect_OkD [OF rows'] by (auto simp: list_all2_map1 Do_Update elim!: list_all2_mono split: if_splits intro: update_conflicting_agree)
  from unique_rows_agree [OF this] untouched keys(1) have "list_all (\<lambda>k. unique_rows k rows') (keys sch)"
    by (auto simp: keys_ok_def list_all_iff)
  with keys(2) fresh rows' show ?thesis by (auto simp: insert_one_def Let_def Do_Update list_all_iff)
qed

text \<open>A fresh serial number is no other row's key.\<close>

lemma serial_fresh: "serials_ok q rows \<Longrightarrow> r ''id'' = SInt q \<Longrightarrow> unique_with rows [''id''] r"
  by (fastforce simp: serials_ok_def unique_with_def list_ex_iff)

lemma insert_row_total:
  assumes inv: "goadmin_inv d" and t: "rel d t = Some (sch, rows)" "serial_id \<in> set (cols sch)" "seqs d t \<le> max_serial"
    and g: "eval_sets pg vs (\<lambda>_. SNull) sets = Ok g" "''id'' \<notin> fst ` set sets" "complete_row pg sch (seqs d t) g = Ok r"
    and conf: "set (keys sch) \<subseteq> insert [''id''] (arbiters sch conf)" "arbiters sch conf \<subseteq> set (keys sch)"
      "\<And>k. k \<in> set (keys sch) \<Longrightarrow> set k \<inter> conf_cols conf = {}"
      "\<And>k sets old. conf = Do_Update k sets \<Longrightarrow> \<exists>new. update_conflicting pg sch sets r old = Ok new"
  shows "\<exists>d'. exec_rel pg vs (Insert_Row t sets conf) d = (None, d')"
proof -
  from inv t have ok: "keys_ok sch rows" "serials_ok (seqs d t) rows" "map_of goadmin_schemas t = Some sch" by (auto simp: goadmin_inv_def)
  have id_free: "''id'' \<notin> fst ` set g" using g(2) eval_sets_given [OF g(1)] by simp
  from serial_row [OF g(3) schemas_distinct [OF ok(3)] t(2) id_free _ t(3)] ok(2)
  have "r ''id'' = SInt (seqs d t)" by (simp add: serials_ok_def)
  with serial_fresh ok(2) have "unique_with rows [''id''] r" by blast
  then have "\<exists>rows'. insert_one pg sch conf rows r = Ok rows'"
    using conf by (intro insert_one_total [OF ok(1)]) auto
  then show ?thesis using t(1,3) g(1,3) by (auto simp: insert_into_def)
qed

lemma insert_pairs_total:
  assumes inv: "goadmin_inv d" and t: "links t = [(a, t1), (b, t2)]" "rel d t \<noteq> None" "rel d t1 \<noteq> None" "rel d t2 \<noteq> None"
    and e: "eval pg vs (\<lambda>_. SNull) e1 = Ok v1" "eval pg vs (\<lambda>_. SNull) e2 = Ok v2"
  shows "\<exists>d'. exec_rel pg vs (Insert_Pairs t (a, b) (t1, k1, e1) (t2, k2, e2) (Do_Nothing None)) d = (None, d')"
proof -
  obtain sch rows where r: "rel d t = Some (sch, rows)" using t(2) by auto
  with inv have "map_of goadmin_schemas t = Some sch" by (auto simp: goadmin_inv_def)
  from link_schema(1) [OF t(1) this] have sch: "sch = pair_schema a b" .
  obtain xs ys where xy: "rows_where pg vs d (t1, k1, e1) = Ok xs" "rows_where pg vs d (t2, k2, e2) = Ok ys"
    using t(3,4) e by (auto simp: rows_where_def)
  let ?gs = "concat (map (\<lambda>x. map (\<lambda>y. [(a, x ''id''), (b, y ''id'')]) ys) xs)"
  have small: "\<exists>i. v = SInt i \<and> 1 \<le> i \<and> i \<le> max_serial" if "v \<in> ids d t1 \<or> v \<in> ids d t2" for v
  proof -
    have "\<exists>sch'. map_of goadmin_schemas u = Some sch' \<and> serial_id \<in> set (cols sch')" if "u \<in> {t1, t2}" for u
      using t(1) that by (auto simp: links_def goadmin_schemas_def split: if_splits)
    then show ?thesis using that inv_serial [OF inv] by (fastforce simp: ids_def)
  qed
  have ab: "a \<noteq> b" "a \<notin> {''created_at'', ''updated_at''}" "b \<notin> {''created_at'', ''updated_at''}"
    using t(1) by (auto simp: links_def split: if_splits)
  have complete: "(\<exists>r. complete_row pg sch q g = Ok r) \<and> \<not> draws_serial sch g" if "g \<in> set ?gs" for g q
  proof -
    from that obtain x y where g: "x \<in> set xs" "y \<in> set ys" "g = [(a, x ''id''), (b, y ''id'')]" by auto
    then obtain i j where "x ''id'' = SInt i" "1 \<le> i" "i \<le> max_serial" "y ''id'' = SInt j" "1 \<le> j" "j \<le> max_serial"
      using small rows_where_ids [OF xy(1)] rows_where_ids [OF xy(2)] by metis
    with g(3) ab show ?thesis
      by (auto simp: sch complete_row_def pair_schema_def stamps_def column_value_def checked_def draws_serial_def max_serial_def)
  qed
  have "\<exists>rows' q'. insert_rows pg sch (Do_Nothing None) gs rows q = (Ok rows', q')" if "set gs \<subseteq> set ?gs" for gs rows q
    using that
  proof (induction gs arbitrary: rows q)
    case (Cons g gs)
    obtain r where c: "complete_row pg sch q g = Ok r" "\<not> draws_serial sch g" using complete [of g q] Cons.prems by auto
    have "\<exists>rows1. insert_one pg sch (Do_Nothing None) rows r = Ok rows1" by (auto simp: insert_one_def Let_def list_all_iff)
    then obtain rows1 where "insert_one pg sch (Do_Nothing None) rows r = Ok rows1" by blast
    with c Cons.IH [of rows1 q] Cons.prems show ?case by simp
  qed simp
  from this [of ?gs rows "seqs d t"] r xy show ?thesis by (auto simp: insert_into_def)
qed

section \<open>A login goes through\<close>

lemma exec_rel_exists:
  assumes "exec_rel pg vs st d = (err, d')" "rel d u \<noteq> None"
  shows "rel d' u \<noteq> None"
proof -
  have ins: "rel d' u \<noteq> None" if "insert_into pg t conf src d = (err, d')" for t conf src
    using that by (cases rule: insert_into_cases) (use assms(2) in auto)
  show ?thesis
  proof (cases st)
    case (Insert_Pairs t ab from1 from2 conf)
    with assms ins show ?thesis by (cases ab) auto
  qed (use assms ins in \<open>auto split: option.splits if_splits\<close>)
qed

lemma run_rel_clean:
  assumes "faults (p_db w) = []" "collect (map2 (pg_encode pg) (fst p) args) = Ok vs" "exec_rel pg vs (snd p) (p_rel w) = (err, d)"
  shows "run_rel pg p args w = (err, w\<lparr>p_rel := d\<rparr>)"
proof -
  have "w\<lparr>p_db := (p_db w)\<lparr>faults := []\<rparr>\<rparr> = w" using assms(1) by (cases w) (simp add: dbstate.splits)
  with assms show ?thesis by (cases err) (simp_all add: run_rel_def next_fault_def Let_def)
qed

definition ready :: "reldb \<Rightarrow> bool" where
  "ready d \<longleftrightarrow> list_all (\<lambda>t. rel d t \<noteq> None) [''goadmin_users'', ''goadmin_roles'', ''goadmin_permissions'', ''goadmin_role_users'', ''goadmin_role_permissions''] \<and>
     list_all (\<lambda>t. seqs d t \<le> max_serial) [''goadmin_users'', ''goadmin_roles'', ''goadmin_permissions'']"

lemma complete_row_total:
  assumes "list_all (\<lambda>(c, v). c \<in> set (map c_name (cols sch))) g" "list_all (\<lambda>c. \<exists>v. checked c (column_value pg q g c) = Ok v) (cols sch)"
  shows "\<exists>r. complete_row pg sch q g = Ok r"
proof -
  have "\<exists>vs. collect (map (\<lambda>c. bind_o (checked c (column_value pg q g c)) (\<lambda>v. Ok (c_name c, v))) (cols sch)) = Ok vs"
    by (rule collect_total) (use assms(2) in \<open>fastforce simp: list_all_iff\<close>)
  with assms(1) show ?thesis by (auto simp: complete_row_def)
qed

lemma checked_easy:
  "checked serial_id (SInt q) = Ok (SInt q) \<longleftrightarrow> - (2 ^ 31) \<le> q \<and> q \<le> max_serial"
  "checked (Column_Def c ty False df) SNull = Ok SNull"
  "checked (Column_Def c Timestamp_Local b df) (STime m) = Ok (STime m)"
  "checked (Column_Def c Unbounded b df) (SText x) = Ok (SText x)"
  by (auto simp: checked_def serial_id_def max_serial_def)

lemma inv_table:
  assumes "goadmin_inv d" "rel d t \<noteq> None" "map_of goadmin_schemas t = Some sch"
  obtains rows where "rel d t = Some (sch, rows)" "serial_id \<in> set (cols sch) \<Longrightarrow> 1 \<le> seqs d t"
  using assms by (fastforce simp: goadmin_inv_def serials_ok_def)

lemma serial_simps [simp]: "c_name serial_id = ''id''" "c_default serial_id = Serial"
  by (simp_all add: serial_id_def)

lemma checked_serial: "1 \<le> q \<Longrightarrow> q \<le> max_serial \<Longrightarrow> checked serial_id (SInt q) = Ok (SInt q)"
  by (simp add: checked_easy)

lemma checked_short: "length s \<le> n \<Longrightarrow> checked (Column_Def c (Varchar n) nn df) (SText s) = Ok (SText s)"
  using chars_le [of s] by (simp add: checked_text)

lemmas complete_simps = stamps_def checked_serial checked_easy(2-) column_value_def

lemma role_row:
  assumes "1 \<le> q" "q \<le> max_serial"
  shows "\<exists>r. complete_row pg roles_schema q [(''name'', SText ''Administrator''), (''slug'', SText ''administrator'')] = Ok r"
  using assms by (intro complete_row_total) (simp_all add: roles_schema_def complete_simps checked_short)

lemma permission_row:
  assumes "1 \<le> q" "q \<le> max_serial"
  shows "\<exists>r. complete_row pg permissions_schema q
    [(''name'', SText ''All permission''), (''slug'', SText ''*''), (''http_method'', SText []), (''http_path'', SText ''*'')] = Ok r"
  using assms by (intro complete_row_total) (simp_all add: permissions_schema_def complete_simps checked_short)

lemma user_row:
  assumes "1 \<le> q" "q \<le> max_serial" "chars email \<le> 190" "chars name \<le> 255" "chars h \<le> 255"
  shows "\<exists>r. complete_row pg users_schema q
    [(''username'', SText email), (''name'', SText name), (''password'', SText h), (''remember_token'', SText [])] = Ok r"
  using assms checked_short [of "[]" 100]
  by (intro complete_row_total) (simp_all add: users_schema_def complete_simps checked_text)

lemma role_total:
  assumes "goadmin_inv d" "rel d ''goadmin_roles'' \<noteq> None" "seqs d ''goadmin_roles'' \<le> max_serial"
  shows "\<exists>d'. exec_rel pg vs role_sql d = (None, d')"
proof -
  obtain rows where t: "rel d ''goadmin_roles'' = Some (roles_schema, rows)" "1 \<le> seqs d ''goadmin_roles''"
    using inv_table [OF assms(1,2)] by auto
  obtain r where r: "complete_row pg roles_schema (seqs d ''goadmin_roles'') [(''name'', SText ''Administrator''), (''slug'', SText ''administrator'')] = Ok r"
    using role_row [OF t(2) assms(3)] by blast
  show ?thesis
    unfolding role_sql_def
    by (rule insert_row_total [OF assms(1) t(1) _ assms(3) _ _ r]) (auto simp: eval_sets_def roles_schema_def)
qed

lemma permission_total:
  assumes "goadmin_inv d" "rel d ''goadmin_permissions'' \<noteq> None" "seqs d ''goadmin_permissions'' \<le> max_serial"
  shows "\<exists>d'. exec_rel pg vs permission_sql d = (None, d')"
proof -
  obtain rows where t: "rel d ''goadmin_permissions'' = Some (permissions_schema, rows)" "1 \<le> seqs d ''goadmin_permissions''"
    using inv_table [OF assms(1,2)] by auto
  obtain r where r: "complete_row pg permissions_schema (seqs d ''goadmin_permissions'')
      [(''name'', SText ''All permission''), (''slug'', SText ''*''), (''http_method'', SText []), (''http_path'', SText ''*'')] = Ok r"
    using permission_row [OF t(2) assms(3)] by blast
  show ?thesis
    unfolding permission_sql_def
    by (rule insert_row_total [OF assms(1) t(1) _ assms(3) _ _ r]) (auto simp: eval_sets_def permissions_schema_def)
qed

lemma user_total:
  assumes "goadmin_inv d" "rel d ''goadmin_users'' \<noteq> None" "seqs d ''goadmin_users'' \<le> max_serial"
    and short: "chars email \<le> 190" "chars name \<le> 255" "chars h \<le> 255"
  shows "\<exists>d'. exec_rel pg [SText email, SText name, SText h] principal_user_sql d = (None, d')"
proof -
  obtain rows where t: "rel d ''goadmin_users'' = Some (users_schema, rows)" "1 \<le> seqs d ''goadmin_users''"
    using inv_table [OF assms(1,2)] by auto
  obtain r where r: "complete_row pg users_schema (seqs d ''goadmin_users'')
      [(''username'', SText email), (''name'', SText name), (''password'', SText h), (''remember_token'', SText [])] = Ok r"
    using user_row [OF t(2) assms(3) short] by blast
  have dist: "distinct (map c_name (cols users_schema))" using schemas_distinct [OF schema_of(1)] .
  have vals: "r ''name'' = SText name" "r ''password'' = SText h"
    using complete_row_value [OF r dist, of "Column_Def ''name'' (Varchar 255) True No_Default"]
      complete_row_value [OF r dist, of "Column_Def ''password'' (Varchar 255) True No_Default"] short
    by (auto simp: users_schema_def column_value_def checked_text)
  have "\<exists>new. update_conflicting pg users_schema
      [(''name'', Excluded ''name''), (''password'', Excluded ''password''), (''updated_at'', Current_Time)] r old = Ok new" for old
    using short by (simp add: update_conflicting_def users_schema_def stamps_def vals checked_text checked_easy)
  then show ?thesis
    unfolding principal_user_sql_def
    by (intro insert_row_total [OF assms(1) t(1) _ assms(3) _ _ r]) (auto simp: eval_sets_def users_schema_def)
qed

lemma principal_total:
  assumes inv: "goadmin_inv (p_rel w)" and rdy: "ready (p_rel w)" and clean: "faults (p_db w) = []"
    and enc: "\<And>x. pg_encode pg PText (GStr x) = Ok (SText x)" and short: "chars email \<le> 190" "chars name \<le> 255" "chars h \<le> 255"
  shows "\<exists>d. ensureGoAdminPrincipal pg email name h w = (None, w\<lparr>p_rel := d\<rparr>) \<and> goadmin_inv d \<and>
    (\<exists>u \<in> set (table_rows d ''goadmin_users''). u ''username'' = SText email)"
proof -
  note safe = statements_safe(2) [unfolded principal_statements_def, simplified]
  let ?d = "p_rel w"
  obtain d1 where e0: "exec_rel pg [SText email, SText name, SText h] principal_user_sql ?d = (None, d1)"
    using user_total [OF inv _ _ short, of pg] rdy by (auto simp: ready_def)
  have i1: "goadmin_inv d1" using exec_rel_inv [OF _ inv e0] safe by simp
  have o1: "rel d1 t = rel ?d t" "seqs d1 t = seqs ?d t" if "t \<noteq> ''goadmin_users''" for t
    using exec_rel_other [OF e0, of t] that by (simp_all add: principal_user_sql_def)
  obtain d2 where e1: "exec_rel pg [] role_sql d1 = (None, d2)"
    using role_total [OF i1, of pg "[]"] rdy o1 by (auto simp: ready_def)
  have i2: "goadmin_inv d2" using exec_rel_inv [OF _ i1 e1] safe by simp
  have o2: "rel d2 t = rel d1 t" "seqs d2 t = seqs d1 t" if "t \<noteq> ''goadmin_roles''" for t
    using exec_rel_other [OF e1, of t] that by (simp_all add: role_sql_def)
  obtain d3 where e2: "exec_rel pg [] permission_sql d2 = (None, d3)"
    using permission_total [OF i2, of pg "[]"] rdy o1 o2 by (auto simp: ready_def)
  have i3: "goadmin_inv d3" using exec_rel_inv [OF _ i2 e2] safe by simp
  have o3: "rel d3 t = rel d2 t" if "t \<noteq> ''goadmin_permissions''" for t
    using exec_rel_other [OF e2, of t] that by (simp add: permission_sql_def)
  have there: "rel d3 t \<noteq> None" if "rel ?d t \<noteq> None" for t
    using exec_rel_exists [OF e2 exec_rel_exists [OF e1 exec_rel_exists [OF e0 that]]] .
  obtain d4 where e3: "exec_rel pg [SText email] role_users_sql d3 = (None, d4)"
    using insert_pairs_total [OF i3, of "''goadmin_role_users''"] there rdy
    by (fastforce simp: role_users_sql_def ready_def links_def)
  have i4: "goadmin_inv d4" using exec_rel_inv [OF _ i3 e3] safe by simp
  have o4: "rel d4 t = rel d3 t" if "t \<noteq> ''goadmin_role_users''" for t
    using exec_rel_other [OF e3, of t] that by (simp add: role_users_sql_def)
  obtain d5 where e4: "exec_rel pg [] role_permissions_sql d4 = (None, d5)"
    using insert_pairs_total [OF i4, of "''goadmin_role_permissions''"] exec_rel_exists [OF e3] there rdy
    by (fastforce simp: role_permissions_sql_def ready_def links_def)
  have "rel d5 ''goadmin_users'' = rel d1 ''goadmin_users''"
    using exec_rel_other(1) [OF e4, of "''goadmin_users''"] by (simp add: o4 o3 o2 role_permissions_sql_def)
  moreover have "\<exists>u \<in> set (table_rows d1 ''goadmin_users''). u ''username'' = SText email"
    by (rule insert_row_success [OF e0 [unfolded principal_user_sql_def] inv schema_of(1), of "''username''" 190 True No_Default "Par 1"])
      (use short in \<open>auto simp: users_schema_def\<close>)
  ultimately have "\<exists>u \<in> set (table_rows d5 ''goadmin_users''). u ''username'' = SText email" by (simp add: table_rows_def)
  moreover have "goadmin_inv d5" using exec_rel_inv [OF _ i4 e4] safe by simp
  moreover have "ensureGoAdminPrincipal pg email name h w = (None, w\<lparr>p_rel := d5\<rparr>)"
    using clean enc e0 e1 e2 e3 e4 by (simp add: ensureGoAdminPrincipal_def principal_statements_def principal_args_def run_rel_clean)
  ultimately show ?thesis by blast
qed

lemma login_succeeds:
  assumes inv: "goadmin_inv (p_rel w)" and rdy: "ready (p_rel w)" and clean: "faults (p_db w) = []"
    and docs: "encodes_as_documented uuid pg" "scans_as_documented pg"
    and email: "TrimSpace (ToLower tbl username) = email" "email \<noteq> []" "password \<noteq> []"
    and user: "filter (\<lambda>r. r ''email'' = SText email \<and> r ''deleted_at'' = SNull) (tabs (p_db w) ''users'') = r # rs"
      "r ''password_hash'' = SText h" "r ''name'' = SText name" "r ''is_active'' = SBool True" "pw_ok h password"
    and short: "chars email \<le> 190" "chars name \<le> 255" "chars h \<le> 255"
  shows "\<exists>i. fst (BackendAuthProcessor pg tbl pw_ok username password w) = (\<lparr>um_Id = i, um_UserName = email, um_Name = name\<rparr>, True, [])"
proof -
  let ?cols = "[''password_hash'', ''name'', ''is_active'']"
  have enc: "pg_encode pg PText (GStr x) = Ok (SText x)" for x using documented_encode(1) [OF docs(1)] .
  have "holds_all pg [SText email] [Eq ''email'' (Par 1), IsNull ''deleted_at''] = (\<lambda>r. r ''email'' = SText email \<and> r ''deleted_at'' = SNull)"
    by (auto simp: holds_all_def fun_eq_iff)
  with user(1) project_cols [of pg "[SText email]" ?cols]
  have ex: "exec pg [SText email] (snd admin_user_sql) (tabs (p_db w)) = Ok (map (\<lambda>r. map r ?cols) (r # rs), tabs (p_db w))"
    by (simp add: admin_user_sql_def del: One_nat_def)
  have q: "run_stmt pg admin_user_sql [GStr email] (p_db w) =
      (\<lparr>a_err = None, a_rows = map (\<lambda>r. map r ?cols) (r # rs), a_end = None\<rparr>, (p_db w)\<lparr>faults := tl (faults (p_db w)), tabs := tabs (p_db w)\<rparr>)"
    by (rule run_stmt_clean [OF _ _ ex]) (simp_all add: next_fault_def clean admin_user_sql_def enc)
  have same: "w\<lparr>p_db := (p_db w)\<lparr>faults := tl (faults (p_db w)), tabs := tabs (p_db w)\<rparr>\<rparr> = w" using clean by simp
  have vars: "user_vars (scan_row pg [DString, DString, DBool] \<lparr>a_err = None, a_rows = map (\<lambda>r. map r ?cols) (r # rs), a_end = None\<rparr>) = Some (h, name, True)"
    using documented_scan [OF docs(2), of "[DString, DString, DBool]" "map r ?cols"] user(2-4) by (simp add: scan_row_def)
  obtain d u where d: "ensureGoAdminPrincipal pg email name h w = (None, w\<lparr>p_rel := d\<rparr>)" "goadmin_inv d"
    "u \<in> set (table_rows d ''goadmin_users'')" "u ''username'' = SText email" using principal_total [OF inv rdy clean enc short] by blast
  let ?us = "filter (\<lambda>r. r ''username'' = SText email) (table_rows d ''goadmin_users'')"
  obtain u1 us where us: "?us = u1 # us" using d(3,4) by (cases ?us) (auto simp: filter_empty_conv)
  then have "u1 \<in> set ?us" by simp
  then obtain i where i: "u1 ''id'' = SInt i" using inv_serial [OF d(2), of u1 "''goadmin_users''"] by auto
  have "rows_where pg [SText email] d (''goadmin_users'', ''username'', Par 1) = Ok ?us"
    using d(3) by (cases "rel d ''goadmin_users''") (auto simp: rows_where_def table_rows_def intro!: filter_cong)
  then have q2: "query_id pg ''goadmin_users'' ''username'' (GStr email) (w\<lparr>p_rel := d\<rparr>) =
      (\<lparr>a_err = None, a_rows = map (\<lambda>r. [r ''id'']) ?us, a_end = None\<rparr>, w\<lparr>p_rel := d\<rparr>)"
    using clean by (simp add: query_id_def next_fault_def enc del: One_nat_def)
  have "id_var (scan_row pg [DInt] \<lparr>a_err = None, a_rows = map (\<lambda>r. [r ''id'']) ?us, a_end = None\<rparr>) = Some i"
    using documented_scan [OF docs(2), of "[DInt]" "[SInt i]"] i us by (simp add: scan_row_def)
  with email user(5) q same vars d(1) q2 show ?thesis by (simp add: BackendAuthProcessor_def Let_def)
qed

section \<open>Starts\<close>

lemma insert_rows_seq_le: "insert_rows pg sch conf gs rows q = (out, q') \<Longrightarrow> q' \<le> q + int (length gs)"
proof (induction gs arbitrary: rows q)
  case (Cons g gs)
  then show ?case by (auto simp: Let_def split: if_splits outcome.splits) fastforce+
qed simp

lemma exec_rel_seq:
  assumes "exec_rel pg vs st d = (err, d')" "safe_stmt st" "links t = []"
  shows "seqs d' t \<le> max 1 (seqs d t) + 1"
proof (cases "t = stmt_table st")
  case True
  show ?thesis
  proof (cases st)
    case (Insert_Row u sets conf)
    with assms(1) True show ?thesis
      using insert_rows_seq_le [of pg _ conf "[_]" _ "seqs d t"]
      by (fastforce simp: insert_into_def elim!: bind_o_OkE split: option.splits outcome.splits prod.splits)
  next
    case (Insert_Pairs u ab from1 from2 conf)
    with assms(2,3) True show ?thesis by (cases ab; cases from1; cases from2) auto
  qed (use assms True in \<open>auto split: option.splits\<close>)
qed (use exec_rel_other(2) [OF assms(1)] in simp)

definition run_all :: "pg \<Rightarrow> relstmt list \<Rightarrow> panel \<Rightarrow> panel" where
  "run_all pg sts w = foldl (\<lambda>w stmt. snd (run_rel pg ([], stmt) [] w)) w sts"

lemma run_all_simps [simp]:
  "run_all pg [] w = w" "run_all pg (st # sts) w = run_all pg sts (snd (run_rel pg ([], st) [] w))"
  "run_all pg (sts1 @ sts2) w = run_all pg sts2 (run_all pg sts1 w)"
  by (simp_all add: run_all_def)

lemma run_clean:
  "faults (p_db w) = [] \<Longrightarrow> snd (run_rel pg ([], st) [] w) = w\<lparr>p_rel := snd (exec_rel pg [] st (p_rel w))\<rparr>"
  using run_rel_clean [of w pg "([], st)" "[]" "[]" "fst (exec_rel pg [] st (p_rel w))" "snd (exec_rel pg [] st (p_rel w))"] by simp

lemma run_all_invariant:
  assumes "faults (p_db w) = []" "P (p_rel w)" "\<And>st d. st \<in> set sts \<Longrightarrow> P d \<Longrightarrow> P (snd (exec_rel pg [] st d))"
  shows "faults (p_db (run_all pg sts w)) = [] \<and> P (p_rel (run_all pg sts w))"
  using assms by (induction sts arbitrary: w) (simp_all add: run_clean)

lemma run_all_creates:
  assumes "faults (p_db w) = []" "Create_Table t sch \<in> set sts \<or> rel (p_rel w) t \<noteq> None"
  shows "rel (p_rel (run_all pg sts w)) t \<noteq> None"
  using assms
proof (induction sts arbitrary: w)
  case (Cons st sts)
  have "rel (snd (exec_rel pg [] st (p_rel w))) t \<noteq> None" if "st = Create_Table t sch \<or> rel (p_rel w) t \<noteq> None"
    using that exec_rel_exists [of pg "[]" st "p_rel w" _ _ t] by (auto split: option.splits simp: prod_eq_iff)
  with Cons show ?case by (auto simp: run_clean)
qed simp

lemma run_all_seq:
  assumes "faults (p_db w) = []" "list_all safe_stmt sts" "links t = []"
  shows "seqs (p_rel (run_all pg sts w)) t \<le> max 1 (seqs (p_rel w) t) + int (length sts)"
  using assms(1,2)
proof (induction sts arbitrary: w)
  case (Cons st sts)
  let ?w = "w\<lparr>p_rel := snd (exec_rel pg [] st (p_rel w))\<rparr>"
  have "seqs (p_rel (run_all pg sts ?w)) t \<le> max 1 (seqs (p_rel ?w) t) + int (length sts)"
    using Cons.IH [of ?w] Cons.prems by simp
  moreover have "seqs (p_rel ?w) t \<le> max 1 (seqs (p_rel w) t) + 1"
    using exec_rel_seq [of pg "[]" st "p_rel w" _ _ t] Cons.prems(2) assms(3) by (cases "exec_rel pg [] st (p_rel w)") fastforce
  ultimately show ?case using Cons.prems by (simp add: run_clean)
qed simp

lemma start_run_all: "ensureGoAdminTables pg w = run_all pg bootstrap_statements w"
  by (simp add: ensureGoAdminTables_def run_all_def)

lemma start_ready:
  assumes "faults (p_db w) = []" "\<And>t. seqs (p_rel w) t \<le> max_serial - 16"
  shows "ready (p_rel (ensureGoAdminTables pg w))"
proof -
  have len: "length bootstrap_statements = 16" by (simp add: bootstrap_statements_def goadmin_schemas_def)
  have "rel (p_rel (ensureGoAdminTables pg w)) t \<noteq> None" if "map_of goadmin_schemas t = Some sch" for t sch
    unfolding start_run_all using map_of_SomeD [OF that]
    by (intro run_all_creates [OF assms(1)]) (force simp: bootstrap_statements_def)
  moreover have "seqs (p_rel (ensureGoAdminTables pg w)) t \<le> max_serial" if "links t = []" for t
    using run_all_seq [OF assms(1) statements_safe(1) that, of pg] assms(2) [of t] by (simp add: start_run_all len max_serial_def)
  ultimately show ?thesis by (auto simp: ready_def links_def)
qed

section \<open>Consistency\<close>

definition sample_user :: row where
  "sample_user = (\<lambda>_. SNull)(''email'' := SText ''ann@fleet.org'', ''password_hash'' := SText ''pw'', ''name'' := SText ''Ann'',
     ''role'' := SText ''driver'', ''is_active'' := SBool True)"

definition sample_panel :: panel where
  "sample_panel = ensureGoAdminTables sample_pg (new_panel \<lparr>tabs = (\<lambda>t. if t = ''users'' then [sample_user] else []), faults = []\<rparr>)"

lemma sample_panel_facts:
  "panel_reachable sample_panel" "ready (p_rel sample_panel)" "faults (p_db sample_panel) = []" "tabs (p_db sample_panel) ''users'' = [sample_user]"
proof -
  let ?w = "new_panel \<lparr>tabs = (\<lambda>t. if t = ''users'' then [sample_user] else []), faults = []\<rparr>"
  show "panel_reachable sample_panel"
    unfolding panel_reachable_def sample_panel_def by (blast intro: panel_step.start)
  show "ready (p_rel sample_panel)"
    unfolding sample_panel_def by (rule start_ready) (simp_all add: new_panel_def max_serial_def)
  have "p_db (run_all pg sts w) = p_db w" if "faults (p_db w) = []" for pg sts w
    using that by (induction sts arbitrary: w) (simp_all add: run_clean)
  then show "faults (p_db sample_panel) = []" "tabs (p_db sample_panel) ''users'' = [sample_user]"
    by (simp_all add: sample_panel_def start_run_all new_panel_def)
qed

text \<open>
  C14: the panel's tables stay consistent through any sequence of starts and logins, whatever
  statements fail and wherever they break off: every table has the schema it was created
  with, its primary and unique keys hold, serial numbers are below the next one, and every
  role assignment, role permission and role menu entry leads to existing rows, although
  the schema declares no foreign keys.
\<close>

theorem panel_tables_consistent:
  assumes "panel_reachable w" "rel (p_rel w) t = Some (sch, rows)"
  shows "map_of goadmin_schemas t = Some sch \<and> keys_ok sch rows \<and>
    (serial_id \<in> set (cols sch) \<longrightarrow> (\<forall>r \<in> set rows. \<exists>i. r ''id'' = SInt i \<and> 1 \<le> i \<and> i < seqs (p_rel w) t \<and> i \<le> max_serial)) \<and>
    (\<forall>(c, t') \<in> set (links t). \<forall>r \<in> set rows. r c \<in> ids (p_rel w) t')"
  using reachable_inv [OF assms(1)] assms(2) unfolding goadmin_inv_def serials_ok_def by blast

theorem panel_tables_consistent_witness:
  "\<exists>rows. rel (p_rel sample_panel) ''goadmin_roles'' = Some (roles_schema, rows) \<and> keys_ok roles_schema rows"
proof -
  obtain sch rows where t: "rel (p_rel sample_panel) ''goadmin_roles'' = Some (sch, rows)"
    using sample_panel_facts(2) by (auto simp: ready_def)
  from panel_tables_consistent [OF sample_panel_facts(1) t] t show ?thesis by auto
qed

section \<open>What a login grants\<close>

text \<open>
  C15: whoever logs in to the admin panel becomes its administrator: in every reachable state
  an accepted login belongs to a user of the platform with that e-mail address who is
  active and whose password matches, of whatever tenant and role, and afterwards the
  panel's user of that name, whose number the login returns, holds the role
  \<open>administrator\<close>, and that role the permission for everything. The rows of the users table
  have to be of the types the migrations declare.
\<close>

theorem admin_login_grants_all:
  assumes "panel_reachable w" "encodes_as_documented uuid pg" "scans_as_documented pg"
    and ok: "BackendAuthProcessor pg tbl pw_ok username password w = ((model, True, msg), w')"
    and typed: "list_all (\<lambda>r. list_all2 fits [DString, DString, DBool] (map r [''password_hash'', ''name'', ''is_active''])) (tabs (p_db w) ''users'')"
  shows "(\<exists>r \<in> set (tabs (p_db w) ''users''). r ''email'' = SText (um_UserName model) \<and> r ''deleted_at'' = SNull \<and> r ''is_active'' = SBool True \<and>
      (\<exists>h. go_of (r ''password_hash'') = GStr h \<and> pw_ok h password)) \<and>
    (\<exists>g \<in> set (table_rows (p_rel w') ''goadmin_users''). g ''username'' = SText (um_UserName model) \<and> g ''id'' = SInt (um_Id model)) \<and>
    is_administrator (p_rel w') (um_Id model)"
proof (cases rule: login_cases [of pg tbl pw_ok username password w])
  case (verified h name q db out w2)
  let ?e = "TrimSpace (ToLower tbl username)"
  from verified(6) ok obtain q2 w3 i where out: "out = None" and q2: "query_id pg ''goadmin_users'' ''username'' (GStr ?e) w2 = (q2, w3)"
    and i: "id_var (scan_row pg [DInt] q2) = Some i" and m: "model = \<lparr>um_Id = i, um_UserName = ?e, um_Name = name\<rparr>" by auto
  have enc: "pg_encode pg PText (GStr ?e) = Ok (SText ?e)" using documented_encode(1) [OF assms(2)] .
  have inv: "goadmin_inv (p_rel (w\<lparr>p_db := db\<rparr>))" using reachable_inv [OF assms(1)] by simp
  have inv2: "goadmin_inv (p_rel w2)" using principal_inv [OF inv] verified(4) by (metis snd_conv)
  have rel: "p_rel w' = p_rel w2" using verified(5) ok by simp
  from i have "scan_row pg [DInt] q2 = (Some [GInt i], None)" by (cases "scan_row pg [DInt] q2" rule: id_var.cases) auto
  from query_id_Ok [OF q2 this enc] obtain g where g: "g \<in> set (table_rows (p_rel w2) ''goadmin_users'')" "g ''username'' = SText ?e"
    "pg_scan pg [DInt] [g ''id''] = ([GInt i], None)" by blast
  from inv_serial [OF inv2 g(1)] obtain j where "g ''id'' = SInt j" by auto
  with g(3) documented_scan [OF assms(3), of "[DInt]" "[SInt j]"] have gid: "g ''id'' = SInt i" by simp
  have "is_administrator (p_rel w2) i" using principal_success [OF inv verified(4) [unfolded out] enc g(1,2) gid] .
  with scanned_user [OF verified(1) assms(2,3) verified(2) typed] verified(3) g(1,2) gid show ?thesis by (auto simp: m rel)
qed (use ok in simp)

lemma sample_email: "TrimSpace (ToLower (\<lambda>r. r) ''Ann@Fleet.org'') = ''ann@fleet.org''"
proof -
  have "ToLower (\<lambda>r. r) ''Ann@Fleet.org'' = ''ann@fleet.org''" by code_simp
  then show ?thesis by (simp add: TrimSpace_plain plain_char_def)
qed

lemma sample_login:
  obtains i where "fst (BackendAuthProcessor sample_pg (\<lambda>r. r) (\<lambda>h p. h = p) ''Ann@Fleet.org'' ''pw'' sample_panel) =
    (\<lparr>um_Id = i, um_UserName = ''ann@fleet.org'', um_Name = ''Ann''\<rparr>, True, [])"
proof -
  have "chars ''ann@fleet.org'' \<le> 190" "chars ''Ann'' \<le> 255" "chars ''pw'' \<le> 255"
    using chars_le [of "''ann@fleet.org''"] chars_le [of "''Ann''"] chars_le [of "''pw''"] by simp_all
  with login_succeeds [OF reachable_inv [OF sample_panel_facts(1)] sample_panel_facts(2,3) sample_pg_encodes sample_pg_scans sample_email,
      of "''pw''" sample_user "[]" "''pw''" "''Ann''" "\<lambda>h p. h = p"] that
  show thesis by (auto simp: sample_panel_facts(4) sample_user_def)
qed

theorem admin_login_grants_all_witness:
  "\<exists>i. is_administrator (p_rel (snd (BackendAuthProcessor sample_pg (\<lambda>r. r) (\<lambda>h p. h = p) ''Ann@Fleet.org'' ''pw'' sample_panel))) i \<and>
     sample_user ''role'' = SText ''driver''"
proof -
  let ?R = "BackendAuthProcessor sample_pg (\<lambda>r. r) (\<lambda>h p. h = p) ''Ann@Fleet.org'' ''pw'' sample_panel"
  obtain i where i: "fst ?R = (\<lparr>um_Id = i, um_UserName = ''ann@fleet.org'', um_Name = ''Ann''\<rparr>, True, [])" by (rule sample_login)
  then have ok: "?R = ((\<lparr>um_Id = i, um_UserName = ''ann@fleet.org'', um_Name = ''Ann''\<rparr>, True, []), snd ?R)" by (metis prod.collapse)
  have typed: "list_all (\<lambda>r. list_all2 fits [DString, DString, DBool] (map r [''password_hash'', ''name'', ''is_active'']))
      (tabs (p_db sample_panel) ''users'')" by (simp add: sample_panel_facts(4) sample_user_def)
  from admin_login_grants_all [OF sample_panel_facts(1) sample_pg_encodes sample_pg_scans ok typed]
  have "is_administrator (p_rel (snd ?R)) i" by simp
  then show ?thesis by (auto simp: sample_user_def)
qed



section \<open>The menu\<close>

lemma menu_row:
  assumes "1 \<le> q" "q \<le> max_serial"
  shows "\<exists>r. complete_row pg menu_schema q
    [(''parent_id'', SInt 0), (''type'', SInt 1), (''order'', SInt 1), (''title'', SText ''Dashboard''), (''icon'', SText ''fa-bar-chart''),
     (''uri'', SText ''/''), (''header'', SText []), (''plugin_name'', SText []), (''uuid'', SText [])] = Ok r"
proof -
  have ints: "checked (Column_Def c Bigint False df) (SInt 0) = Ok (SInt 0)" "checked (Column_Def c Integer False df) (SInt 1) = Ok (SInt 1)" for c df
    by (simp_all add: checked_def)
  show ?thesis
    using assms by (intro complete_row_total) (simp_all add: menu_schema_def complete_simps checked_short ints)
qed

lemma menu_grows:
  assumes "goadmin_inv d" "rel d ''goadmin_menu'' \<noteq> None" "seqs d ''goadmin_menu'' \<le> max_serial"
  shows "length (table_rows (snd (exec_rel pg [] menu_sql d)) ''goadmin_menu'') = Suc (length (table_rows d ''goadmin_menu''))"
proof -
  let ?q = "seqs d ''goadmin_menu''"
  obtain rows where t: "rel d ''goadmin_menu'' = Some (menu_schema, rows)" "1 \<le> ?q" using inv_table [OF assms(1,2)] by auto
  obtain g r where g: "eval_sets pg [] (\<lambda>_. SNull) (case menu_sql of Insert_Row u sets conf \<Rightarrow> sets) = Ok g" "complete_row pg menu_schema ?q g = Ok r"
    "''id'' \<notin> fst ` set g"
    using menu_row [OF t(2) assms(3), of pg] by (auto simp: menu_sql_def eval_sets_def)
  from assms(1) t(1) have "serials_ok ?q rows" by (auto simp: goadmin_inv_def)
  moreover have "r ''id'' = SInt ?q"
    using serial_row [OF g(2) schemas_distinct [OF schema_of(4)] serial_schemas(4) g(3) t(2) assms(3)] .
  ultimately have "unique_with rows [''id''] r" by (rule serial_fresh)
  then have "insert_one pg menu_schema (Do_Nothing None) rows r = Ok (rows @ [r])" by (simp add: insert_one_def menu_schema_def)
  with g t assms(3) show ?thesis by (simp add: menu_sql_def insert_into_def table_rows_def)
qed

text \<open>
  Every start of the service adds another \<open>Dashboard\<close> entry to the panel's menu: its
  statement ignores conflicts, but the table's only key is its serial number, so there is
  never one. In every reachable state with a working database a start makes the menu
  exactly one entry longer.
\<close>

lemma every_start_adds_menu_entry:
  assumes "panel_reachable w" "faults (p_db w) = []" "seqs (p_rel w) ''goadmin_menu'' \<le> max_serial"
  shows "length (table_rows (p_rel (ensureGoAdminTables pg w)) ''goadmin_menu'') = Suc (length (table_rows (p_rel w) ''goadmin_menu''))"
proof -
  let ?t = "''goadmin_menu''" and ?pre = "map (\<lambda>(t, sch). Create_Table t sch) goadmin_schemas @ [role_sql, permission_sql]"
  let ?P = "\<lambda>d. goadmin_inv d \<and> seqs d ?t \<le> max_serial \<and> length (table_rows d ?t) = length (table_rows (p_rel w) ?t)"
  let ?Q = "\<lambda>d. length (table_rows d ?t) = Suc (length (table_rows (p_rel w) ?t))"
  have boot: "bootstrap_statements = ?pre @ menu_sql # [role_permissions_sql, role_menu_sql]" by (simp add: bootstrap_statements_def)
  have frame: "table_rows (snd (exec_rel pg [] st d)) ?t = table_rows d ?t \<and> (seqs d ?t \<le> max_serial \<longrightarrow> seqs (snd (exec_rel pg [] st d)) ?t \<le> max_serial)"
    if "st \<noteq> menu_sql" "st \<in> set bootstrap_statements" for st d
  proof (cases "stmt_table st = ?t")
    case True
    with that obtain sch where "st = Create_Table ?t sch"
      by (auto simp: bootstrap_statements_def role_sql_def permission_sql_def role_permissions_sql_def role_menu_sql_def)
    then show ?thesis by (auto simp: table_rows_def max_serial_def split: option.splits)
  next
    case False
    then show ?thesis using exec_rel_other [of pg "[]" st d _ _ ?t] by (simp add: table_rows_def prod_eq_iff)
  qed
  have other: "role_sql \<noteq> menu_sql" "permission_sql \<noteq> menu_sql" "role_permissions_sql \<noteq> menu_sql" "role_menu_sql \<noteq> menu_sql"
    by (simp_all add: role_sql_def permission_sql_def menu_sql_def role_permissions_sql_def role_menu_sql_def)
  define w1 where "w1 = run_all pg ?pre w"
  have pre: "?P (snd (exec_rel pg [] st d))" if "st \<in> set ?pre" "?P d" for st d
  proof -
    have "st \<in> set bootstrap_statements" "st \<noteq> menu_sql" using that(1) other by (auto simp: bootstrap_statements_def menu_sql_def)
    with that(2) frame [of st d] exec_rel_inv [of st d] statements_safe(1) show ?thesis by (auto simp: list_all_iff prod_eq_iff)
  qed
  have w1: "faults (p_db w1) = []" "?P (p_rel w1)"
    using run_all_invariant [of w ?P ?pre pg] assms reachable_inv [OF assms(1)] pre unfolding w1_def by blast+
  have "rel (p_rel w1) ?t \<noteq> None"
    unfolding w1_def by (rule run_all_creates [OF assms(2), of _ menu_schema]) (use map_of_SomeD [OF schema_of(4)] in force)
  then have "?Q (snd (exec_rel pg [] menu_sql (p_rel w1)))" using menu_grows w1(2) by simp
  then have "?Q (p_rel (run_all pg [role_permissions_sql, role_menu_sql] (snd (run_rel pg ([], menu_sql) [] w1))))"
    using frame [OF other(3)] frame [OF other(4)] w1(1) by (simp add: run_clean bootstrap_statements_def)
  then show ?thesis by (simp add: start_run_all boot w1_def)
qed

lemma every_start_adds_menu_entry_witness:
  "length (table_rows (p_rel (ensureGoAdminTables sample_pg (new_panel \<lparr>tabs = (\<lambda>_. []), faults = []\<rparr>))) ''goadmin_menu'') = 1"
proof -
  let ?w = "new_panel \<lparr>tabs = (\<lambda>_. []), faults = []\<rparr>"
  have "panel_reachable ?w" unfolding panel_reachable_def by blast
  from every_start_adds_menu_entry [OF this, of sample_pg] show ?thesis
    by (simp add: new_panel_def max_serial_def table_rows_def)
qed

end
