(* ===== verification/Sample_Injector.thy ===== *)
theory Sample_Injector
  imports Startup
begin

text \<open>
  The tool \<open>stream-processor/cmd/injectsample\<close>, which publishes one made-up record for a
  device: its options as the \<open>flag\<close> package leaves them, the record, and how it ends. A run
  leaves the broker as one record from the device itself would.
\<close>

section \<open>The tool\<close>

record inject_flags =
  f_device :: string
  f_lat :: f64
  f_lng :: f64
  f_speed :: "64 word"

definition default_flags :: inject_flags where
  "default_flags = \<lparr>f_device = [], f_lat = mk_f64 (377749 / 10000), f_lng = mk_f64 (- 1224194 / 10000), f_speed = 45\<rparr>"

definition inject_record :: "int \<Rightarrow> inject_flags \<Rightarrow> ParsedRecord" where
  "inject_record ts fl =
     \<lparr>DeviceID = f_device fl, Timestamp = ts, Lat = f_lat fl, Lng = f_lng fl, Altitude = 10, Speed = ucast (f_speed fl),
      Heading = 90, Satellites = 8, Valid = True, Priority = 0, IOData = [239 \<mapsto> 1, 240 \<mapsto> 1], RawCodec = 8\<rparr>"

text \<open>Every ending but the last is \<open>os.Exit(1)\<close> after a message.\<close>

datatype inject_end = No_Device | Not_Marshalled | No_Broker goerr | Not_Published goerr | Published

definition inject_main ::
  "(string \<Rightarrow> string) \<Rightarrow> inject_flags \<Rightarrow> int \<Rightarrow> (ParsedRecord \<Rightarrow> bytes option) \<Rightarrow> (string \<Rightarrow> goerr option) \<Rightarrow> goerr option \<Rightarrow>
   (StreamConfig \<Rightarrow> 's \<Rightarrow> goerr option \<times> 's) \<Rightarrow> 's js_publish \<Rightarrow> 's \<Rightarrow> inject_end \<times> 's" where
  "inject_main env fl now marshal nats_err js_err create js s =
     (if f_device fl = [] then (No_Device, s)
      else let rec = inject_record now fl in
        (case marshal rec of
           None \<Rightarrow> (Not_Marshalled, s)
         | Some data \<Rightarrow>
             (case nats_New (nats_err (envStr env ''NATS_URL'' ''nats://127.0.0.1:4222'')) js_err create s of
                (Some err, cl, s1) \<Rightarrow> (No_Broker err, s1)
              | (None, cl, s1) \<Rightarrow>
                  (case nats_Publish js SubjectRawAVL (record_msgID (DeviceID rec) rec) data s1 of
                     (Err err, s2) \<Rightarrow> (Not_Published err, s2)
                   | (r, s2) \<Rightarrow> (Published, s2)))))"

section \<open>The record on its way\<close>

lemma nats_New_None: "nats_New c j create s = (None, cl, s') \<Longrightarrow> ensureStreams create s = (None, s')"
  by (auto simp: nats_New_def split: option.splits prod.splits)

text \<open>Only the ignition and the movement flag are derived from the two elements.\<close>

lemma enrich_injected:
  "enrichIOFields (initial_record now t (inject_record ts fl)) =
     (initial_record now t (inject_record ts fl))\<lparr>er_Ignition := True, er_Movement := True\<rparr>"
  by (simp add: enrichIOFields_def on_io_def initial_record_def inject_record_def)

lemma speed_wraps: "unat (Speed (inject_record ts fl)) = unat (f_speed fl) mod 65536"
  by (simp add: inject_record_def unsigned_ucast_eq take_bit_eq_mod)

text \<open>The alerts among the effects.\<close>

fun is_alert :: "effect \<Rightarrow> bool" where
  "is_alert (Sql (InsertAlert a b c d e f g h i)) = True"
| "is_alert _ = False"

definition alerts_of :: "'w sys \<Rightarrow> effect list" where
  "alerts_of s = filter is_alert (trace s)"

lemma alerts_ops [simp]:
  "alerts_of (snd (run_sql svc q s)) = alerts_of s @ (if is_alert (Sql q) then [Sql q] else [])"
  "alerts_of (snd (run_redis svc c s)) = alerts_of s"
  "alerts_of (snd (run_publish svc a b d s)) = alerts_of s"
  by (simp_all add: alerts_of_def)

lemma alerts_trip [simp]: "alerts_of (TripMachine_Process svc rec s) = alerts_of s"
  by (auto simp: TripMachine_Process_def case_prod_unfold Let_def split: sum.splits)

lemma alerts_pipeline:
  assumes "Pipeline_Process svc now r s = (rec, s1)"
  shows "alerts_of s1 = alerts_of s @
    (if 120 < er_Speed rec then [Sql (alert_row ''overspeed'' ''warning'' ''Vehicle exceeded 120km/h'' rec)] else []) @
    (if er_SOSEvent rec then [Sql (alert_row ''sos'' ''critical'' ''SOS Button Pressed!'' rec)] else [])"
proof -
  have "alerts_of (snd (lookup_tenant svc r s)) = alerts_of s"
    by (simp add: lookup_tenant_def case_prod_unfold)
  with assms show ?thesis
    by (auto simp: Pipeline_Process_eq case_prod_unfold Let_def AlertEvaluator_Evaluate_def GeofenceEngine_Check_def alert_row_def)
qed

lemma alerts_message:
  assumes "unmarshal_raw cd data = Some r" "Pipeline_Process svc now r s = (rec, s1)"
  shows "alerts_of (processMessage svc cd now data s) = alerts_of s1"
  using processMessage_cases [OF assms] by (simp add: alerts_of_def stored_effects_def split: option.split)

text \<open>
  C36: a run of the sample injector that ends well is indistinguishable from the device: it
  leaves the broker, once the streams are in place, exactly as the ingestion service does when
  that device delivers the one record, under the same idempotency key; and when the stream
  processor handles the message, the record has ignition and movement set and raises an
  overspeed alert exactly when the speed given on the command line, reduced to 16 bits,
  exceeds 120, and no other alert. JSON has to give back the record.
\<close>

theorem injected_sample_is_a_device_record:
  assumes run: "inject_main env fl now marshal nats_err js_err create js s = (Published, s')"
    and json: "marshal (inject_record now fl) = Some d" "unmarshal_raw cd (string_of d) = Some (inject_record now fl)"
    and rec: "rec = fst (Pipeline_Process svc now' (inject_record now fl) t)"
  shows "(\<exists>s1. ensureStreams create s = (None, s1) \<and> s' = onRecord marshal js (f_device fl) [inject_record now fl] s1) \<and>
    er_DeviceID rec = f_device fl \<and> er_Ignition rec \<and> er_Movement rec \<and>
    alerts_of (processMessage svc cd now' (string_of d) t) = alerts_of t @
      (if 120 < unat (f_speed fl) mod 65536 then [Sql (alert_row ''overspeed'' ''warning'' ''Vehicle exceeded 120km/h'' rec)] else [])"
proof (intro conjI)
  let ?r = "inject_record now fl"
  from run json(1) obtain cl s1 where new: "nats_New (nats_err (envStr env ''NATS_URL'' ''nats://127.0.0.1:4222'')) js_err create s = (None, cl, s1)"
    and pub: "s' = snd (nats_Publish js SubjectRawAVL (record_msgID (DeviceID ?r) ?r) d s1)"
    by (auto simp: inject_main_def Let_def split: if_splits option.splits prod.splits outcome.splits)
  have "DeviceID ?r = f_device fl" by (simp add: inject_record_def)
  with pub json(1) nats_New_None [OF new]
  show "\<exists>s1. ensureStreams create s = (None, s1) \<and> s' = onRecord marshal js (f_device fl) [?r] s1" by auto
  obtain t1 where p: "Pipeline_Process svc now' ?r t = (rec, t1)" using rec by (metis prod.collapse)
  have r: "rec = (initial_record now' (fst (lookup_tenant svc ?r t)) ?r)\<lparr>er_Ignition := True, er_Movement := True\<rparr>"
    using rec_of_pipeline [of svc now' ?r t] rec enrich_injected by simp
  then show "er_DeviceID rec = f_device fl" "er_Ignition rec" "er_Movement rec"
    by (simp_all add: initial_record_def inject_record_def)
  have "\<not> er_SOSEvent rec" "er_Speed rec = Speed ?r" by (simp_all add: r initial_record_def)
  moreover have "120 < Speed ?r \<longleftrightarrow> 120 < unat (f_speed fl) mod 65536"
    by (simp add: word_less_nat_alt speed_wraps)
  ultimately show "alerts_of (processMessage svc cd now' (string_of d) t) = alerts_of t @
      (if 120 < unat (f_speed fl) mod 65536 then [Sql (alert_row ''overspeed'' ''warning'' ''Vehicle exceeded 120km/h'' rec)] else [])"
    using alerts_message [OF json(2) p] alerts_pipeline [OF p] by simp
qed

theorem injected_sample_is_a_device_record_witness:
  "fst (inject_main (\<lambda>_. []) (default_flags\<lparr>f_device := ''known'', f_speed := 65536 + 45\<rparr>) 0 (\<lambda>_. Some []) (\<lambda>_. None) None
      (\<lambda>cfg n. (None, n)) (\<lambda>a b c n. (Ok (), Suc n)) 0) = Published \<and>
   alerts_of (processMessage sample_services (sample_codecs (inject_record 0 (default_flags\<lparr>f_device := ''known'', f_speed := 65536 + 45\<rparr>))) 0
      (string_of []) \<lparr>ext = Map.empty, trace = []\<rparr>) = []"
proof -
  let ?fl = "default_flags\<lparr>f_device := ''known'', f_speed := 65536 + 45\<rparr>"
  have new: "nats_New None None (\<lambda>cfg n. (None, n)) 0 = (None, False, 0 :: nat)"
    by (simp add: nats_New_def ensureStreams_def streams_def)
  have run: "inject_main (\<lambda>_. []) ?fl 0 (\<lambda>_. Some []) (\<lambda>_. None) None (\<lambda>cfg n. (None, n)) (\<lambda>a b c n. (Ok (), Suc n)) 0 = (Published, 1)"
    by (simp add: inject_main_def new nats_Publish_def)
  from injected_sample_is_a_device_record [OF run, of "[]" "sample_codecs (inject_record 0 ?fl)" _ sample_services 0 "\<lparr>ext = Map.empty, trace = []\<rparr>"]
  have "alerts_of (processMessage sample_services (sample_codecs (inject_record 0 ?fl)) 0 (string_of []) \<lparr>ext = Map.empty, trace = []\<rparr>) = []"
    by (simp add: sample_codecs_def alerts_of_def)
  with run show ?thesis by simp
qed

end
