(* ===== verification/Ingestion_Service.thy ===== *)
theory Ingestion_Service
  imports Startup
begin

text \<open>
  The ingestion service as a process (\<open>ingestion-service/cmd/main.go\<close> and \<open>ListenAndServe\<close> of
  \<open>internal/server/tcp_server.go\<close>): start-up, the listeners with their wait groups over the
  shared connection registry, and the shutdown after a signal. The goroutines interleave; the
  steps of the connections are those of \<open>Server\<close>.
\<close>

section \<open>State\<close>

text \<open>
  A listener is about to listen, accepts, waits for its connections, or has returned. The main
  goroutine waits for a signal, then for the listeners; it ends cleanly or after the timeout.
\<close>

datatype lphase = Starting | Listening | Waiting | Returned
datatype mphase = Running | Draining | Clean | Forced

record service =
  srv :: server
  owner :: "nat \<Rightarrow> nat"
  lis :: "nat \<Rightarrow> lphase"
  conn_wg :: "nat \<Rightarrow> nat"
  main_wg :: nat
  cancelled :: bool
  main_phase :: mphase

definition service_init :: "nat \<Rightarrow> (nat \<Rightarrow> sock) \<Rightarrow> service" where
  "service_init n s0 = \<lparr>srv = server_init s0, owner = (\<lambda>_. 0), lis = (\<lambda>l. if l < n then Starting else Returned), conn_wg = (\<lambda>_. 0),
     main_wg = n, cancelled = False, main_phase = Running\<rparr>"

definition ingestion_main ::
  "(string \<Rightarrow> string) \<Rightarrow> (string \<Rightarrow> goerr option) \<Rightarrow> goerr option \<Rightarrow> (StreamConfig \<Rightarrow> 's \<Rightarrow> goerr option \<times> 's) \<Rightarrow>
   (f64 \<Rightarrow> u16) \<Rightarrow> int \<Rightarrow> (nat \<Rightarrow> sock) \<Rightarrow> 's \<Rightarrow> (portHandler list \<times> service \<times> 's) start" where
  "ingestion_main env nats_err js_err create impl now s0 s =
     (let cfg = Load env in
      case nats_New (nats_err (NATSUrl cfg)) js_err create s of
        (Some err, cl, s1) \<Rightarrow> Fatal ''NATS connect failed'' err
      | (None, cl, s1) \<Rightarrow>
          (let handlers = main_handlers cfg impl now in Started (handlers, service_init (length handlers) s0, s1)))"

section \<open>Steps\<close>

text \<open>
  \<open>Done\<close> is the deferred call at the end of a connection's goroutine. A listener whose
  context is cancelled has its socket closed, so that its \<open>Accept\<close> fails; until then it may
  still accept. Another error of \<open>Accept\<close> changes nothing.
\<close>

definition Done :: "nat \<Rightarrow> service \<Rightarrow> service" where
  "Done i s = s\<lparr>conn_wg := (conn_wg s)(owner s i := conn_wg s (owner s i) - 1)\<rparr>"

definition listener_return :: "nat \<Rightarrow> service \<Rightarrow> service" where
  "listener_return l s = s\<lparr>lis := (lis s)(l := Returned), main_wg := main_wg s - 1\<rparr>"

inductive service_step :: "service \<Rightarrow> service \<Rightarrow> bool" where
  listen: "lis s l = Starting \<Longrightarrow> service_step s (s\<lparr>lis := (lis s)(l := Listening)\<rparr>)"
| listen_error: "lis s l = Starting \<Longrightarrow> service_step s (listener_return l s)"
| conn_accept: "lis s l = Listening \<Longrightarrow>
     service_step s (s\<lparr>srv := (srv s)\<lparr>phases := (phases (srv s))(accepted (srv s) := Authenticating),
         world := (world (srv s))\<lparr>socks := (socks (world (srv s)))(accepted (srv s) := (socks (world (srv s)) (accepted (srv s)))\<lparr>is_closed := False\<rparr>)\<rparr>,
         accepted := Suc (accepted (srv s))\<rparr>,
       owner := (owner s)(accepted (srv s) := l), conn_wg := (conn_wg s)(l := Suc (conn_wg s l))\<rparr>)"
| accept_error: "lis s l = Listening \<Longrightarrow> cancelled s \<Longrightarrow> service_step s (s\<lparr>lis := (lis s)(l := Waiting)\<rparr>)"
| conn_refused: "phases (srv s) i = Authenticating \<Longrightarrow>
     service_step s (Done i (s\<lparr>srv := (srv s)\<lparr>phases := (phases (srv s))(i := Finished), world := sock_Close i (world (srv s))\<rparr>\<rparr>))"
| conn_serve: "phases (srv s) i = Authenticating \<Longrightarrow>
     service_step s (s\<lparr>srv := (srv s)\<lparr>phases := (phases (srv s))(i := Serving deviceID),
       world := ConnRegistry_Register deviceID i (world (srv s))\<rparr>\<rparr>)"
| conn_unregister: "phases (srv s) i = Serving deviceID \<Longrightarrow>
     service_step s (s\<lparr>srv := (srv s)\<lparr>phases := (phases (srv s))(i := Unregistered deviceID),
       world := ConnRegistry_Unregister deviceID (world (srv s))\<rparr>\<rparr>)"
| conn_close: "phases (srv s) i = Unregistered deviceID \<Longrightarrow>
     service_step s (Done i (s\<lparr>srv := (srv s)\<lparr>phases := (phases (srv s))(i := Finished), world := sock_Close i (world (srv s))\<rparr>\<rparr>))"
| command: "service_step s (s\<lparr>srv := (srv s)\<lparr>world := snd (ConnRegistry_Send deviceID data (world (srv s)))\<rparr>\<rparr>)"
| waited: "lis s l = Waiting \<Longrightarrow> conn_wg s l = 0 \<Longrightarrow> service_step s (listener_return l s)"
| signal: "main_phase s = Running \<Longrightarrow> service_step s (s\<lparr>cancelled := True, main_phase := Draining\<rparr>)"
| drained: "main_phase s = Draining \<Longrightarrow> main_wg s = 0 \<Longrightarrow> service_step s (s\<lparr>main_phase := Clean\<rparr>)"
| timeout: "main_phase s = Draining \<Longrightarrow> service_step s (s\<lparr>main_phase := Forced\<rparr>)"

inductive_cases service_stepE: "service_step s s'"

section \<open>The connections refine the server\<close>

text \<open>Whatever the service does, its connections and its registry take a step of the server, or none.\<close>

lemma service_step_server: "service_step s s' \<Longrightarrow> (server_step\<^sup>=\<^sup>=) (srv s) (srv s')"
  by (erule service_stepE) (auto simp: Done_def listener_return_def intro: server_step.intros)

lemma service_server_reachable: "service_step\<^sup>*\<^sup>* (service_init n s0) s \<Longrightarrow> server_step\<^sup>*\<^sup>* (server_init s0) (srv s)"
proof (induction rule: rtranclp_induct)
  case (step s s')
  from service_step_server [OF step(2)] step(3) show ?case by (auto intro: rtranclp.rtrancl_into_rtrancl)
qed (simp add: service_init_def)

section \<open>Wait groups count\<close>

definition active :: "phase \<Rightarrow> bool" where
  "active p \<longleftrightarrow> p \<noteq> Absent \<and> p \<noteq> Finished"

definition conns_of :: "service \<Rightarrow> nat \<Rightarrow> nat set" where
  "conns_of s l = {i. owner s i = l \<and> active (phases (srv s) i)}"

definition open_listeners :: "service \<Rightarrow> nat set" where
  "open_listeners s = {l. lis s l \<noteq> Returned}"

definition service_inv :: "service \<Rightarrow> bool" where
  "service_inv s \<longleftrightarrow> server_inv (srv s) \<and>
     (\<forall>i < accepted (srv s). phases (srv s) i \<noteq> Absent) \<and>
     (\<forall>i. phases (srv s) i = Finished \<longrightarrow> is_closed (socks (world (srv s)) i)) \<and>
     (\<forall>l. conn_wg s l = card (conns_of s l)) \<and> (\<forall>l. lis s l \<in> {Starting, Returned} \<longrightarrow> conns_of s l = {}) \<and>
     finite (open_listeners s) \<and> main_wg s = card (open_listeners s) \<and>
     (cancelled s \<longleftrightarrow> main_phase s \<noteq> Running) \<and> (main_phase s = Clean \<longrightarrow> open_listeners s = {})"

lemma service_inv_init: "service_inv (service_init n s0)"
proof -
  have "open_listeners (service_init n s0) = {..< n}" by (auto simp: open_listeners_def service_init_def)
  moreover have "conns_of (service_init n s0) l = {}" for l
    by (simp add: service_init_def server_init_def conns_of_def active_def)
  moreover have "server_inv (srv (service_init n s0))" by (simp add: service_init_def server_inv_init)
  ultimately show ?thesis by (simp add: service_inv_def) (simp add: service_init_def server_init_def)
qed

lemma absent_above: "server_inv (srv s) \<Longrightarrow> active (phases (srv s) i) \<Longrightarrow> i < accepted (srv s)"
  by (rule ccontr) (auto simp: active_def server_inv_def)

lemma conns_finite: "service_inv s \<Longrightarrow> finite (conns_of s l)"
  by (rule finite_subset [of _ "{..< accepted (srv s)}"]) (auto simp: conns_of_def service_inv_def dest: absent_above)

text \<open>A step that keeps the listeners, and the connections up to one that ends.\<close>

lemma conns_ended:
  assumes "service_inv s" "active (phases (srv s) i)" "phases (srv s') = (phases (srv s))(i := Finished)" "owner s' = owner s"
  shows "conns_of s' l = conns_of s l - (if l = owner s i then {i} else {})"
    "card (conns_of s' l) = (if l = owner s i then conn_wg s l - 1 else conn_wg s l)"
proof -
  show c: "conns_of s' l = conns_of s l - (if l = owner s i then {i} else {})"
    using assms(2-4) by (auto simp: conns_of_def active_def)
  have "i \<in> conns_of s (owner s i)" using assms(2) by (simp add: conns_of_def)
  then show "card (conns_of s' l) = (if l = owner s i then conn_wg s l - 1 else conn_wg s l)"
    using assms(1) conns_finite [OF assms(1)] by (auto simp: c service_inv_def)
qed

lemma open_returned:
  "lis s l \<noteq> Returned \<Longrightarrow> open_listeners (listener_return l s) = open_listeners s - {l}"
  by (auto simp: open_listeners_def listener_return_def)

lemma closed_kept:
  "is_closed (socks w j) \<Longrightarrow> is_closed (socks (sock_Close i w) j)"
  "is_closed (socks w j) \<Longrightarrow> is_closed (socks (ConnRegistry_Register d i w) j)"
  "is_closed (socks w j) \<Longrightarrow> is_closed (socks (ConnRegistry_Unregister d w) j)"
  "is_closed (socks w j) \<Longrightarrow> is_closed (socks (snd (ConnRegistry_Send d data w)) j)"
  by (auto simp: sock_Close_def ConnRegistry_Register_def ConnRegistry_Unregister_def ConnRegistry_Send_def Let_def
      split: option.splits prod.splits)

text \<open>A step of a connection's goroutine to a phase \<open>p\<close>.\<close>

lemma service_inv_conn:
  assumes "service_inv s" "server_inv (srv s')" "active (phases (srv s) i)" "p \<noteq> Absent"
    and "phases (srv s') = (phases (srv s))(i := p)" "accepted (srv s') = accepted (srv s)"
    and "\<And>j. is_closed (socks (world (srv s)) j) \<Longrightarrow> is_closed (socks (world (srv s')) j)"
      "p = Finished \<Longrightarrow> is_closed (socks (world (srv s')) i)"
    and "lis s' = lis s" "main_wg s' = main_wg s" "cancelled s' = cancelled s" "main_phase s' = main_phase s" "owner s' = owner s"
    and "conn_wg s' = (if p = Finished then (conn_wg s)(owner s i := conn_wg s (owner s i) - 1) else conn_wg s)"
  shows "service_inv s'"
proof -
  have o: "open_listeners s' = open_listeners s" by (simp add: open_listeners_def assms(9))
  have c: "conns_of s' l \<subseteq> conns_of s l \<and> conn_wg s' l = card (conns_of s' l)" for l
  proof (cases "p = Finished")
    case True
    then show ?thesis using conns_ended [OF assms(1,3) _ assms(13), of l] assms(5,14) by auto
  next
    case False
    then have "conns_of s' l = conns_of s l" using assms(3,4,5,13) by (auto simp: conns_of_def active_def)
    with False assms(1,14) show ?thesis by (simp add: service_inv_def)
  qed
  then have "conns_of s' l = {}" if "lis s' l \<in> {Starting, Returned}" for l
    using that assms(1,9) unfolding service_inv_def by (metis subset_empty)
  moreover have "phases (srv s') j \<noteq> Absent" if "j < accepted (srv s')" for j
    using that assms(1,4,5,6) by (auto simp: service_inv_def)
  moreover have "is_closed (socks (world (srv s')) j)" if "phases (srv s') j = Finished" for j
    using that assms(1,5,7,8) by (auto simp: service_inv_def split: if_splits)
  ultimately show ?thesis using assms(1,2,10-12) c unfolding service_inv_def by (simp add: o)
qed

text \<open>A step of a listener or of the main goroutine, which leaves the connections alone.\<close>

lemma service_inv_control:
  assumes "service_inv s" "srv s' = srv s" "owner s' = owner s" "conn_wg s' = conn_wg s"
    and "\<And>l. lis s' l \<in> {Starting, Returned} \<Longrightarrow> conns_of s l = {}"
    and "finite (open_listeners s')" "main_wg s' = card (open_listeners s')"
    and "cancelled s' \<longleftrightarrow> main_phase s' \<noteq> Running" "main_phase s' = Clean \<Longrightarrow> open_listeners s' = {}"
  shows "service_inv s'"
proof -
  have "conns_of s' l = conns_of s l" for l by (simp add: conns_of_def assms(2,3))
  with assms show ?thesis by (simp add: service_inv_def)
qed

lemma service_inv_return:
  assumes "service_inv s" "lis s l \<noteq> Returned" "conns_of s l = {}"
  shows "service_inv (listener_return l s)"
proof (rule service_inv_control [OF assms(1)])
  have "l \<in> open_listeners s" using assms(2) by (simp add: open_listeners_def)
  then show "main_wg (listener_return l s) = card (open_listeners (listener_return l s))"
    "finite (open_listeners (listener_return l s))"
    using assms(1) by (simp_all add: open_returned [OF assms(2)] service_inv_def) (simp add: listener_return_def)
  show "conns_of s k = {}" if "lis (listener_return l s) k \<in> {Starting, Returned}" for k
    using that assms(1,3) by (auto simp: service_inv_def listener_return_def split: if_splits)
  show "cancelled (listener_return l s) \<longleftrightarrow> main_phase (listener_return l s) \<noteq> Running"
    "main_phase (listener_return l s) = Clean \<Longrightarrow> open_listeners (listener_return l s) = {}"
    using assms(1) by (simp_all add: service_inv_def open_returned [OF assms(2)]) (simp_all add: listener_return_def)
qed (simp_all add: listener_return_def)

lemma service_inv_accept:
  assumes "service_inv s" "lis s l = Listening" "server_inv (srv s')"
    and "phases (srv s') = (phases (srv s))(accepted (srv s) := Authenticating)" "accepted (srv s') = Suc (accepted (srv s))"
    and "\<And>j. j \<noteq> accepted (srv s) \<Longrightarrow> socks (world (srv s')) j = socks (world (srv s)) j"
    and "owner s' = (owner s)(accepted (srv s) := l)" "conn_wg s' = (conn_wg s)(l := Suc (conn_wg s l))"
    and "lis s' = lis s" "main_wg s' = main_wg s" "cancelled s' = cancelled s" "main_phase s' = main_phase s"
  shows "service_inv s'"
proof -
  have "\<not> active (phases (srv s) (accepted (srv s)))" using assms(1) absent_above by (auto simp: service_inv_def)
  then have c: "conns_of s' k = (if k = l then insert (accepted (srv s)) (conns_of s k) else conns_of s k)"
    "accepted (srv s) \<notin> conns_of s k" for k
    using assms(4,7) by (auto simp: conns_of_def active_def)
  have "card (conns_of s' k) = conn_wg s' k" for k
    using assms(1,8) c(2) conns_finite [OF assms(1)] by (simp add: c(1) service_inv_def)
  moreover have "conns_of s' k = {}" if "lis s' k \<in> {Starting, Returned}" for k
    using that assms(1,2,9) by (auto simp: c(1) service_inv_def)
  moreover have "is_closed (socks (world (srv s')) j)" if "phases (srv s') j = Finished" for j
    using that assms(1,4,6) by (auto simp: service_inv_def split: if_splits)
  moreover have "open_listeners s' = open_listeners s" by (simp add: open_listeners_def assms(9))
  ultimately show ?thesis using assms(1,3,4,5,10-12) unfolding service_inv_def by (simp add: less_Suc_eq)
qed

lemma service_inv_step:
  assumes "service_step s s'" "service_inv s"
  shows "service_inv s'"
proof -
  have sv: "server_inv (srv s')"
    using service_step_server [OF assms(1)] assms(2) server_inv_step by (auto simp: service_inv_def)
  note conn = service_inv_conn [OF assms(2) sv] and control = service_inv_control [OF assms(2)]
  have inv: "finite (open_listeners s)" "main_wg s = card (open_listeners s)" "cancelled s \<longleftrightarrow> main_phase s \<noteq> Running"
    "main_phase s = Clean \<Longrightarrow> open_listeners s = {}" "\<And>l. lis s l \<in> {Starting, Returned} \<Longrightarrow> conns_of s l = {}"
    "\<And>l. conn_wg s l = card (conns_of s l)"
    using assms(2) by (auto simp: service_inv_def)
  from assms(1) show ?thesis
  proof (cases rule: service_step.cases)
    case (listen l)
    then have "open_listeners s' = open_listeners s" by (auto simp: open_listeners_def)
    with listen inv show ?thesis by (intro control) (auto split: if_splits)
  next
    case (listen_error l)
    with inv show ?thesis by (auto intro!: service_inv_return [OF assms(2)])
  next
    case (conn_accept l)
    then show ?thesis using sv by (intro service_inv_accept [OF assms(2), of l]) simp_all
  next
    case (accept_error l)
    then have "open_listeners s' = open_listeners s" by (auto simp: open_listeners_def)
    with accept_error inv show ?thesis by (intro control) (auto split: if_splits)
  next
    case (conn_refused i)
    then show ?thesis by (intro conn [of i Finished]) (simp_all add: active_def Done_def closed_kept, simp add: sock_Close_def)
  next
    case (conn_serve i d)
    then show ?thesis by (intro conn [of i "Serving d"]) (simp_all add: active_def closed_kept)
  next
    case (conn_unregister i d)
    then show ?thesis by (intro conn [of i "Unregistered d"]) (simp_all add: active_def closed_kept)
  next
    case (conn_close i d)
    then show ?thesis by (intro conn [of i Finished]) (simp_all add: active_def Done_def closed_kept, simp add: sock_Close_def)
  next
    case (command d b)
    then show ?thesis using assms(2) sv
      by (simp add: service_inv_def conns_of_def open_listeners_def closed_kept)
  next
    case (waited l)
    have "conns_of s l = {}" using waited(3) inv(6) [of l] conns_finite [OF assms(2), of l] by simp
    with waited show ?thesis by (simp add: service_inv_return [OF assms(2)])
  next
    case signal
    then have "open_listeners s' = open_listeners s" by (simp add: open_listeners_def)
    with signal inv show ?thesis by (intro control) auto
  next
    case drained
    then have "open_listeners s' = open_listeners s" by (simp add: open_listeners_def)
    with drained inv show ?thesis by (intro control) auto
  next
    case timeout
    then have "open_listeners s' = open_listeners s" by (simp add: open_listeners_def)
    with timeout inv show ?thesis by (intro control) auto
  qed
qed

lemma service_inv_reachable: "service_step\<^sup>*\<^sup>* (service_init n s0) s \<Longrightarrow> service_inv s"
  by (induction rule: rtranclp_induct) (auto intro: service_inv_init service_inv_step)

section \<open>Draining\<close>

text \<open>How much a listener and a connection still have to do when the service is stopped.\<close>

fun lrank :: "lphase \<Rightarrow> nat" where
  "lrank Starting = 1" | "lrank Listening = 2" | "lrank Waiting = 1" | "lrank Returned = 0"

fun prank :: "phase \<Rightarrow> nat" where
  "prank Absent = 0" | "prank Authenticating = 1" | "prank (Serving d) = 2" | "prank (Unregistered d) = 1" | "prank Finished = 0"

definition remaining :: "nat set \<Rightarrow> service \<Rightarrow> nat" where
  "remaining A s = (\<Sum>l \<in> A. lrank (lis s l)) + (\<Sum>i < accepted (srv s). prank (phases (srv s) i))"

lemma remaining_conn:
  assumes "i < accepted (srv s)" "phases (srv s') = (phases (srv s))(i := p)" "prank p < prank (phases (srv s) i)"
    and "accepted (srv s') = accepted (srv s)" "lis s' = lis s"
  shows "remaining A s' < remaining A s"
proof -
  have "(\<Sum>j < accepted (srv s). prank (phases (srv s') j)) < (\<Sum>j < accepted (srv s). prank (phases (srv s) j))"
    using assms(1-3) by (intro sum_strict_mono_ex1) auto
  with assms(4,5) show ?thesis by (simp add: remaining_def)
qed

lemma remaining_listener:
  assumes "finite A" "l \<in> A" "lis s' = (lis s)(l := p)" "lrank p < lrank (lis s l)" "srv s' = srv s"
  shows "remaining A s' < remaining A s"
proof -
  have "(\<Sum>k \<in> A. lrank (lis s' k)) < (\<Sum>k \<in> A. lrank (lis s k))"
    using assms(1-4) by (intro sum_strict_mono_ex1) auto
  with assms(5) show ?thesis by (simp add: remaining_def)
qed

text \<open>Until everything has returned, something can still go on.\<close>

lemma drain_step:
  assumes "service_inv s" "main_phase s = Draining" "open_listeners s \<noteq> {}" "finite A" "open_listeners s \<subseteq> A"
  shows "\<exists>s'. service_step s s' \<and> main_phase s' = Draining \<and> open_listeners s' \<subseteq> A \<and> remaining A s' < remaining A s"
proof -
  have cancelled: "cancelled s" using assms(1,2) by (simp add: service_inv_def)
  obtain l where l: "lis s l \<noteq> Returned" "l \<in> A" using assms(3,5) by (auto simp: open_listeners_def)
  note intro = service_step.intros and conn = remaining_conn [of _ s _ _ A] and listener = remaining_listener [OF assms(4) l(2), of _ s]
  consider "lis s l = Starting" | "lis s l = Listening" | "lis s l = Waiting" "conns_of s l = {}"
    | i where "i \<in> conns_of s l" using l(1) by (cases "lis s l") auto
  then show ?thesis
  proof cases
    case 1
    let ?s = "listener_return l s"
    have "remaining A ?s < remaining A s" using 1 by (intro listener [of _ Returned]) (simp_all add: listener_return_def)
    with 1 assms(2,5) intro(2) [of s l] show ?thesis
      by (intro exI [of _ ?s]) (auto simp: open_listeners_def listener_return_def)
  next
    case 2
    let ?s = "s\<lparr>lis := (lis s)(l := Waiting)\<rparr>"
    have "remaining A ?s < remaining A s" using 2 by (intro listener [of _ Waiting]) simp_all
    with 2 assms(2,5) intro(4) [OF 2 cancelled] l(2) show ?thesis
      by (intro exI [of _ ?s]) (auto simp: open_listeners_def)
  next
    case 3
    let ?s = "listener_return l s"
    have "remaining A ?s < remaining A s" using 3 by (intro listener [of _ Returned]) (simp_all add: listener_return_def)
    moreover have "conn_wg s l = 0" using assms(1) 3 by (simp add: service_inv_def)
    ultimately show ?thesis using assms(2,5) intro(10) [OF 3(1)]
      by (intro exI [of _ ?s]) (auto simp: open_listeners_def listener_return_def)
  next
    case (4 i)
    then have act: "active (phases (srv s) i)" by (simp add: conns_of_def)
    then have i: "i < accepted (srv s)" using absent_above [of s i] assms(1) by (simp add: service_inv_def)
    have go: ?thesis if "service_step s s'" "main_phase s' = main_phase s" "lis s' = lis s" "accepted (srv s') = accepted (srv s)"
      "phases (srv s') = (phases (srv s))(i := p)" "prank p < prank (phases (srv s) i)" for s' p
      using that assms(2,5) remaining_conn [OF i that(5,6,4,3)] by (intro exI [of _ s']) (auto simp: open_listeners_def)
    from act consider "phases (srv s) i = Authenticating" | d where "phases (srv s) i = Serving d"
      | d where "phases (srv s) i = Unregistered d" by (cases "phases (srv s) i") (auto simp: active_def)
    then show ?thesis
    proof cases
      case 1
      show ?thesis by (rule go [OF intro(5) [OF 1], of Finished]) (simp_all add: Done_def 1)
    next
      case (2 d)
      show ?thesis by (rule go [OF intro(7) [OF 2], of "Unregistered d"]) (simp_all add: 2)
    next
      case (3 d)
      show ?thesis by (rule go [OF intro(8) [OF 3], of Finished]) (simp_all add: Done_def 3)
    qed
  qed
qed

lemma drain_possible:
  "service_inv s \<Longrightarrow> main_phase s = Draining \<Longrightarrow> finite A \<Longrightarrow> open_listeners s \<subseteq> A \<Longrightarrow>
   \<exists>s'. service_step\<^sup>*\<^sup>* s s' \<and> main_phase s' = Clean"
proof (induction "remaining A s" arbitrary: s rule: less_induct)
  case less
  show ?case
  proof (cases "open_listeners s = {}")
    case True
    then have "service_step s (s\<lparr>main_phase := Clean\<rparr>)"
      using less.prems(1,2) by (intro service_step.drained) (simp_all add: service_inv_def)
    then show ?thesis by (intro exI [of _ "s\<lparr>main_phase := Clean\<rparr>"]) auto
  next
    case False
    from drain_step [OF less.prems(1,2) False less.prems(3,4)] obtain s1 where
      s1: "service_step s s1" "main_phase s1 = Draining" "open_listeners s1 \<subseteq> A" "remaining A s1 < remaining A s" by blast
    from less.hyps [OF s1(4) service_inv_step [OF s1(1) less.prems(1)] s1(2) less.prems(3) s1(3)] s1(1)
    show ?thesis by (meson converse_rtranclp_into_rtranclp)
  qed
qed

text \<open>
  C12: shutting down: whatever connections did before and whichever listeners failed, when
  the ingestion service reports that all connections are drained, every connection it ever
  accepted has ended and is closed and the registry is empty; after a signal, as long as the
  timeout has not struck, a clean end is still possible, so that no order of events makes the
  wait groups wait forever; and no wait group is ever decremented below zero, which would
  panic.
\<close>

theorem shutdown_drains:
  assumes "service_step\<^sup>*\<^sup>* (service_init n s0) s"
  shows "(main_phase s = Clean \<longrightarrow> ConnRegistry_Count (world (srv s)) = 0 \<and> conns (world (srv s)) = Map.empty \<and>
      (\<forall>i < accepted (srv s). phases (srv s) i = Finished \<and> is_closed (socks (world (srv s)) i))) \<and>
    (main_phase s = Draining \<longrightarrow> (\<exists>s'. service_step\<^sup>*\<^sup>* s s' \<and> main_phase s' = Clean)) \<and>
    (active (phases (srv s) i) \<longrightarrow> 0 < conn_wg s (owner s i)) \<and> (lis s l \<noteq> Returned \<longrightarrow> 0 < main_wg s)"
proof (intro conjI impI)
  have inv: "service_inv s" using service_inv_reachable [OF assms] .
  show "\<exists>s'. service_step\<^sup>*\<^sup>* s s' \<and> main_phase s' = Clean" if "main_phase s = Draining"
    using drain_possible [OF inv that, of "open_listeners s"] inv by (simp add: service_inv_def)
  show "0 < conn_wg s (owner s i)" if "active (phases (srv s) i)"
    using that inv conns_finite [OF inv] by (auto simp: service_inv_def card_gt_0_iff conns_of_def)
  show "0 < main_wg s" if "lis s l \<noteq> Returned"
    using that inv by (auto simp: service_inv_def card_gt_0_iff open_listeners_def)
  assume clean: "main_phase s = Clean"
  then have none: "conns_of s k = {}" for k using inv unfolding service_inv_def open_listeners_def by blast
  then have fin: "phases (srv s) j = Finished" if "j < accepted (srv s)" for j
    using that inv by (auto simp: service_inv_def conns_of_def active_def)
  have "conns (world (srv s)) d = None" for d
  proof (cases "conns (world (srv s)) d")
    case (Some j)
    then have "phases (srv s) j = Serving d" using inv by (simp add: service_inv_def server_inv_def)
    with none [of "owner s j"] show ?thesis by (auto simp: conns_of_def active_def)
  qed
  then show "conns (world (srv s)) = Map.empty" "ConnRegistry_Count (world (srv s)) = 0"
    by (auto simp: ConnRegistry_Count_def dom_def)
  show "\<forall>i < accepted (srv s). phases (srv s) i = Finished \<and> is_closed (socks (world (srv s)) i)"
    using fin inv by (simp add: service_inv_def)
qed

text \<open>One listener, one device served, and the signal.\<close>

definition stopping :: service where
  "stopping = (service_init 1 (\<lambda>_. \<lparr>link = sample_conn [], is_closed = True\<rparr>))
     \<lparr>srv := one_device (\<lambda>_. \<lparr>link = sample_conn [], is_closed = True\<rparr>) ''dev'', lis := (\<lambda>l. if l = 0 then Listening else Returned),
      conn_wg := (\<lambda>_. 0)(0 := 1), cancelled := True, main_phase := Draining\<rparr>"

lemma stopping_reachable: "service_step\<^sup>*\<^sup>* (service_init 1 (\<lambda>_. \<lparr>link = sample_conn [], is_closed = True\<rparr>)) stopping"
proof -
  let ?s0 = "service_init 1 (\<lambda>_. \<lparr>link = sample_conn [], is_closed = True\<rparr>)"
  let ?s1 = "?s0\<lparr>lis := (lis ?s0)(0 := Listening)\<rparr>"
  have s1: "service_step ?s0 ?s1" by (rule service_step.listen) (simp add: service_init_def)
  have "lis ?s1 0 = Listening" by simp
  note s2 = service_step.conn_accept [OF this]
  then obtain s2 where s2: "service_step ?s1 s2" and s2_eq: "s2 = ?s1\<lparr>srv := (srv ?s1)\<lparr>phases := (phases (srv ?s1))(accepted (srv ?s1) := Authenticating),
         world := (world (srv ?s1))\<lparr>socks := (socks (world (srv ?s1)))(accepted (srv ?s1) := (socks (world (srv ?s1)) (accepted (srv ?s1)))\<lparr>is_closed := False\<rparr>)\<rparr>,
         accepted := Suc (accepted (srv ?s1))\<rparr>,
       owner := (owner ?s1)(accepted (srv ?s1) := 0), conn_wg := (conn_wg ?s1)(0 := Suc (conn_wg ?s1 0))\<rparr>" by blast
  have "phases (srv s2) 0 = Authenticating" by (simp add: s2_eq service_init_def server_init_def)
  note s3 = service_step.conn_serve [OF this, of "''dev''"]
  have "main_phase (s2\<lparr>srv := (srv s2)\<lparr>phases := (phases (srv s2))(0 := Serving ''dev''), world := ConnRegistry_Register ''dev'' 0 (world (srv s2))\<rparr>\<rparr>) = Running"
    by (simp add: s2_eq service_init_def)
  note s4 = service_step.signal [OF this]
  have "stopping = s2\<lparr>srv := (srv s2)\<lparr>phases := (phases (srv s2))(0 := Serving ''dev''), world := ConnRegistry_Register ''dev'' 0 (world (srv s2))\<rparr>,
      cancelled := True, main_phase := Draining\<rparr>"
    by (auto simp: stopping_def s2_eq one_device_def service_init_def server_init_def Let_def fun_eq_iff)
  with s4 have "service_step (s2\<lparr>srv := (srv s2)\<lparr>phases := (phases (srv s2))(0 := Serving ''dev''), world := ConnRegistry_Register ''dev'' 0 (world (srv s2))\<rparr>\<rparr>) stopping"
    by simp
  with s1 s2 s3 show ?thesis by (meson converse_rtranclp_into_rtranclp r_into_rtranclp)
qed

theorem shutdown_drains_witness:
  "\<exists>s'. service_step\<^sup>*\<^sup>* stopping s' \<and> main_phase s' = Clean \<and> conns (world (srv stopping)) ''dev'' = Some 0 \<and> conns (world (srv s')) = Map.empty"
proof -
  have "main_phase stopping = Draining" by (simp add: stopping_def)
  with shutdown_drains [OF stopping_reachable] obtain s' where s': "service_step\<^sup>*\<^sup>* stopping s'" "main_phase s' = Clean" by blast
  have "service_step\<^sup>*\<^sup>* (service_init 1 (\<lambda>_. \<lparr>link = sample_conn [], is_closed = True\<rparr>)) s'" using stopping_reachable s'(1) by (rule rtranclp_trans)
  from shutdown_drains [OF this] s'(2) have "conns (world (srv s')) = Map.empty" by blast
  moreover have "conns (world (srv stopping)) ''dev'' = Some 0"
    by (simp add: stopping_def one_device_def Let_def conns_register)
  ultimately show ?thesis using s' by blast
qed

end
