(* ===== verification/Package_Copies.thy ===== *)
theory Package_Copies
  imports Stream_Processor
begin

text \<open>
  The packages \<open>fsm\<close>, \<open>alerts\<close> and \<open>geofence\<close> of the stream processor, which repeat the trip
  machine, the alert rules and the geofence check of the package \<open>enrichment\<close> and are not
  imported by any other. They are translated on their own, so that the lemma at the end says
  whether the two sets of sources have drifted apart.
\<close>

section \<open>Trip machine\<close>

definition fsm_StateIdle :: string where "fsm_StateIdle = ''IDLE''"
definition fsm_StateActive :: string where "fsm_StateActive = ''ACTIVE''"

text \<open>A transition to active, and back to idle, on the keys of the device.\<close>

definition fsm_start :: "'w services \<Rightarrow> string \<Rightarrow> string \<Rightarrow> EnrichedRecord \<Rightarrow> 'w sys \<Rightarrow> 'w sys" where
  "fsm_start svc skey tkey rec s =
     (case run_sql svc (InsertTrip (er_TenantID rec) (er_DeviceID rec) (er_Timestamp rec) (er_Lat rec) (er_Lng rec)) s of (q, s1) \<Rightarrow>
      case scan1 q of
        Inl err \<Rightarrow> s1
      | Inr newTripID \<Rightarrow>
          (let s2 = snd (run_redis svc (RSet skey fsm_StateActive 0) s1)
           in snd (run_redis svc (RSet tkey newTripID 0) s2)))"

definition fsm_end :: "'w services \<Rightarrow> string \<Rightarrow> string \<Rightarrow> EnrichedRecord \<Rightarrow> 'w sys \<Rightarrow> 'w sys" where
  "fsm_end svc skey tkey rec s =
     (case run_redis svc (RGet tkey) s of (t, s1) \<Rightarrow>
      let tripID = reply_text t;
          s2 = (if tripID = [] then s1 else snd (run_sql svc (EndTrip (er_Timestamp rec) (er_Lat rec) (er_Lng rec) tripID) s1));
          s3 = snd (run_redis svc (RSet skey fsm_StateIdle 0) s2)
      in snd (run_redis svc (RDel tkey) s3))"

definition fsm_Process :: "'w services \<Rightarrow> EnrichedRecord \<Rightarrow> 'w sys \<Rightarrow> 'w sys" where
  "fsm_Process svc rec s =
     (let skey = ''gpsgo:tripstate:'' @ er_DeviceID rec; tkey = ''gpsgo:tripstate:'' @ er_DeviceID rec @ '':tripid'' in
      case run_redis svc (RGet skey) s of (r, s1) \<Rightarrow>
      let state = (case r of RNil \<Rightarrow> fsm_StateIdle | RVal v \<Rightarrow> v | RErr e \<Rightarrow> []) in
      if state = fsm_StateIdle \<and> 5 < er_Speed rec then fsm_start svc skey tkey rec s1
      else if state = fsm_StateActive \<and> er_Speed rec < 2 then fsm_end svc skey tkey rec s1
      else s1)"

section \<open>Alerts and geofences\<close>

definition alerts_Evaluate :: "'w services \<Rightarrow> EnrichedRecord \<Rightarrow> 'w sys \<Rightarrow> 'w sys" where
  "alerts_Evaluate svc rec s =
     (let insert = (\<lambda>kind severity message s. snd (run_sql svc (InsertAlert (er_TenantID rec) (er_DeviceID rec) kind severity message
            (er_Lat rec) (er_Lng rec) (er_Speed rec) (er_Timestamp rec)) s));
          s1 = (if er_Speed rec > 120 then insert ''overspeed'' ''warning'' ''Vehicle exceeded 120km/h'' s else s)
      in if er_SOSEvent rec then insert ''sos'' ''critical'' ''SOS Button Pressed!'' s1 else s1)"

definition geofence_Check :: "'w services \<Rightarrow> EnrichedRecord \<Rightarrow> 'w sys \<Rightarrow> 'w sys" where
  "geofence_Check svc rec s =
     (case run_sql svc (SelectGeofences (er_TenantID rec) (er_Lng rec) (er_Lat rec)) s of
        (Inl err, s1) \<Rightarrow> s1
      | (Inr rows, s1) \<Rightarrow> s1)"

section \<open>Comparison\<close>

lemma copies_agree:
  "fsm_Process svc rec s = TripMachine_Process svc rec s"
  "alerts_Evaluate svc rec s = AlertEvaluator_Evaluate svc rec s"
  "geofence_Check svc rec s = GeofenceEngine_Check svc rec s"
proof -
  have "(case r of RNil \<Rightarrow> fsm_StateIdle | RVal v \<Rightarrow> v | RErr e \<Rightarrow> []) = reply_state r" for r
    by (cases r) (simp_all add: fsm_StateIdle_def StateIdle_def)
  then show "fsm_Process svc rec s = TripMachine_Process svc rec s"
    by (simp add: fsm_Process_def TripMachine_Process_def fsm_start_def fsm_end_def stateKey_def tripIdKey_def Let_def
        fsm_StateIdle_def StateIdle_def fsm_StateActive_def StateActive_def split: prod.split sum.split)
  show "alerts_Evaluate svc rec s = AlertEvaluator_Evaluate svc rec s"
    by (simp add: alerts_Evaluate_def AlertEvaluator_Evaluate_def alert_row_def Let_def)
  show "geofence_Check svc rec s = GeofenceEngine_Check svc rec s"
    by (simp add: geofence_Check_def GeofenceEngine_Check_def split: prod.split sum.split)
qed

text \<open>A pipeline built from the copies does the same.\<close>

lemma pipeline_of_copies:
  "Pipeline_Process svc now r s =
     (case lookup_tenant svc r s of (tenantID, s1) \<Rightarrow>
      let rec = enrichIOFields (initial_record now tenantID r)
      in (rec, alerts_Evaluate svc rec (geofence_Check svc rec (fsm_Process svc rec s1))))"
  by (simp add: Pipeline_Process_eq copies_agree)

end
