(* ===== verification/Spec2Isabelle.thy ===== *)
theory Spec2Isabelle
  imports Teltonika_Wire Gt06 Jt808 Ingestion Stream_Processor Io_Registry Hub Auth Ws_Handlers
    End_To_End Api_Facts Admin_Tables Stream_Consumer Nats Startup Admin_Progress
    Sample_Injector Ingestion_Service Package_Copies
begin

text \<open>
  Verification of FLEETROUTE, a fleet-tracking platform written in Go.

  The program. GPS trackers open TCP connections to the ingestion service, which speaks one
  protocol per port (\<open>protocols/\<close>), authenticates the device, decodes its packets into
  records and publishes them to JetStream. The stream processor takes each record, finds its
  tenant, derives telemetry fields, drives the trip state machine and the alerts, stores the
  record and publishes it on. The WebSocket service fans positions out to the browsers of the
  tenant. The API service serves the same data over HTTP behind JWT authentication.

  How the model reads. A byte is an \<open>8 word\<close>, machine integers keep their width, \<open>float64\<close> is
  a rational rounded as IEEE binary64 does it, and a Go error is its text with its wrapped
  cause. A call that can fail returns an \<open>outcome\<close>: \<open>Ok\<close>, \<open>Err\<close> or \<open>Panic\<close>, the last one
  for an index or slice expression out of range. A connection is explicit state: the segments
  the peer's bytes arrive in, the error that ends the stream, the results of the writes and
  what was written. PostgreSQL, Redis, JetStream, the JWT library, bcrypt and JSON encoding
  are outside the repository and are arguments of the definitions; what a theorem needs of
  them is one of its hypotheses. The clock is an argument as well.

  Foundations.
  \<^item> \<open>Prelude\<close>: bytes, errors, outcomes, bounds-checked slices, big-endian fields, number
    formatting. \<open>Conn\<close>: connections, \<open>io.ReadFull\<close>, \<open>binary.Read\<close>, \<open>Write\<close>, a buffered
    reader that is dropped after one call. \<open>Go_Float\<close> and \<open>Go_Time\<close>: rounding to float64 with
    its error bounds, and \<open>time.Date\<close>. \<open>Go_Strings\<close>, \<open>Go_Strconv\<close> and \<open>Rfc3339\<close>: the functions
    of the packages \<open>strings\<close>, \<open>strconv\<close> and \<open>time\<close> the source calls, on byte strings with their
    UTF-8 decoding; \<open>Text_Numbers\<close>: printed numbers and what parsing gives back of them.
  \<^item> \<open>Protocol\<close> (\<open>pkg/protocol\<close>): the handler interface as a record of operations, and the
    registry; the locale \<open>handler_registry\<close> states what its clients rely on and is interpreted
    on the model.
  \<^item> \<open>Crc\<close>: the locale \<open>crc16\<close> of table-free 16-bit checksums, with the error-detection lemmas
    proved once from linearity; \<open>Teltonika\<close> and \<open>Gt06\<close> interpret it for CRC-16/IBM and
    CRC-16/CCITT.

  Protocols.
  \<^item> \<open>Teltonika\<close> (\<open>protocols/teltonika\<close>): handshake, framing, Codec 8, 8E and 16, acknowledgement;
    no read past the payload, record and packet sizes. \<open>Teltonika_Wire\<close>: an encoder for the
    three codecs as the specification, the round trip, rejection of corrupted payloads, what
    acceptance implies, handshake and acknowledgement.
  \<^item> \<open>Gt06\<close> (\<open>protocols/gt06\<close>): packet reader, positions, alarms, responses, login. The exact
    set of inputs that panic; that the reader compares the checksum with the serial number;
    positions, login and acknowledgements.
  \<^item> \<open>Jt808\<close> (\<open>protocols/jt808\<close>): byte stuffing, frames, locations, batches, registration.
    The frame round trip after any garbage, detection of every changed byte, no panics, and
    the decoding of locations (where the raw speed is divided by ten through a float64).
  \<^item> \<open>Line_Protocol\<close>: the locale \<open>line_protocol\<close> of handlers that read one delimited message per
    call through a buffered reader and drop the reader: what a session delivers and what it
    loses, proved once. \<open>Tk103\<close> (\<open>protocols/tk103\<close>) and \<open>Ais140\<close> (\<open>protocols/ais140\<close>) interpret
    it. \<open>Tk103\<close>: reports, with bounds on the rounding of coordinates and speeds, and login.
    \<open>Ais140\<close>: the checksum and what it detects, positions, emergencies and their forwarding.

  Services.
  \<^item> \<open>Server\<close> (\<open>ingestion-service/internal/server\<close>): error classification, one connection as a
    sequential program, the connection registry (locale \<open>device_registry\<close>, interpreted) and the
    goroutines as a step relation with an invariant; the reconnection race. The parse loop is a
    \<open>for\<close> without bound in the source; its model takes the iteration at which the context is
    cancelled. The locale \<open>consuming\<close> shows that any budget above the number of pending bytes
    gives the same result, so the bound is never the reason the loop stops.
    The locale \<open>panic_free\<close> gives connections that cannot crash.
  \<^item> \<open>Config\<close> (\<open>ingestion-service/config\<close>): the configuration and its defaults. \<open>Ingestion\<close>
    (\<open>cmd/main.go\<close>, \<open>pkg/nats\<close>): publishing, the five handlers and their ports as instances of
    \<open>consuming\<close> and, but for GT06, of \<open>panic_free\<close>; detection, a whole Teltonika session, and
    the idempotency keys.
  \<^item> \<open>Ingestion_Service\<close> (\<open>cmd/main.go\<close>, \<open>ListenAndServe\<close>): the whole process with its listeners
    and wait groups as a step relation that refines the one of \<open>Server\<close>; a shutdown that ends
    cleanly leaves no connection and no entry in the registry, and can always end cleanly.
  \<^item> \<open>Stream_Processor\<close> (\<open>stream-processor\<close>): pipeline, trip machine, alerts, writers and message
    handler over a trace of everything sent to the outside; the trip machine refines a two-state
    specification, messages are answered once, and nothing is published before it is stored.
    \<open>Stream_Consumer\<close>: the loop over the messages of the broker; interleaved devices do not
    disturb each other's trips. \<open>Package_Copies\<close>: the packages \<open>fsm\<close>, \<open>alerts\<close> and \<open>geofence\<close>,
    which nothing imports, do what their originals do. \<open>Sample_Injector\<close> (\<open>cmd/injectsample\<close>): the
    tool that publishes a made-up record, which cannot be told from one of the device.
    \<open>Io_Registry\<close> (\<open>pkg/avl\<close>): the table of IO elements.
  \<^item> \<open>Nats\<close> (\<open>pkg/nats\<close>): the streams and their creation, the consumer's configuration, and
    that every subject the services publish on is stored.
  \<^item> \<open>Hub\<close> (\<open>websocket-service\<close>): hub, pumps and producers as a step relation over the channels;
    tenant isolation, no panics, and two ways messages or clients go astray. \<open>Ws_Handlers\<close>: the
    endpoints.
  \<^item> \<open>Auth\<close> (\<open>pkg/auth\<close>, API middleware and auth handlers): permission matrix, tokens, the
    chain in front of the protected routes, login and refresh.

  \<^item> \<open>Sql\<close>: the SQL the API uses as a datatype of statements with an interpreter over tables;
    the PostgreSQL driver (encoding and decoding of values, failures, generated keys) is a
    record of functions, and a list of faults decides which statements fail and when. \<open>Tenancy\<close>:
    which rows belong to a tenant, and the statements that are confined to one.
  \<^item> \<open>Api_Devices\<close>, \<open>Api_Handlers\<close> (\<open>api-service/internal/handler\<close>): every handler with its
    statements. \<open>Api_Router\<close> (\<open>internal/router\<close>): the route table behind the middleware chain;
    no request writes or reads rows of another tenant. \<open>Api_Service\<close>: all paths of the service
    and the authentication handlers with their query; what a request without a token can
    learn. \<open>Api_Facts\<close>: what single endpoints
    guarantee and where they do not.
  \<^item> \<open>Admin_Tables\<close> (\<open>internal/adminpanel/generators.go\<close>): the tables of the admin panel against
    the schema of the migrations.
  \<^item> \<open>Pg_Tables\<close>: PostgreSQL tables with typed columns, serial numbers, unique keys and
    \<open>ON CONFLICT\<close>. \<open>Admin_Panel\<close> (\<open>internal/adminpanel/auth.go\<close>, \<open>ensureGoAdminTables\<close>): the
    panel's own tables, its start-up statements and its login. \<open>Admin_Access\<close>: the invariant of
    these tables under any sequence of starts and logins with any failures, as a step
    relation. \<open>Admin_Progress\<close>: with a working database the statements succeed; who may log in
    and what a login grants.
  \<^item> \<open>Startup\<close> (the three \<open>cmd/main.go\<close>, \<open>pkg/db\<close>, \<open>NewManager\<close>): what a started service has
    opened; a login at the API, from the users table to the token, is valid at the WebSocket
    service.

  Across the services.
  \<^item> \<open>End_To_End\<close>: an emergency from the packet of the tracker to the alerts table, and a
    position from the broker through Redis and the hub to the browser.

  Bounds. Besides the parse loop's budget above there is no fuel: loops are recursions over
  the list, the bytes or the statements they consume. The hub's channels have the capacity
  the source gives the send channels; the registration and broadcast channels are queues
  without bound, of which every run with bounded channels is a run.

  Not modelled: the pages of the third-party admin panel, CORS and static files, which are
  configuration of other packages; logging, metrics and printed texts; deadlines as clock
  values (an expired deadline is a connection that ends with an error); the shutdown of the
  HTTP servers, which is the standard library's; the notification providers, which only log
  and are never called; the type declarations of \<open>pkg/avl/record.go\<close> and
  \<open>stream-processor/internal/models\<close>, which nothing uses; the two scripts that generate keys
  and seed a first user, which run once and by hand.
\<close>

end
